(* ===== verification/Prelude.thy ===== *)
theory Prelude
  imports Main "HOL-Library.Word"
begin

text \<open>
  What every component shares: machine integers, byte strings, Rust's \<open>Result\<close> with a third
  outcome for a panic, the state-passing sequencing of fallible operations, \<open>anyhow\<close> errors,
  decimal printing, and the standard-library string routines the code calls
  (\<open>str::splitn\<close>, \<open>str::from_utf8\<close>, \<open>u32::from_str_radix\<close>).

  A Rust \<open>String\<close> is its UTF-8 byte sequence, so a \<^typ>\<open>string\<close> here holds one \<^typ>\<open>char\<close> per byte.
\<close>

unbundle bit_operations_syntax

named_theorems res_simps \<open>evaluation of results and of sequenced operations\<close>
named_theorems io_inv \<open>inversion of a sequenced operation that succeeded\<close>

section \<open>Integers and bytes\<close>

type_synonym byte = "8 word"
type_synonym bytes = "8 word list"
type_synonym u32 = "32 word"
type_synonym u64 = "64 word"

abbreviation squote :: string where
  "squote \<equiv> [CHR 0x27]"

definition as_bytes :: "string \<Rightarrow> bytes" where
  "as_bytes s = map of_char s"

definition str_of_bytes :: "bytes \<Rightarrow> string" where
  "str_of_bytes bs = map (\<lambda>b. char_of (unat b)) bs"

lemma as_bytes_simps [simp]:
  "as_bytes [] = []"
  "as_bytes (c # s) = of_char c # as_bytes s"
  "as_bytes (s @ t) = as_bytes s @ as_bytes t"
  "length (as_bytes s) = length s"
  by (simp_all add: as_bytes_def)

lemma str_of_bytes_simps [simp]:
  "str_of_bytes [] = []"
  "str_of_bytes (b # bs) = char_of (unat b) # str_of_bytes bs"
  "str_of_bytes (bs @ cs) = str_of_bytes bs @ str_of_bytes cs"
  "length (str_of_bytes bs) = length bs"
  by (simp_all add: str_of_bytes_def)

lemma unat_of_char [simp]: "unat (of_char c :: byte) = of_char c"
proof -
  have "(of_char c :: byte) = of_nat (of_char c)"
    by (simp only: of_nat_of_char)
  then have "unat (of_char c :: byte) = (of_char c :: nat) mod 2 ^ 8"
    by (simp add: unat_of_nat)
  then show ?thesis by simp
qed

lemma str_of_bytes_as_bytes [simp]: "str_of_bytes (as_bytes s) = s"
  by (induction s) simp_all

lemma as_bytes_str_of_bytes [simp]: "as_bytes (str_of_bytes bs) = bs"
proof (induction bs)
  case (Cons b bs)
  have "(of_char (char_of (unat b)) :: byte) = of_nat (of_char (char_of (unat b)))"
    by (simp only: of_nat_of_char)
  also have "\<dots> = of_nat (unat b mod 256)" by simp
  also have "unat b mod 256 = unat b"
    using unsigned_less [of b, where 'a = nat] by (intro mod_less) simp
  finally show ?case using Cons by simp
qed simp

lemma as_bytes_inj [simp]: "as_bytes s = as_bytes t \<longleftrightarrow> s = t"
  by (metis str_of_bytes_as_bytes)

lemma ascii_byte [simp]: "(of_char c :: byte) < 128 \<longleftrightarrow> (of_char c :: nat) < 128"
  by (simp add: word_less_nat_alt)

section \<open>Results that can panic\<close>

text \<open>
  A Rust function that returns \<open>Result<T, E>\<close> ends in one of three ways: \<open>Ok\<close>, \<open>Err\<close>, or a panic
  (a failed \<open>unwrap\<close>, an index out of range) that unwinds the task.
\<close>

datatype ('a, 'e) res = Ok 'a | Err 'e | Panic

primrec rbind :: "('a, 'e) res \<Rightarrow> ('a \<Rightarrow> ('b, 'e) res) \<Rightarrow> ('b, 'e) res" where
  "rbind (Ok x) f = f x"
| "rbind (Err e) f = Err e"
| "rbind Panic f = Panic"

primrec map_err :: "('e \<Rightarrow> 'f) \<Rightarrow> ('a, 'e) res \<Rightarrow> ('a, 'f) res" where
  "map_err g (Ok x) = Ok x"
| "map_err g (Err e) = Err (g e)"
| "map_err g Panic = Panic"

primrec ok_or :: "'e \<Rightarrow> 'a option \<Rightarrow> ('a, 'e) res" where
  "ok_or e None = Err e"
| "ok_or e (Some x) = Ok x"

lemma rbind_Ok_iff: "rbind m f = Ok y \<longleftrightarrow> (\<exists>x. m = Ok x \<and> f x = Ok y)"
  by (cases m) simp_all

lemma map_err_Ok_iff [simp]: "map_err g m = Ok x \<longleftrightarrow> m = Ok x"
  by (cases m) simp_all

lemma map_err_Panic_iff [simp]: "map_err g m = Panic \<longleftrightarrow> m = Panic"
  by (cases m) simp_all

lemma ok_or_Ok_iff [simp]: "ok_or e v = Ok x \<longleftrightarrow> v = Some x"
  by (cases v) simp_all

lemma rbind_assoc: "rbind (rbind m f) g = rbind m (\<lambda>x. rbind (f x) g)"
  by (cases m) simp_all

text \<open>A fallible function over a list, stopping at the first failure.\<close>

primrec map_res :: "('a \<Rightarrow> ('b, 'e) res) \<Rightarrow> 'a list \<Rightarrow> ('b list, 'e) res" where
  "map_res f [] = Ok []"
| "map_res f (x # xs) = rbind (f x) (\<lambda>y. rbind (map_res f xs) (\<lambda>ys. Ok (y # ys)))"

lemma map_res_Ok_iff: "map_res f xs = Ok ys \<longleftrightarrow> list_all2 (\<lambda>x y. f x = Ok y) xs ys"
  by (induction xs arbitrary: ys) (auto simp: rbind_Ok_iff list_all2_Cons1)

lemma map_res_pure: "(\<And>x. x \<in> set xs \<Longrightarrow> f x = Ok (g x)) \<Longrightarrow> map_res f xs = Ok (map g xs)"
  by (induction xs) simp_all

subsection \<open>Fallible operations on a state\<close>

text \<open>
  An operation on a state \<open>'s\<close> (a stream, the file system) takes the state and returns its result
  with the new state. An error leaves the state as the operation left it: nothing is rolled back.
\<close>

type_synonym ('s, 'a, 'e) io = "'s \<Rightarrow> ('a, 'e) res \<times> 's"

definition io_ret :: "'a \<Rightarrow> ('s, 'a, 'e) io" where
  "io_ret x s = (Ok x, s)"

definition io_lift :: "('a, 'e) res \<Rightarrow> ('s, 'a, 'e) io" where
  "io_lift r s = (r, s)"

definition io_bind :: "('s, 'a, 'e) io \<Rightarrow> ('a \<Rightarrow> ('s, 'b, 'e) io) \<Rightarrow> ('s, 'b, 'e) io" where
  "io_bind m f s = (case m s of
      (Ok x, s') \<Rightarrow> f x s'
    | (Err e, s') \<Rightarrow> (Err e, s')
    | (Panic, s') \<Rightarrow> (Panic, s'))"

definition io_map_err :: "('e \<Rightarrow> 'f) \<Rightarrow> ('s, 'a, 'e) io \<Rightarrow> ('s, 'a, 'f) io" where
  "io_map_err g m s = (case m s of (r, s') \<Rightarrow> (map_err g r, s'))"

text \<open>\<open>let _ = ...\<close>: the error of an operation is ignored, its effect stays; a panic is not ignored.\<close>

definition io_ignore :: "('s, 'a, 'e) io \<Rightarrow> ('s, unit, 'f) io" where
  "io_ignore m s = (case m s of
      (Ok x, s') \<Rightarrow> (Ok (), s')
    | (Err e, s') \<Rightarrow> (Ok (), s')
    | (Panic, s') \<Rightarrow> (Panic, s'))"

lemma io_apply [res_simps]:
  "io_ret x s = (Ok x, s)"
  "io_lift r s = (r, s)"
  by (simp_all add: io_ret_def io_lift_def)

lemma snd_io_ignore [simp]: "snd (io_ignore m s) = snd (m s)"
  by (auto simp: io_ignore_def split: prod.splits res.splits)

lemma io_ignore_simps [res_simps]:
  "m s = (Ok x, s') \<Longrightarrow> io_ignore m s = (Ok (), s')"
  "m s = (Err e, s') \<Longrightarrow> io_ignore m s = (Ok (), s')"
  "m s = (Panic, s') \<Longrightarrow> io_ignore m s = (Panic, s')"
  by (simp_all add: io_ignore_def)

lemma io_bind_Ok [res_simps]: "m s = (Ok x, s') \<Longrightarrow> io_bind m f s = f x s'"
  by (simp add: io_bind_def)

lemma io_bind_Err [res_simps]: "m s = (Err e, s') \<Longrightarrow> io_bind m f s = (Err e, s')"
  by (simp add: io_bind_def)

lemma io_bind_Panic [res_simps]: "m s = (Panic, s') \<Longrightarrow> io_bind m f s = (Panic, s')"
  by (simp add: io_bind_def)

lemma io_map_err_apply [res_simps]: "m s = (r, s') \<Longrightarrow> io_map_err g m s = (map_err g r, s')"
  by (simp add: io_map_err_def)

lemma snd_io_map_err [simp]: "snd (io_map_err g m s) = snd (m s)"
  by (simp add: io_map_err_def split: prod.split)

lemma io_bind_Ok_iff [io_inv]:
  "io_bind m f s = (Ok y, s'') \<longleftrightarrow> (\<exists>x s'. m s = (Ok x, s') \<and> f x s' = (Ok y, s''))"
  by (auto simp: io_bind_def split: prod.splits res.splits)

lemma io_map_err_Ok_iff [io_inv]: "io_map_err g m s = (Ok x, s') \<longleftrightarrow> m s = (Ok x, s')"
  by (auto simp: io_map_err_def split: prod.splits)

lemma io_prim_Ok_iff [io_inv]:
  "io_ret x s = (Ok y, s') \<longleftrightarrow> y = x \<and> s' = s"
  "io_lift r s = (Ok y, s') \<longleftrightarrow> r = Ok y \<and> s' = s"
  by (auto simp: io_ret_def io_lift_def)

subsection \<open>anyhow errors\<close>

text \<open>
  An \<open>anyhow::Error\<close> is a message under the contexts that \<open>.context\<close> and \<open>.with_context\<close> added;
  its \<open>to_string\<close> is the outermost of them.
\<close>

datatype anyhow = Msg string | Context string anyhow

primrec anyhow_to_string :: "anyhow \<Rightarrow> string" where
  "anyhow_to_string (Msg m) = m"
| "anyhow_to_string (Context c e) = c"

primrec root_cause :: "anyhow \<Rightarrow> string" where
  "root_cause (Msg m) = m"
| "root_cause (Context c e) = root_cause e"

text \<open>Shifting a byte in at the low end of a word is the step of a big-endian number.\<close>

lemma shift_in_byte:
  "push_bit 8 (of_nat v :: 'a :: len word) OR ucast (b :: byte) = of_nat (v * 256 + unat b)"
proof -
  have disj: "push_bit 8 (of_nat v :: 'a word) AND ucast b = 0"
    by (rule bit_word_eqI) (auto simp: bit_simps dest: bit_imp_le_length)
  have "push_bit 8 (of_nat v :: 'a word) OR ucast b = push_bit 8 (of_nat v) + ucast b"
    using word_plus_and_or [of "push_bit 8 (of_nat v :: 'a word)" "ucast b"] unfolding disj by simp
  then show ?thesis by (simp add: push_bit_eq_mult)
qed

end
