(* ===== verification/Wire.thy ===== *)
theory Wire
  imports Prelude
begin

text \<open>
  The shared data of \<open>auth-scope-proto\<close>: the capability structures of \<open>caps.rs\<close> and the two
  messages of \<open>wire.rs\<close>. A \<open>serde\<close> record holds the pair of functions between a type and bytes, an
  argument of what follows; \<open>Json\<close> gives the pairs that the derives of the two files declare.
\<close>

section \<open>Capabilities (caps.rs)\<close>

record PathAccess =
  pa_path :: string
  pa_access :: "string list"

record Capability =
  cap_target_vm :: string
  cap_rpc_modules :: "string list"
  cap_rpc_methods :: "string list"
  cap_paths :: "PathAccess list"

text \<open>The timestamps are \<open>i64\<close>: 64-bit words read with \<^const>\<open>sint\<close>.\<close>

record CapClaim =
  cl_iss :: string
  cl_sub :: string
  cl_vm :: string
  cl_cid :: u32
  cl_iat :: "64 word"
  cl_exp :: "64 word"
  cl_caps :: "Capability list"

section \<open>Messages (wire.rs)\<close>

definition PROTOCOL_VERSION :: u32 where
  "PROTOCOL_VERSION = 1"

record CertRequest =
  rq_version :: u32
  rq_vm_name :: string
  rq_entity :: string
  rq_csr_pem :: string

datatype CertResponse =
    RespOk (resp_cert_pem: string) (resp_ca_cert_pem: string)
  | RespError (resp_message: string)

section \<open>Encoders\<close>

record 'a serde =
  to_vec :: "'a \<Rightarrow> (bytes, string) res"
  from_slice :: "bytes \<Rightarrow> ('a, string) res"

text \<open>
  What the code relies on: the value \<open>x\<close> can be encoded, and decoding its encoding gives it back.
  The law is stated for one value, the one that is sent.
\<close>

definition serde_law :: "'a serde \<Rightarrow> 'a \<Rightarrow> bytes \<Rightarrow> bool" where
  "serde_law J x bs \<longleftrightarrow> to_vec J x = Ok bs \<and> from_slice J bs = Ok x"

lemma serde_lawD:
  assumes "serde_law J x bs"
  shows "to_vec J x = Ok bs" and "from_slice J bs = Ok x"
  using assms by (simp_all add: serde_law_def)

end
