(* ===== verification/Ca_Error.thy ===== *)
theory Ca_Error
  imports Prelude
begin

text \<open>
  The error type of the CA engine (\<open>error.rs\<close>), its \<open>Display\<close> texts, and the conversions that
  \<open>?\<close> applies to a \<open>ring\<close>, \<open>rcgen\<close>, \<open>std::io\<close> or \<open>serde_json\<close> error. An error of another crate is
  the text it displays.
\<close>

datatype CaError =
    KeyNotFound string string
  | CertNotFound string string
  | KeyParseFailed string
  | CertParseFailed string
  | RcgenError string
  | RingError string
  | JwtError string
  | Io string
  | SerdeError string

primrec ca_error_to_string :: "CaError \<Rightarrow> string" where
  "ca_error_to_string (KeyNotFound path src) = ''CA key file not found at '' @ path @ '': '' @ src"
| "ca_error_to_string (CertNotFound path src) = ''CA cert file not found at '' @ path @ '': '' @ src"
| "ca_error_to_string (KeyParseFailed m) = ''failed to parse CA key PEM: '' @ m"
| "ca_error_to_string (CertParseFailed m) = ''failed to parse CA cert PEM: '' @ m"
| "ca_error_to_string (RcgenError m) = ''certificate generation error: '' @ m"
| "ca_error_to_string (RingError m) = ''ring crypto error: '' @ m"
| "ca_error_to_string (JwtError m) = ''JWT build error: '' @ m"
| "ca_error_to_string (Io m) = ''I/O error: '' @ m"
| "ca_error_to_string (SerdeError m) = ''serialisation error: '' @ m"

text \<open>\<open>From<ring::error::Unspecified>\<close> and \<open>From<ring::error::KeyRejected>\<close>.\<close>

definition CaError_from_ring :: "string \<Rightarrow> CaError" where
  "CaError_from_ring e = RingError e"

end
