(* ===== verification/Rust_Str.thy ===== *)
theory Rust_Str
  imports Prelude
begin

text \<open>
  The routines of Rust's \<open>core::str\<close> and \<open>core::num\<close> that the code calls: \<open>str::splitn\<close> on a
  character, \<open>str::trim_start_matches\<close> on a character, \<open>str::from_utf8\<close>,
  \<open>u32::from_str_radix\<close> with its four error kinds, and the \<open>Display\<close> of an unsigned integer.
\<close>

section \<open>Splitting and trimming\<close>

fun splitn :: "nat \<Rightarrow> char \<Rightarrow> string \<Rightarrow> string list" where
  "splitn 0 c s = []"
| "splitn (Suc 0) c s = [s]"
| "splitn (Suc (Suc n)) c s =
     (if c \<in> set s
      then takeWhile (\<lambda>x. x \<noteq> c) s # splitn (Suc n) c (tl (dropWhile (\<lambda>x. x \<noteq> c) s))
      else [s])"

definition trim_start_matches :: "char \<Rightarrow> string \<Rightarrow> string" where
  "trim_start_matches c s = dropWhile (\<lambda>x. x = c) s"

lemma takeWhile_neq_append [simp]: "c \<notin> set a \<Longrightarrow> takeWhile (\<lambda>x. x \<noteq> c) (a @ c # s) = a"
  by (induction a) auto

lemma dropWhile_neq_append [simp]: "c \<notin> set a \<Longrightarrow> dropWhile (\<lambda>x. x \<noteq> c) (a @ c # s) = c # s"
  by (induction a) auto

lemma splitn_append: "c \<notin> set a \<Longrightarrow> splitn (Suc (Suc n)) c (a @ c # s) = a # splitn (Suc n) c s"
  by (simp add: takeWhile_neq_append dropWhile_neq_append)

lemma split_at_first:
  assumes "c \<in> set s"
  obtains a t where "s = a @ c # t" "c \<notin> set a"
  using assms by (metis split_list_first)

text \<open>Three parts come out exactly when the input has two separators; the third keeps the rest.\<close>

lemma splitn3_iff:
  "splitn 3 c s = [a, b, t] \<longleftrightarrow> s = a @ c # b @ c # t \<and> c \<notin> set a \<and> c \<notin> set b"
proof
  assume parts: "splitn 3 c s = [a, b, t]"
  then have "c \<in> set s" by (auto simp: numeral_3_eq_3 split: if_splits)
  then obtain x y where s: "s = x @ c # y" and x: "c \<notin> set x" by (rule split_at_first)
  with parts have x_eq: "x = a" and rest: "splitn 2 c y = [b, t]"
    by (simp_all add: numeral_3_eq_3 numeral_2_eq_2 splitn_append)
  from rest have "c \<in> set y" by (auto simp: numeral_2_eq_2 split: if_splits)
  then obtain u v where y: "y = u @ c # v" and u: "c \<notin> set u" by (rule split_at_first)
  with rest have "u = b" "v = t"
    by (simp_all add: numeral_2_eq_2 takeWhile_neq_append dropWhile_neq_append)
  with s y x u x_eq show "s = a @ c # b @ c # t \<and> c \<notin> set a \<and> c \<notin> set b" by simp
next
  assume "s = a @ c # b @ c # t \<and> c \<notin> set a \<and> c \<notin> set b"
  then show "splitn 3 c s = [a, b, t]"
    by (simp add: numeral_3_eq_3 takeWhile_neq_append dropWhile_neq_append)
qed

lemma length_splitn: "length (splitn n c s) \<le> n"
  by (induction n c s rule: splitn.induct) auto

section \<open>UTF-8 validation\<close>

text \<open>
  The well-formed byte sequences of the Unicode standard (table 3-7), which is what
  \<open>str::from_utf8\<close> accepts.
\<close>

definition utf8_cont :: "byte \<Rightarrow> bool" where
  "utf8_cont b \<longleftrightarrow> 0x80 \<le> b \<and> b \<le> 0xBF"

fun utf8_valid :: "bytes \<Rightarrow> bool" where
  "utf8_valid [] = True"
| "utf8_valid (b # bs) =
     (if b < 0x80 then utf8_valid bs
      else if 0xC2 \<le> b \<and> b \<le> 0xDF then
        (case bs of c # rest \<Rightarrow> utf8_cont c \<and> utf8_valid rest | _ \<Rightarrow> False)
      else if 0xE0 \<le> b \<and> b \<le> 0xEF then
        (case bs of c # d # rest \<Rightarrow>
            (if b = 0xE0 then 0xA0 \<le> c \<and> c \<le> 0xBF
             else if b = 0xED then 0x80 \<le> c \<and> c \<le> 0x9F else utf8_cont c)
            \<and> utf8_cont d \<and> utf8_valid rest
          | _ \<Rightarrow> False)
      else if 0xF0 \<le> b \<and> b \<le> 0xF4 then
        (case bs of c # d # e # rest \<Rightarrow>
            (if b = 0xF0 then 0x90 \<le> c \<and> c \<le> 0xBF
             else if b = 0xF4 then 0x80 \<le> c \<and> c \<le> 0x8F else utf8_cont c)
            \<and> utf8_cont d \<and> utf8_cont e \<and> utf8_valid rest
          | _ \<Rightarrow> False)
      else False)"

declare utf8_valid.simps(2) [simp del]

definition from_utf8 :: "bytes \<Rightarrow> (string, unit) res" where
  "from_utf8 bs = (if utf8_valid bs then Ok (str_of_bytes bs) else Err ())"

lemma utf8_valid_ascii: "\<forall>b \<in> set bs. b < 0x80 \<Longrightarrow> utf8_valid bs"
  by (induction bs) (simp_all add: utf8_valid.simps(2))

lemma from_utf8_ascii: "\<forall>c \<in> set s. (of_char c :: nat) < 128 \<Longrightarrow> from_utf8 (as_bytes s) = Ok s"
  by (simp add: from_utf8_def utf8_valid_ascii as_bytes_def word_less_nat_alt
      flip: as_bytes_def) (simp add: as_bytes_def utf8_valid_ascii word_less_nat_alt)

section \<open>Numbers in a radix up to ten\<close>

datatype int_error = Empty | InvalidDigit | PosOverflow

primrec int_error_to_string :: "int_error \<Rightarrow> string" where
  "int_error_to_string Empty = ''cannot parse integer from empty string''"
| "int_error_to_string InvalidDigit = ''invalid digit found in string''"
| "int_error_to_string PosOverflow = ''number too large to fit in target type''"

definition to_digit :: "nat \<Rightarrow> char \<Rightarrow> nat option" where
  "to_digit r c =
     (let d = of_char c - 48 in if 48 \<le> (of_char c :: nat) \<and> d < r then Some d else None)"

fun radix_loop :: "nat \<Rightarrow> nat \<Rightarrow> string \<Rightarrow> (nat, int_error) res" where
  "radix_loop r acc [] = Ok acc"
| "radix_loop r acc (c # cs) =
     (case to_digit r c of
        None \<Rightarrow> Err InvalidDigit
      | Some d \<Rightarrow>
          if acc * r < 2 ^ 32 \<and> acc * r + d < 2 ^ 32 then radix_loop r (acc * r + d) cs
          else Err PosOverflow)"

text \<open>A leading \<open>+\<close> is dropped; a lone sign and, for an unsigned type, any \<open>-\<close> is an invalid digit.\<close>

definition u32_from_str_radix :: "string \<Rightarrow> nat \<Rightarrow> (u32, int_error) res" where
  "u32_from_str_radix s r =
     (case s of
        [] \<Rightarrow> Err Empty
      | c # cs \<Rightarrow>
          if c \<in> {CHR ''+'', CHR ''-''} \<and> cs = [] then Err InvalidDigit
          else rbind (radix_loop r 0 (if c = CHR ''+'' then cs else s)) (\<lambda>n. Ok (of_nat n)))"

fun show_radix :: "nat \<Rightarrow> nat \<Rightarrow> string" where
  "show_radix r n =
     (if n < r \<or> r < 2 then [char_of (48 + n)]
      else show_radix r (n div r) @ [char_of (48 + n mod r)])"

declare show_radix.simps [simp del]

definition show_nat :: "nat \<Rightarrow> string" where
  "show_nat n = show_radix 10 n"

definition show_u32 :: "u32 \<Rightarrow> string" where
  "show_u32 w = show_nat (unat w)"

lemma to_digit_char [simp]: "d < r \<Longrightarrow> r \<le> 10 \<Longrightarrow> to_digit r (char_of (48 + d)) = Some d"
  by (simp add: to_digit_def)

text \<open>The value of a digit string, and when the loop accepts it.\<close>

definition digits_value :: "nat \<Rightarrow> nat \<Rightarrow> string \<Rightarrow> nat" where
  "digits_value r acc s = foldl (\<lambda>a c. a * r + (of_char c - 48)) acc s"

definition all_digits :: "nat \<Rightarrow> string \<Rightarrow> bool" where
  "all_digits r s \<longleftrightarrow> list_all (\<lambda>c. to_digit r c \<noteq> None) s"

lemma radix_loop_append:
  "radix_loop r acc (s @ t) = rbind (radix_loop r acc s) (\<lambda>n. radix_loop r n t)"
  by (induction s arbitrary: acc) (simp_all split: option.split)

lemma radix_loop_show:
  assumes "2 \<le> r" "r \<le> 10"
  shows "n < 2 ^ 32 \<Longrightarrow> radix_loop r 0 (show_radix r n) = Ok n"
proof (induction n rule: less_induct)
  case (less n)
  show ?case
  proof (cases "n < r")
    case True
    with less.prems assms show ?thesis by (simp add: show_radix.simps [of r n])
  next
    case False
    have "n div r < n" "n div r < 2 ^ 32"
      using False assms less.prems by (auto intro: div_less_dividend le_less_trans [OF div_le_dividend])
    then have "radix_loop r 0 (show_radix r (n div r)) = Ok (n div r)" by (rule less.IH)
    moreover have "n div r * r + n mod r = n" by simp
    moreover from this less.prems have "n div r * r < 2 ^ 32" by linarith
    moreover have "n mod r < r" using assms by simp
    ultimately show ?thesis
      using False assms less.prems by (simp add: show_radix.simps [of r n] radix_loop_append)
  qed
qed

lemma show_radix_digits:
  assumes "2 \<le> r" "r \<le> 10"
  shows "all_digits r (show_radix r n) \<and> show_radix r n \<noteq> []"
proof (induction n rule: less_induct)
  case (less n)
  show ?case
  proof (cases "n < r")
    case True
    with assms show ?thesis by (simp add: show_radix.simps [of r n] all_digits_def)
  next
    case False
    with assms have "n div r < n" by (auto intro: div_less_dividend)
    with less.IH have "all_digits r (show_radix r (n div r))" by simp
    moreover have "n mod r < r" using assms by simp
    ultimately show ?thesis
      using False assms by (simp add: show_radix.simps [of r n] all_digits_def)
  qed
qed

lemma digits_value_mono: "1 \<le> r \<Longrightarrow> acc \<le> digits_value r acc s"
proof (induction s arbitrary: acc)
  case Nil
  then show ?case by (simp add: digits_value_def)
next
  case (Cons c s)
  have "acc \<le> acc * r + (of_char c - 48)"
    using Cons.prems by (metis le_add1 le_trans mult.commute mult_le_mono1 nat_mult_1)
  also have "\<dots> \<le> digits_value r (acc * r + (of_char c - 48)) s"
    by (rule Cons.IH) (rule Cons.prems)
  finally show ?case by (simp add: digits_value_def)
qed

lemma radix_loop_iff:
  assumes "1 \<le> r"
  shows "radix_loop r acc s = Ok n \<longleftrightarrow>
    all_digits r s \<and> n = digits_value r acc s \<and> (s = [] \<or> n < 2 ^ 32)"
proof (induction s arbitrary: acc)
  case Nil
  then show ?case by (auto simp: all_digits_def digits_value_def)
next
  case (Cons c s)
  show ?case
  proof (cases "to_digit r c")
    case None
    then show ?thesis by (simp add: all_digits_def)
  next
    case (Some d)
    then have d: "d = of_char c - 48" by (auto simp: to_digit_def Let_def split: if_splits)
    have step: "digits_value r acc (c # s) = digits_value r (acc * r + d) s"
      by (simp add: digits_value_def d)
    have le: "acc * r + d \<le> digits_value r (acc * r + d) s"
      by (rule digits_value_mono) (rule assms)
    show ?thesis
    proof (cases "acc * r + d < 2 ^ 32")
      case True
      then have "acc * r < 2 ^ 32" by simp
      with True Some Cons.IH step show ?thesis
        by (cases s) (auto simp: all_digits_def digits_value_def)
    next
      case False
      with Some le step show ?thesis by auto
    qed
  qed
qed

lemma u32_from_str_radix_digits:
  assumes "1 \<le> r" "s \<noteq> []" "all_digits r s" "digits_value r 0 s < 2 ^ 32"
  shows "u32_from_str_radix s r = Ok (of_nat (digits_value r 0 s))"
proof -
  have "radix_loop r 0 s = Ok (digits_value r 0 s)"
    using assms by (simp add: radix_loop_iff)
  moreover have "hd s \<noteq> CHR ''+''" "hd s \<noteq> CHR ''-''"
    using assms(2,3) by (cases s; auto simp: all_digits_def to_digit_def)+
  ultimately show ?thesis
    using assms(2) by (cases s) (simp_all add: u32_from_str_radix_def)
qed

text \<open>Printing and parsing are inverse, with any number of leading zeros.\<close>

lemma digits_value_zeros: "digits_value r 0 (replicate k (CHR ''0'') @ s) = digits_value r 0 s"
  by (induction k) (simp_all add: digits_value_def)

lemma digits_value_show:
  assumes "2 \<le> r" "r \<le> 10" "n < 2 ^ 32"
  shows "digits_value r 0 (show_radix r n) = n"
  using radix_loop_show [OF assms] assms(1) by (simp add: radix_loop_iff)

lemma u32_from_str_radix_show:
  assumes "2 \<le> r" "r \<le> 10"
  shows "u32_from_str_radix (show_radix r (unat w)) r = Ok w"
proof -
  have "unat w < 2 ^ 32" using unsigned_less [of w] by simp
  with assms show ?thesis
    by (simp add: u32_from_str_radix_digits show_radix_digits digits_value_show)
qed

end
