(* ===== verification/Jwt.thy ===== *)
theory Jwt
  imports Wire Ca_Error Rust_Str
begin

text \<open>
  The capability token of \<open>jwt.rs\<close>: a compact JWT signed with the CA key, and its verification.

  \<open>base64\<close> and \<open>ring\<close> are not part of the repository. They and the JSON encoder of \<^typ>\<open>CapClaim\<close>
  (which \<open>Json\<close> and \<open>Go_Json\<close> supply) are the fields of a \<open>jwt_lib\<close> record, an argument of every definition here; \<open>'k\<close> is ring's
  key-pair type. The randomness of an ECDSA signature is an explicit argument of \<open>ring_sign\<close>.
\<close>

record 'k jwt_lib =
  b64_encode :: "bytes \<Rightarrow> string"
  b64_decode :: "string \<Rightarrow> (bytes, string) res"
  ring_from_pkcs8 :: "bytes \<Rightarrow> ('k, string) res"
  ring_sign :: "'k \<Rightarrow> nat \<Rightarrow> bytes \<Rightarrow> (bytes, string) res"
  ring_verify :: "bytes \<Rightarrow> bytes \<Rightarrow> bytes \<Rightarrow> bool"
  claim_to_string :: "CapClaim \<Rightarrow> (string, string) res"
  claim_from_slice :: "bytes \<Rightarrow> (CapClaim, string) res"

definition CAP_JWT_HEADER :: string where
  "CAP_JWT_HEADER = ''{\"alg\":\"ES256\",\"typ\":\"CAP\"}''"

definition CAP_EXTENSION_OID :: "u64 list" where
  "CAP_EXTENSION_OID = [1, 3, 6, 1, 4, 1, 99999, 1]"

record 'k CapJwtSigner =
  js_key_pair :: 'k
  js_rng :: nat

definition from_pkcs8_der :: "'k jwt_lib \<Rightarrow> nat \<Rightarrow> bytes \<Rightarrow> ('k CapJwtSigner, CaError) res" where
  "from_pkcs8_der L rng key_der =
     rbind (map_err CaError_from_ring (ring_from_pkcs8 L key_der)) (\<lambda>key_pair.
       Ok \<lparr>js_key_pair = key_pair, js_rng = rng\<rparr>)"

definition jwt_signing_input :: "'k jwt_lib \<Rightarrow> string \<Rightarrow> string" where
  "jwt_signing_input L payload_json =
     b64_encode L (as_bytes CAP_JWT_HEADER) @ ''.'' @ b64_encode L (as_bytes payload_json)"

definition jwt_sign :: "'k jwt_lib \<Rightarrow> 'k CapJwtSigner \<Rightarrow> CapClaim \<Rightarrow> (string, CaError) res" where
  "jwt_sign L signer claim =
     rbind (map_err SerdeError (claim_to_string L claim)) (\<lambda>payload_json.
     let signing_input = jwt_signing_input L payload_json in
     rbind (map_err JwtError (ring_sign L (js_key_pair signer) (js_rng signer) (as_bytes signing_input)))
       (\<lambda>sig. Ok (signing_input @ ''.'' @ b64_encode L sig)))"

definition verify_cap_jwt :: "'k jwt_lib \<Rightarrow> string \<Rightarrow> bytes \<Rightarrow> (CapClaim, CaError) res" where
  "verify_cap_jwt L jwt public_key_spki_der =
     (case splitn 3 CHR ''.'' jwt of
        [h, p, s] \<Rightarrow>
          let signing_input = h @ ''.'' @ p in
          rbind (map_err (\<lambda>e. JwtError (''bad signature base64: '' @ e)) (b64_decode L s)) (\<lambda>sig.
          if ring_verify L public_key_spki_der (as_bytes signing_input) sig
          then rbind (map_err (\<lambda>e. JwtError (''bad payload base64: '' @ e)) (b64_decode L p))
                 (\<lambda>payload_bytes. map_err SerdeError (claim_from_slice L payload_bytes))
          else Err (JwtError ''JWT signature verification failed''))
      | _ \<Rightarrow> Err (JwtError ''invalid JWT structure''))"

section \<open>What the code relies on\<close>

text \<open>
  base64url without padding (RFC 4648, section 5): decoding inverts encoding, and the encoding uses
  the 64 letters, digits, \<open>-\<close> and \<open>_\<close> only.
\<close>

definition url_safe_char :: "char \<Rightarrow> bool" where
  "url_safe_char c \<longleftrightarrow> (let n = (of_char c :: nat) in
     65 \<le> n \<and> n \<le> 90 \<or> 97 \<le> n \<and> n \<le> 122 \<or> 48 \<le> n \<and> n \<le> 57 \<or> n = 45 \<or> n = 95)"

definition base64_law :: "'k jwt_lib \<Rightarrow> bool" where
  "base64_law L \<longleftrightarrow> (\<forall>bs. b64_decode L (b64_encode L bs) = Ok bs
     \<and> list_all url_safe_char (b64_encode L bs))"

text \<open>A signature made with a key verifies under its public key.\<close>

definition signature_law :: "'k jwt_lib \<Rightarrow> 'k \<Rightarrow> bytes \<Rightarrow> bool" where
  "signature_law L kp pk \<longleftrightarrow>
     (\<forall>rng m sig. ring_sign L kp rng m = Ok sig \<longrightarrow> ring_verify L pk m sig)"

text \<open>The JSON text of the claim \<open>c\<close> is \<open>s\<close>, and reading it back gives \<open>c\<close>.\<close>

definition claim_json_law :: "'k jwt_lib \<Rightarrow> CapClaim \<Rightarrow> string \<Rightarrow> bool" where
  "claim_json_law L c s \<longleftrightarrow> claim_to_string L c = Ok s \<and> claim_from_slice L (as_bytes s) = Ok c"

section \<open>Lemmas\<close>

lemma base64_lawD:
  assumes "base64_law L"
  shows "b64_decode L (b64_encode L bs) = Ok bs" and "list_all url_safe_char (b64_encode L bs)"
  using assms by (simp_all add: base64_law_def)

lemma not_dot [simp]: "list_all url_safe_char s \<Longrightarrow> CHR ''.'' \<notin> set s"
  by (auto simp: list_all_iff url_safe_char_def Let_def)

lemma b64_no_dot [simp]: "base64_law L \<Longrightarrow> CHR ''.'' \<notin> set (b64_encode L bs)"
  by (simp add: base64_lawD)

lemma url_safe_ascii: "list_all url_safe_char s \<Longrightarrow> c \<in> set s \<Longrightarrow> (of_char c :: nat) < 128"
  by (auto simp: list_all_iff url_safe_char_def Let_def)

lemma splitn3_dot:
  "splitn 3 CHR ''.'' jwt = [h, p, s] \<longleftrightarrow>
     jwt = h @ ''.'' @ p @ ''.'' @ s \<and> CHR ''.'' \<notin> set h \<and> CHR ''.'' \<notin> set p"
  by (simp add: splitn3_iff)

lemma verify_cap_jwt_Ok_splitn:
  "verify_cap_jwt L jwt pk = Ok claim \<longleftrightarrow>
     (\<exists>h p s sig payload. splitn 3 CHR ''.'' jwt = [h, p, s]
        \<and> b64_decode L s = Ok sig \<and> ring_verify L pk (as_bytes (h @ ''.'' @ p)) sig
        \<and> b64_decode L p = Ok payload \<and> claim_from_slice L payload = Ok claim)"
  by (auto simp: verify_cap_jwt_def rbind_Ok_iff Let_def split: list.splits if_splits)

lemma verify_cap_jwt_parts:
  assumes "CHR ''.'' \<notin> set h" and "CHR ''.'' \<notin> set p"
  shows "verify_cap_jwt L (h @ ''.'' @ p @ ''.'' @ s) pk =
    rbind (map_err (\<lambda>e. JwtError (''bad signature base64: '' @ e)) (b64_decode L s)) (\<lambda>sig.
      if ring_verify L pk (as_bytes (h @ ''.'' @ p)) sig
      then rbind (map_err (\<lambda>e. JwtError (''bad payload base64: '' @ e)) (b64_decode L p))
             (\<lambda>payload_bytes. map_err SerdeError (claim_from_slice L payload_bytes))
      else Err (JwtError ''JWT signature verification failed''))"
proof -
  have "splitn 3 CHR ''.'' (h @ ''.'' @ p @ ''.'' @ s) = [h, p, s]"
    using assms by (simp add: splitn3_iff)
  then show ?thesis by (simp add: verify_cap_jwt_def)
qed

lemma jwt_sign_Ok_iff:
  "jwt_sign L signer claim = Ok jwt \<longleftrightarrow>
     (\<exists>payload sig. claim_to_string L claim = Ok payload
        \<and> ring_sign L (js_key_pair signer) (js_rng signer) (as_bytes (jwt_signing_input L payload)) = Ok sig
        \<and> jwt = jwt_signing_input L payload @ ''.'' @ b64_encode L sig)"
  by (auto simp: jwt_sign_def rbind_Ok_iff Let_def)

text \<open>A token the signer makes is plain ASCII, so \<open>from_utf8\<close> reads it back.\<close>

lemma jwt_sign_ascii:
  assumes "base64_law L" and "jwt_sign L signer claim = Ok jwt"
  shows "from_utf8 (as_bytes jwt) = Ok jwt"
proof (rule from_utf8_ascii, rule ballI)
  fix c assume "c \<in> set jwt"
  with assms(2) have "c = CHR ''.'' \<or> (\<exists>bs. c \<in> set (b64_encode L bs))"
    unfolding jwt_sign_Ok_iff jwt_signing_input_def by auto
  with assms(1) show "(of_char c :: nat) < 128"
    by (auto intro: url_safe_ascii base64_lawD)
qed

lemma verify_signed_token:
  assumes "base64_law L" and "signature_law L (js_key_pair signer) pk"
    and "claim_json_law L claim payload" and "jwt_sign L signer claim = Ok jwt"
  shows "verify_cap_jwt L jwt pk = Ok claim"
proof -
  from assms(3,4) obtain sig where
    sig: "ring_sign L (js_key_pair signer) (js_rng signer) (as_bytes (jwt_signing_input L payload)) = Ok sig"
    and jwt: "jwt = jwt_signing_input L payload @ ''.'' @ b64_encode L sig"
    by (auto simp: jwt_sign_Ok_iff claim_json_law_def)
  from assms(2) sig have "ring_verify L pk (as_bytes (jwt_signing_input L payload)) sig"
    by (auto simp: signature_law_def)
  with assms(1,3) show ?thesis
    unfolding jwt jwt_signing_input_def append_assoc
    by (subst verify_cap_jwt_parts) (simp_all add: base64_lawD claim_json_law_def)
qed

text \<open>A signing input determines its payload part.\<close>

lemma signing_input_payload:
  assumes "base64_law L" and "CHR ''.'' \<notin> set h" and "h @ ''.'' @ p = jwt_signing_input L q"
  shows "p = b64_encode L (as_bytes q)"
  using assms(2,3) b64_no_dot [OF assms(1)] unfolding jwt_signing_input_def
  by (metis append_Cons append_Nil dropWhile_neq_append list.inject)

section \<open>A concrete library for the witnesses\<close>

text \<open>
  base64 is replaced by two letters per byte, the JSON of the one claim \<open>c\<close> by an empty object, and
  the key signs exactly that claim. Every law above holds of it.
\<close>

definition letters_encode :: "bytes \<Rightarrow> string" where
  "letters_encode bs =
     concat (map (\<lambda>b. [char_of (97 + unat b div 16), char_of (97 + unat b mod 16)]) bs)"

fun letters_decode :: "string \<Rightarrow> (bytes, string) res" where
  "letters_decode [] = Ok []"
| "letters_decode [c] = Err ''odd length''"
| "letters_decode (c # d # s) =
     rbind (letters_decode s) (\<lambda>bs. Ok (of_nat ((of_char c - 97) * 16 + (of_char d - 97)) # bs))"

definition sample_message :: bytes where
  "sample_message = as_bytes (letters_encode (as_bytes CAP_JWT_HEADER) @ ''.'' @ letters_encode (as_bytes ''{}''))"

definition sample_sig :: bytes where
  "sample_sig = replicate 64 9"

definition sample_jwt_lib :: "CapClaim \<Rightarrow> unit jwt_lib" where
  "sample_jwt_lib c = \<lparr>
     b64_encode = letters_encode, b64_decode = letters_decode,
     ring_from_pkcs8 = (\<lambda>der. if der = [48, 1] then Ok () else Err ''InvalidEncoding''),
     ring_sign = (\<lambda>_ _ m. if m = sample_message then Ok sample_sig else Err ''unspecified''),
     ring_verify = (\<lambda>pk m sig. pk = [4, 7] \<and> m = sample_message \<and> sig = sample_sig),
     claim_to_string = (\<lambda>_. Ok ''{}''), claim_from_slice = (\<lambda>_. Ok c)\<rparr>"

definition sample_cap :: Capability where
  "sample_cap = \<lparr>cap_target_vm = ''my-vm'', cap_rpc_modules = [''auth''],
     cap_rpc_methods = [''data.read_secure''],
     cap_paths = [\<lparr>pa_path = ''/api/v1/health'', pa_access = [''read'']\<rparr>]\<rparr>"

definition sample_claim :: CapClaim where
  "sample_claim = \<lparr>cl_iss = ''auth-scope-ca'', cl_sub = ''peer-service'', cl_vm = ''peer-vm'',
     cl_cid = 10, cl_iat = 1700000000, cl_exp = 1700864000, cl_caps = [sample_cap]\<rparr>"

definition sample_signer :: "unit CapJwtSigner" where
  "sample_signer = \<lparr>js_key_pair = (), js_rng = 0\<rparr>"

lemma sample_jwt_lib_simps [simp]:
  "b64_encode (sample_jwt_lib c) = letters_encode"
  "b64_decode (sample_jwt_lib c) = letters_decode"
  "ring_from_pkcs8 (sample_jwt_lib c) der = (if der = [48, 1] then Ok () else Err ''InvalidEncoding'')"
  "ring_sign (sample_jwt_lib c) kp r m = (if m = sample_message then Ok sample_sig else Err ''unspecified'')"
  "ring_verify (sample_jwt_lib c) pk m sig \<longleftrightarrow> pk = [4, 7] \<and> m = sample_message \<and> sig = sample_sig"
  "claim_to_string (sample_jwt_lib c) c' = Ok ''{}''"
  "claim_from_slice (sample_jwt_lib c) bs = Ok c"
  by (simp_all add: sample_jwt_lib_def)

lemma letters_roundtrip: "letters_decode (letters_encode bs) = Ok bs"
proof (induction bs)
  case Nil
  then show ?case by (simp add: letters_encode_def)
next
  case (Cons b bs)
  have "unat b < 256" using unsigned_less [of b] by simp
  then have "unat b div 16 < 16" by simp
  with Cons show ?case by (simp add: letters_encode_def)
qed

lemma letters_url_safe: "list_all url_safe_char (letters_encode bs)"
proof (induction bs)
  case Nil
  then show ?case by (simp add: letters_encode_def)
next
  case (Cons b bs)
  have "unat b < 256" using unsigned_less [of b] by simp
  then have "unat b div 16 < 16" "unat b mod 16 < 16" by simp_all
  with Cons show ?case by (simp add: letters_encode_def url_safe_char_def Let_def)
qed

lemma sample_base64 [simp]: "base64_law (sample_jwt_lib c)"
  by (simp add: base64_law_def letters_roundtrip letters_url_safe)

lemma sample_signature [simp]: "signature_law (sample_jwt_lib c) kp [4, 7]"
  by (simp add: signature_law_def)

lemma sample_claim_json [simp]: "claim_json_law (sample_jwt_lib c) c ''{}''"
  by (simp add: claim_json_law_def)

lemma sample_signing_input: "as_bytes (jwt_signing_input (sample_jwt_lib c) ''{}'') = sample_message"
  by (simp add: jwt_signing_input_def sample_message_def)

lemma sample_jwt_sign:
  "jwt_sign (sample_jwt_lib c) sg c' =
     Ok (jwt_signing_input (sample_jwt_lib c) ''{}'' @ ''.'' @ letters_encode sample_sig)"
  by (simp add: jwt_sign_def sample_signing_input Let_def)

section \<open>Properties\<close>

text \<open>A token made by the CA's signer verifies under the CA's public key and yields exactly the
  claim that was signed.\<close>

theorem verify_cap_jwt_sign:
  assumes "base64_law L" and "signature_law L (js_key_pair signer) pk"
    and "claim_json_law L claim payload" and "jwt_sign L signer claim = Ok jwt"
  shows "verify_cap_jwt L jwt pk = Ok claim"
  using assms by (rule verify_signed_token)

theorem verify_cap_jwt_sign_witness:
  "\<exists>jwt. jwt_sign (sample_jwt_lib sample_claim) sample_signer sample_claim = Ok jwt \<and>
     verify_cap_jwt (sample_jwt_lib sample_claim) jwt [4, 7] = Ok sample_claim"
  using verify_cap_jwt_sign [OF sample_base64 sample_signature sample_claim_json sample_jwt_sign]
    sample_jwt_sign by blast

text \<open>What verification accepts: three parts separated by the first two dots, a signature that
  decodes and verifies over the first two parts, and a payload that decodes to the claim.\<close>

theorem verify_cap_jwt_Ok_iff:
  "verify_cap_jwt L jwt pk = Ok claim \<longleftrightarrow>
     (\<exists>h p s sig payload. jwt = h @ ''.'' @ p @ ''.'' @ s
        \<and> CHR ''.'' \<notin> set h \<and> CHR ''.'' \<notin> set p
        \<and> b64_decode L s = Ok sig \<and> ring_verify L pk (as_bytes (h @ ''.'' @ p)) sig
        \<and> b64_decode L p = Ok payload \<and> claim_from_slice L payload = Ok claim)"
  unfolding verify_cap_jwt_Ok_splitn splitn3_dot by (simp only: conj_assoc)

text \<open>The signature is checked before the payload is decoded: with a signature that does not
  verify the result is the same error whatever the payload is.\<close>

theorem verify_cap_jwt_bad_signature:
  assumes "CHR ''.'' \<notin> set h" and "CHR ''.'' \<notin> set p" and "b64_decode L s = Ok sig"
    and "\<not> ring_verify L pk (as_bytes (h @ ''.'' @ p)) sig"
  shows "verify_cap_jwt L (h @ ''.'' @ p @ ''.'' @ s) pk =
    Err (JwtError ''JWT signature verification failed'')"
  using assms by (subst verify_cap_jwt_parts) simp_all

theorem verify_cap_jwt_bad_signature_witness:
  "verify_cap_jwt (sample_jwt_lib sample_claim) (''hdr'' @ ''.'' @ ''not base64'' @ ''.'' @ ''aj'') [4, 7] =
     Err (JwtError ''JWT signature verification failed'')"
proof (rule verify_cap_jwt_bad_signature [where sig = "[9]"])
  show "\<not> ring_verify (sample_jwt_lib sample_claim) [4, 7] (as_bytes (''hdr'' @ ''.'' @ ''not base64'')) [9]"
    by (simp add: sample_message_def letters_encode_def CAP_JWT_HEADER_def)
qed simp_all

end
