(* ===== verification/Rcgen.thy ===== *)
theory Rcgen
  imports Jwt
begin

text \<open>
  The types of \<open>rcgen\<close> that the code fills in, and the functions of \<open>rcgen\<close> and \<open>rustls-pemfile\<close> it
  calls. Neither crate is part of the repository: the functions are the fields of a \<open>rcgen_lib\<close>
  record, an argument of every definition that uses them; \<open>'kp\<close>, \<open>'cert\<close> and \<open>'csr\<close> are the crate's
  own key pair, certificate and signing request. Key generation and signing take their randomness
  as an argument.
\<close>

datatype DnType = CommonName | OrganizationName

datatype KeyUsagePurpose = DigitalSignature | ContentCommitment | KeyCertSign | CrlSign

datatype IsCa = NoCa | CaUnconstrained | CaConstrained nat

datatype date = Date (d_year: int) (d_month: nat) (d_day: nat)

text \<open>Dates are ordered as the calendar orders them.\<close>

instantiation date :: linorder
begin

definition less_date :: "date \<Rightarrow> date \<Rightarrow> bool" where
  "less_date a b \<longleftrightarrow> d_year a < d_year b \<or> d_year a = d_year b \<and>
     (d_month a < d_month b \<or> d_month a = d_month b \<and> d_day a < d_day b)"

definition less_eq_date :: "date \<Rightarrow> date \<Rightarrow> bool" where
  "less_eq_date a b \<longleftrightarrow> a = b \<or> a < b"

instance
proof
  fix x y z :: date
  show "x < y \<longleftrightarrow> x \<le> y \<and> \<not> y \<le> x" "x \<le> x"
    by (auto simp: less_eq_date_def less_date_def)
  show "x \<le> y \<Longrightarrow> y \<le> z \<Longrightarrow> x \<le> z" "x \<le> y \<Longrightarrow> y \<le> x \<Longrightarrow> x = y"
    by (auto simp: less_eq_date_def less_date_def)
  show "x \<le> y \<or> y \<le> x"
    by (cases x; cases y) (auto simp: less_eq_date_def less_date_def)
qed

end

record CustomExtension =
  ce_oid :: "u64 list"
  ce_critical :: bool
  ce_content :: bytes

text \<open>The fields of \<open>CertificateParams\<close> that the code reads or writes; \<open>cp_rest\<close> stands for the others.\<close>

record CertificateParams =
  cp_distinguished_name :: "(DnType \<times> string) list"
  cp_is_ca :: IsCa
  cp_key_usages :: "KeyUsagePurpose list"
  cp_custom_extensions :: "CustomExtension list"
  cp_not_before :: date
  cp_not_after :: date
  cp_rest :: bytes

record CsrParams =
  cs_params :: CertificateParams
  cs_public_key :: bytes

record ('kp, 'cert, 'csr) rcgen_lib =
  rg_generate_for_p256 :: "nat \<Rightarrow> ('kp, string) res"
  rg_key_from_pem :: "string \<Rightarrow> ('kp, string) res"
  rg_serialize_pem :: "'kp \<Rightarrow> string"
  rg_serialize_der :: "'kp \<Rightarrow> bytes"
  rg_default_params :: CertificateParams
  rg_date_time_ymd :: "int \<Rightarrow> nat \<Rightarrow> nat \<Rightarrow> date option"
  rg_self_signed :: "CertificateParams \<Rightarrow> 'kp \<Rightarrow> nat \<Rightarrow> ('cert, string) res"
  rg_cert_pem :: "'cert \<Rightarrow> string"
  rg_cert_der :: "'cert \<Rightarrow> bytes"
  rg_params_from_ca_cert_pem :: "string \<Rightarrow> (CertificateParams, string) res"
  rg_csr_from_pem :: "string \<Rightarrow> (CsrParams, string) res"
  rg_signed_by :: "CsrParams \<Rightarrow> 'cert \<Rightarrow> 'kp \<Rightarrow> nat \<Rightarrow> ('cert, string) res"
  rg_serialize_request :: "CertificateParams \<Rightarrow> 'kp \<Rightarrow> nat \<Rightarrow> ('csr, string) res"
  rg_csr_pem :: "'csr \<Rightarrow> (string, string) res"
  pemfile_certs :: "bytes \<Rightarrow> (bytes, string) res list"

text \<open>
  \<open>rcgen::date_time_ymd\<close> panics outside the calendar of the \<open>time\<close> crate (years -9999 to 9999);
  the panic is its \<open>None\<close>.
\<close>

definition date_time_ymd :: "('kp, 'cert, 'csr) rcgen_lib \<Rightarrow> int \<Rightarrow> nat \<Rightarrow> nat \<Rightarrow> (date, 'e) res" where
  "date_time_ymd R y m d = (case rg_date_time_ymd R y m d of None \<Rightarrow> Panic | Some t \<Rightarrow> Ok t)"

definition calendar_law :: "('kp, 'cert, 'csr) rcgen_lib \<Rightarrow> bool" where
  "calendar_law R \<longleftrightarrow> (\<forall>y. rg_date_time_ymd R y 1 1 =
     (if -9999 \<le> y \<and> y \<le> 9999 then Some (Date y 1 1) else None))"

lemma date_time_ymd_Ok_iff: "date_time_ymd R y m d = Ok t \<longleftrightarrow> rg_date_time_ymd R y m d = Some t"
  by (simp add: date_time_ymd_def split: option.split)

lemma date_time_ymd_calendar:
  "calendar_law R \<Longrightarrow> -9999 \<le> y \<Longrightarrow> y \<le> 9999 \<Longrightarrow> date_time_ymd R y 1 1 = Ok (Date y 1 1)"
  by (simp add: date_time_ymd_def calendar_law_def)

section \<open>A concrete library for the witnesses\<close>

definition sample_params :: CertificateParams where
  "sample_params = \<lparr>cp_distinguished_name = [], cp_is_ca = NoCa, cp_key_usages = [],
     cp_custom_extensions = [], cp_not_before = Date 1975 1 1, cp_not_after = Date 4096 1 1, cp_rest = []\<rparr>"

definition sample_rcgen :: "(unit, string, unit) rcgen_lib" where
  "sample_rcgen = \<lparr>
     rg_generate_for_p256 = (\<lambda>_. Ok ()),
     rg_key_from_pem = (\<lambda>s. if s = ''KEY'' then Ok () else Err ''no key''),
     rg_serialize_pem = (\<lambda>_. ''KEY''), rg_serialize_der = (\<lambda>_. [48, 1]),
     rg_default_params = sample_params,
     rg_date_time_ymd = (\<lambda>y m d. if -9999 \<le> y \<and> y \<le> 9999 then Some (Date y m d) else None),
     rg_self_signed = (\<lambda>_ _ _. Ok ''ROOT''), rg_cert_pem = (\<lambda>c. c), rg_cert_der = as_bytes,
     rg_params_from_ca_cert_pem = (\<lambda>_. Ok sample_params),
     rg_csr_from_pem = (\<lambda>s. if s = ''CSR'' then Ok \<lparr>cs_params = sample_params, cs_public_key = [5]\<rparr>
        else Err ''no csr''),
     rg_signed_by = (\<lambda>_ _ _ _. Ok ''LEAF''),
     rg_serialize_request = (\<lambda>_ _ _. Ok ()), rg_csr_pem = (\<lambda>_. Ok ''CSR''),
     pemfile_certs = (\<lambda>bs. [Ok bs])\<rparr>"

lemma sample_rcgen_simps [simp]:
  "rg_generate_for_p256 sample_rcgen r = Ok ()"
  "rg_key_from_pem sample_rcgen s = (if s = ''KEY'' then Ok () else Err ''no key'')"
  "rg_serialize_pem sample_rcgen kp = ''KEY''" "rg_serialize_der sample_rcgen kp = [48, 1]"
  "rg_default_params sample_rcgen = sample_params"
  "rg_date_time_ymd sample_rcgen y m d = (if -9999 \<le> y \<and> y \<le> 9999 then Some (Date y m d) else None)"
  "rg_self_signed sample_rcgen p kp r = Ok ''ROOT''" "rg_cert_pem sample_rcgen cert = cert"
  "rg_cert_der sample_rcgen cert = as_bytes cert"
  "rg_params_from_ca_cert_pem sample_rcgen s = Ok sample_params"
  "rg_csr_from_pem sample_rcgen s = (if s = ''CSR'' then
     Ok \<lparr>cs_params = sample_params, cs_public_key = [5]\<rparr> else Err ''no csr'')"
  "rg_signed_by sample_rcgen csr cert kp r = Ok ''LEAF''"
  "rg_serialize_request sample_rcgen p kp r = Ok ()" "rg_csr_pem sample_rcgen q = Ok ''CSR''"
  "pemfile_certs sample_rcgen bs = [Ok bs]"
  by (simp_all add: sample_rcgen_def)

lemma sample_rcgen_calendar [simp]: "calendar_law sample_rcgen"
  by (simp add: calendar_law_def)

end
