(* ===== verification/Fs.thy ===== *)
theory Fs
  imports Rust_Str
begin

text \<open>
  The operations of \<open>std::fs\<close> that the two daemons call, on a file system given as a map from paths to
  nodes. Both daemons insist on running as root, so no permission check refuses them. A path is the
  list of its components below the root directory; symbolic links and the modes of directories are
  left out. Every system call takes the next entry of a fault schedule: \<open>Fault e k\<close> makes it fail with
  the error text \<open>e\<close> (a write then leaves the first \<open>k\<close> bytes behind), and past the end of the schedule
  no call fails by accident.
\<close>

type_synonym path = "string list"

record inode =
  f_data :: bytes
  f_mode :: u32
  f_uid :: u32
  f_gid :: u32

datatype node = Dir | Reg inode

datatype fault = NoFault | Fault string nat

record fs =
  fs_nodes :: "path \<rightharpoonup> node"
  fs_umask :: u32
  fs_faults :: "fault list"

definition path_display :: "path \<Rightarrow> string" where
  "path_display p = (if p = [] then ''/'' else concat (map (\<lambda>c. CHR ''/'' # c) p))"

definition path_parent :: "path \<Rightarrow> path option" where
  "path_parent p = (if p = [] then None else Some (butlast p))"

definition ENOENT :: string where "ENOENT = ''No such file or directory (os error 2)''"
definition EEXIST :: string where "EEXIST = ''File exists (os error 17)''"
definition ENOTDIR :: string where "ENOTDIR = ''Not a directory (os error 20)''"
definition EISDIR :: string where "EISDIR = ''Is a directory (os error 21)''"

section \<open>Operations\<close>

text \<open>The next entry of the schedule.\<close>

definition syscall :: "(fs, (string \<times> nat) option, string) io" where
  "syscall s = (case fs_faults s of
      [] \<Rightarrow> (Ok None, s)
    | NoFault # fl \<Rightarrow> (Ok None, s\<lparr>fs_faults := fl\<rparr>)
    | Fault e k # fl \<Rightarrow> (Ok (Some (e, k)), s\<lparr>fs_faults := fl\<rparr>))"

text \<open>A call that has no effect when it fails.\<close>

definition guarded :: "(fs, 'a, string) io \<Rightarrow> (fs, 'a, string) io" where
  "guarded m = io_bind syscall (\<lambda>fault.
     case fault of None \<Rightarrow> m | Some ek \<Rightarrow> io_lift (Err (fst ek)))"

definition set_node :: "path \<Rightarrow> node option \<Rightarrow> (fs, unit, string) io" where
  "set_node p n s = (Ok (), s\<lparr>fs_nodes := (fs_nodes s)(p := n)\<rparr>)"

definition fs_exists :: "path \<Rightarrow> fs \<Rightarrow> bool" where
  "fs_exists p s \<longleftrightarrow> fs_nodes s p \<noteq> None"

definition prefixes_of :: "path \<Rightarrow> path list" where
  "prefixes_of p = map (\<lambda>k. take k p) [0..<Suc (length p)]"

text \<open>\<open>fs::create_dir_all\<close>: every missing directory on the way is made.\<close>

definition create_dir_all :: "path \<Rightarrow> (fs, unit, string) io" where
  "create_dir_all p = guarded (\<lambda>s.
     let blocking = filter (\<lambda>q. \<exists>f. fs_nodes s q = Some (Reg f)) (prefixes_of p) in
     if blocking = []
     then (Ok (), s\<lparr>fs_nodes := (\<lambda>q. if q \<in> set (prefixes_of p) then Some Dir else fs_nodes s q)\<rparr>)
     else (Err (if hd blocking = p then EEXIST else ENOTDIR), s))"

text \<open>
  \<open>fs::write\<close>: open with \<open>O_CREAT\<close> and \<open>O_TRUNC\<close>, then write. A new file gets mode 0666 (\<open>0x1B6\<close>) without the
  umask's bits and belongs to root; an existing file keeps its mode and owner.
\<close>

definition open_for_write :: "path \<Rightarrow> (fs, inode, string) io" where
  "open_for_write p = guarded (\<lambda>s.
     case fs_nodes s p of
       Some Dir \<Rightarrow> (Err EISDIR, s)
     | Some (Reg f) \<Rightarrow> (Ok (f\<lparr>f_data := []\<rparr>), s\<lparr>fs_nodes := (fs_nodes s)(p \<mapsto> Reg (f\<lparr>f_data := []\<rparr>))\<rparr>)
     | None \<Rightarrow>
         (case fs_nodes s (butlast p) of
            Some Dir \<Rightarrow>
              (let f = \<lparr>f_data = [], f_mode = 0x1B6 AND NOT (fs_umask s), f_uid = 0, f_gid = 0\<rparr>
               in (Ok f, s\<lparr>fs_nodes := (fs_nodes s)(p \<mapsto> Reg f)\<rparr>))
          | Some (Reg _) \<Rightarrow> (Err ENOTDIR, s)
          | None \<Rightarrow> (Err ENOENT, s)))"

definition fs_write :: "path \<Rightarrow> bytes \<Rightarrow> (fs, unit, string) io" where
  "fs_write p data = io_bind (open_for_write p) (\<lambda>f. io_bind syscall (\<lambda>fault.
     case fault of
       None \<Rightarrow> set_node p (Some (Reg (f\<lparr>f_data := data\<rparr>)))
     | Some ek \<Rightarrow> io_bind (set_node p (Some (Reg (f\<lparr>f_data := take (snd ek) data\<rparr>))))
                    (\<lambda>_. io_lift (Err (fst ek)))))"

definition read_to_string :: "path \<Rightarrow> (fs, string, string) io" where
  "read_to_string p = guarded (\<lambda>s.
     case fs_nodes s p of
       None \<Rightarrow> (Err ENOENT, s)
     | Some Dir \<Rightarrow> (Err EISDIR, s)
     | Some (Reg f) \<Rightarrow> (map_err (\<lambda>_. ''stream did not contain valid UTF-8'') (from_utf8 (f_data f)), s))"

definition remove_file :: "path \<Rightarrow> (fs, unit, string) io" where
  "remove_file p = guarded (\<lambda>s.
     case fs_nodes s p of
       None \<Rightarrow> (Err ENOENT, s)
     | Some Dir \<Rightarrow> (Err EISDIR, s)
     | Some (Reg f) \<Rightarrow> set_node p None s)"

text \<open>\<open>chmod\<close> keeps the twelve permission bits (07777, \<open>0xFFF\<close>) of the mode it is given.\<close>

definition set_permissions :: "path \<Rightarrow> u32 \<Rightarrow> (fs, unit, string) io" where
  "set_permissions p mode = guarded (\<lambda>s.
     case fs_nodes s p of
       None \<Rightarrow> (Err ENOENT, s)
     | Some Dir \<Rightarrow> (Ok (), s)
     | Some (Reg f) \<Rightarrow> set_node p (Some (Reg (f\<lparr>f_mode := mode AND 0xFFF\<rparr>))) s)"

text \<open>
  \<open>chown\<close> on Linux clears the set-user-ID bit of a file (04000, \<open>0x800\<close>), and the set-group-ID bit
  (02000, \<open>0x400\<close>) where the group may execute it, also for root.
\<close>

definition chown_mode :: "u32 \<Rightarrow> u32" where
  "chown_mode m = m AND NOT (if m AND 8 = 0 then 0x800 else 0xC00)"

definition fs_chown :: "path \<Rightarrow> u32 \<Rightarrow> u32 \<Rightarrow> (fs, unit, string) io" where
  "fs_chown p uid gid = guarded (\<lambda>s.
     case fs_nodes s p of
       None \<Rightarrow> (Err ENOENT, s)
     | Some Dir \<Rightarrow> (Ok (), s)
     | Some (Reg f) \<Rightarrow>
         set_node p (Some (Reg (f\<lparr>f_uid := uid, f_gid := gid, f_mode := chown_mode (f_mode f)\<rparr>))) s)"

section \<open>Without faults\<close>

definition no_faults :: "fs \<Rightarrow> bool" where
  "no_faults s \<longleftrightarrow> fs_faults s = []"

definition data_at :: "fs \<Rightarrow> path \<Rightarrow> bytes option" where
  "data_at s p = (case fs_nodes s p of Some (Reg f) \<Rightarrow> Some (f_data f) | _ \<Rightarrow> None)"

definition mode_at :: "fs \<Rightarrow> path \<Rightarrow> u32 option" where
  "mode_at s p = (case fs_nodes s p of Some (Reg f) \<Rightarrow> Some (f_mode f) | _ \<Rightarrow> None)"

lemma no_faults_update [simp]: "no_faults (s\<lparr>fs_nodes := n\<rparr>) = no_faults s"
  by (simp add: no_faults_def)

lemma guarded_no_faults [res_simps]: "no_faults s \<Longrightarrow> guarded m s = m s"
  by (simp add: guarded_def syscall_def no_faults_def io_bind_def)

lemma guarded_Ok_imp:
  assumes "guarded m s = (Ok x, s')"
  obtains fl where "m (s\<lparr>fs_faults := fl\<rparr>) = (Ok x, s')"
proof (cases "fs_faults s")
  case Nil
  with assms have "m s = (Ok x, s')"
    by (simp add: guarded_def syscall_def io_bind_def)
  moreover from Nil have "s\<lparr>fs_faults := []\<rparr> = s" by (cases s) simp
  ultimately show thesis by (intro that [of "[]"]) simp
next
  case (Cons f fl)
  with assms have "m (s\<lparr>fs_faults := fl\<rparr>) = (Ok x, s')"
    by (cases f) (simp_all add: guarded_def syscall_def io_bind_def io_lift_def)
  then show thesis by (rule that)
qed

section \<open>What an operation leaves alone\<close>

text \<open>An operation stays inside a set of paths if it changes no node outside of it, whatever its result.\<close>

definition stays_in :: "path set \<Rightarrow> (fs, 'a, 'e) io \<Rightarrow> bool" where
  "stays_in P m \<longleftrightarrow> (\<forall>s q. q \<notin> P \<longrightarrow> fs_nodes (snd (m s)) q = fs_nodes s q)"

named_theorems stays \<open>operations that stay inside a set of paths\<close>

lemma stays_inD: "stays_in P m \<Longrightarrow> q \<notin> P \<Longrightarrow> fs_nodes (snd (m s)) q = fs_nodes s q"
  by (simp add: stays_in_def)

lemma stays_in_mono: "stays_in P m \<Longrightarrow> P \<subseteq> Q \<Longrightarrow> stays_in Q m"
  by (auto simp: stays_in_def)

lemma stays_in_bind [stays]:
  assumes "stays_in P m" and "\<And>x. stays_in P (f x)"
  shows "stays_in P (io_bind m f)"
  unfolding stays_in_def
proof (intro allI impI)
  fix s q assume "q \<notin> P"
  with assms show "fs_nodes (snd (io_bind m f s)) q = fs_nodes s q"
    by (cases "m s") (auto simp: io_bind_def stays_in_def split: res.split dest: spec [of _ s])
qed

lemma stays_in_pure [stays]:
  "stays_in P (io_ret x)" "stays_in P (io_lift r)" "stays_in P syscall"
  by (auto simp: stays_in_def io_ret_def io_lift_def syscall_def split: list.split fault.split)

lemma stays_in_map_err [stays]: "stays_in P m \<Longrightarrow> stays_in P (io_map_err g m)"
  by (simp add: stays_in_def)

lemma stays_in_ignore [stays]: "stays_in P m \<Longrightarrow> stays_in P (io_ignore m)"
  by (simp add: stays_in_def)

lemma stays_in_set_node [stays]: "p \<in> P \<Longrightarrow> stays_in P (set_node p n)"
  by (auto simp: stays_in_def set_node_def)

lemma stays_in_guarded [stays]: "stays_in P m \<Longrightarrow> stays_in P (guarded m)"
  unfolding guarded_def by (auto intro!: stays split: option.split)

lemma stays_in_match [stays]:
  assumes "stays_in P a" and "stays_in P b" and "\<And>f. stays_in P (c f)"
  shows "stays_in P (\<lambda>s. case fs_nodes s p of None \<Rightarrow> a s | Some Dir \<Rightarrow> b s | Some (Reg f) \<Rightarrow> c f s)"
  using assms by (auto simp: stays_in_def split: option.split node.split)

lemma stays_in_err [stays]: "stays_in P (\<lambda>s. (r s, s))"
  by (simp add: stays_in_def)

lemma stays_in_remove_file [stays]: "p \<in> P \<Longrightarrow> stays_in P (remove_file p)"
  unfolding remove_file_def by (auto intro!: stays)

lemma stays_in_set_permissions [stays]: "p \<in> P \<Longrightarrow> stays_in P (set_permissions p m)"
  unfolding set_permissions_def by (auto intro!: stays)

lemma stays_in_chown [stays]: "p \<in> P \<Longrightarrow> stays_in P (fs_chown p u g)"
  unfolding fs_chown_def by (auto intro!: stays)

lemma stays_in_read [stays]: "stays_in P (read_to_string p)"
  unfolding read_to_string_def by (auto intro!: stays)

lemma stays_in_open [stays]: "p \<in> P \<Longrightarrow> stays_in P (open_for_write p)"
  unfolding open_for_write_def
  by (intro stays_in_guarded) (auto simp: stays_in_def Let_def split: option.split node.split)

lemma stays_in_write [stays]: "p \<in> P \<Longrightarrow> stays_in P (fs_write p data)"
  unfolding fs_write_def by (auto intro!: stays split: option.split)

lemma stays_in_create_dir_all [stays]: "set (prefixes_of p) \<subseteq> P \<Longrightarrow> stays_in P (create_dir_all p)"
  unfolding create_dir_all_def
  by (intro stays_in_guarded) (auto simp: stays_in_def Let_def)

section \<open>What an operation did when it succeeded\<close>

text \<open>The mode and owner a written file has: kept if it existed, else the defaults for a new file.\<close>

definition written_inode :: "fs \<Rightarrow> path \<Rightarrow> bytes \<Rightarrow> inode" where
  "written_inode s p data =
     (case fs_nodes s p of
        Some (Reg f) \<Rightarrow> f\<lparr>f_data := data\<rparr>
      | _ \<Rightarrow> \<lparr>f_data = data, f_mode = 0x1B6 AND NOT (fs_umask s), f_uid = 0, f_gid = 0\<rparr>)"

definition same_but_nodes :: "fs \<Rightarrow> fs \<Rightarrow> (path \<rightharpoonup> node) \<Rightarrow> bool" where
  "same_but_nodes s s' n \<longleftrightarrow> fs_nodes s' = n \<and> fs_umask s' = fs_umask s"

lemma open_for_write_Ok:
  "open_for_write p s = (Ok f, s') \<Longrightarrow>
     f = written_inode s p [] \<and> same_but_nodes s s' ((fs_nodes s)(p \<mapsto> Reg f))"
  unfolding open_for_write_def
  by (erule guarded_Ok_imp)
    (auto simp: written_inode_def same_but_nodes_def Let_def split: option.splits node.splits)

lemma syscall_Ok: "syscall s = (Ok x, s') \<Longrightarrow> same_but_nodes s s' (fs_nodes s)"
  by (auto simp: syscall_def same_but_nodes_def split: list.splits fault.splits)

lemma written_inode_data: "(written_inode s p [])\<lparr>f_data := data\<rparr> = written_inode s p data"
  by (auto simp: written_inode_def split: option.split node.split)

lemma fs_write_Ok:
  assumes "fs_write p data s = (Ok x, s')"
  shows "same_but_nodes s s' ((fs_nodes s)(p \<mapsto> Reg (written_inode s p data)))"
proof -
  from assms obtain f s1 fault s2 where
    steps: "open_for_write p s = (Ok f, s1)" "syscall s1 = (Ok fault, s2)"
    and last: "(case fault of
        None \<Rightarrow> set_node p (Some (Reg (f\<lparr>f_data := data\<rparr>)))
      | Some ek \<Rightarrow> io_bind (set_node p (Some (Reg (f\<lparr>f_data := take (snd ek) data\<rparr>))))
                     (\<lambda>_. io_lift (Err (fst ek)))) s2 = (Ok x, s')"
    unfolding fs_write_def io_bind_Ok_iff by blast
  from last have "set_node p (Some (Reg (f\<lparr>f_data := data\<rparr>))) s2 = (Ok x, s')"
    by (cases fault) (simp_all add: io_inv)
  with steps have
    "open_for_write p s = (Ok f, s1)" "syscall s1 = (Ok fault, s2)"
    "set_node p (Some (Reg (f\<lparr>f_data := data\<rparr>))) s2 = (Ok x, s')"
    by simp_all
  then show ?thesis
    by (auto dest!: open_for_write_Ok syscall_Ok
        simp: same_but_nodes_def set_node_def written_inode_data)
qed

lemma set_permissions_Ok:
  "set_permissions p m s = (Ok x, s') \<Longrightarrow> fs_nodes s p = Some (Reg f) \<Longrightarrow>
     same_but_nodes s s' ((fs_nodes s)(p \<mapsto> Reg (f\<lparr>f_mode := m AND 0xFFF\<rparr>)))"
  unfolding set_permissions_def
  by (erule guarded_Ok_imp) (auto simp: same_but_nodes_def set_node_def)

lemma fs_chown_Ok:
  "fs_chown p u g s = (Ok x, s') \<Longrightarrow> fs_nodes s p = Some (Reg f) \<Longrightarrow>
     same_but_nodes s s'
       ((fs_nodes s)(p \<mapsto> Reg (f\<lparr>f_uid := u, f_gid := g, f_mode := chown_mode (f_mode f)\<rparr>)))"
  unfolding fs_chown_def
  by (erule guarded_Ok_imp) (auto simp: same_but_nodes_def set_node_def)

lemma create_dir_all_Ok:
  "create_dir_all p s = (Ok x, s') \<Longrightarrow>
     (\<forall>q \<in> set (prefixes_of p). \<forall>f. fs_nodes s q \<noteq> Some (Reg f)) \<and>
     same_but_nodes s s' (\<lambda>q. if q \<in> set (prefixes_of p) then Some Dir else fs_nodes s q)"
  unfolding create_dir_all_def
  by (erule guarded_Ok_imp)
    (auto simp: same_but_nodes_def Let_def filter_empty_conv split: if_splits)

lemma read_to_string_Ok:
  "read_to_string p s = (Ok x, s') \<Longrightarrow>
     \<exists>f. fs_nodes s p = Some (Reg f) \<and> from_utf8 (f_data f) = Ok x \<and> same_but_nodes s s' (fs_nodes s)"
  unfolding read_to_string_def
  by (erule guarded_Ok_imp) (auto simp: same_but_nodes_def split: option.splits node.splits)

lemma in_prefixes_iff: "q \<in> set (prefixes_of p) \<longleftrightarrow> (\<exists>k \<le> length p. q = take k p)"
  by (auto simp: prefixes_of_def less_Suc_eq_le image_iff simp del: upt_Suc)

lemma path_not_prefix_of_parent: "p \<noteq> [] \<Longrightarrow> p \<notin> set (prefixes_of (butlast p))"
proof
  assume "p \<noteq> []" "p \<in> set (prefixes_of (butlast p))"
  then obtain k where "k \<le> length (butlast p)" "p = take k (butlast p)"
    unfolding in_prefixes_iff by blast
  then have "length p = k" by (metis length_take min.absorb2)
  with \<open>k \<le> length (butlast p)\<close> have "length p \<le> length (butlast p)" by simp
  with \<open>p \<noteq> []\<close> show False by (cases "length p") simp_all
qed

lemma self_in_prefixes [simp]: "p \<in> set (prefixes_of p)"
  by (auto simp: in_prefixes_iff intro: exI [of _ "length p"])

lemma prefixes_of_butlast: "set (prefixes_of (butlast p)) \<subseteq> set (prefixes_of p)"
proof
  fix q assume "q \<in> set (prefixes_of (butlast p))"
  then obtain k where "k \<le> length p - 1" "q = take k (butlast p)"
    by (auto simp: in_prefixes_iff)
  then have "k \<le> length p" "q = take k p"
    by (simp_all add: butlast_conv_take min_def)
  then show "q \<in> set (prefixes_of p)" by (auto simp: in_prefixes_iff)
qed

section \<open>Success without faults\<close>

lemma create_dir_all_runs:
  assumes "no_faults s" and "\<forall>q \<in> set (prefixes_of p). \<forall>f. fs_nodes s q \<noteq> Some (Reg f)"
  shows "create_dir_all p s =
    (Ok (), s\<lparr>fs_nodes := (\<lambda>q. if q \<in> set (prefixes_of p) then Some Dir else fs_nodes s q)\<rparr>)"
proof -
  have "filter (\<lambda>q. \<exists>f. fs_nodes s q = Some (Reg f)) (prefixes_of p) = []"
    using assms(2) by (simp add: filter_empty_conv)
  with assms(1) show ?thesis by (simp add: create_dir_all_def res_simps)
qed

lemma fs_write_runs:
  assumes "no_faults s" and "fs_nodes s (butlast p) = Some Dir" and "fs_nodes s p \<noteq> Some Dir"
  shows "fs_write p data s =
    (Ok (), s\<lparr>fs_nodes := (fs_nodes s)(p \<mapsto> Reg (written_inode s p data))\<rparr>)"
  using assms
  by (auto simp: fs_write_def open_for_write_def guarded_def syscall_def no_faults_def io_bind_def
      set_node_def written_inode_def Let_def split: option.splits node.splits)

lemma set_permissions_runs:
  "no_faults s \<Longrightarrow> fs_nodes s p = Some (Reg f) \<Longrightarrow> set_permissions p m s =
     (Ok (), s\<lparr>fs_nodes := (fs_nodes s)(p \<mapsto> Reg (f\<lparr>f_mode := m AND 0xFFF\<rparr>))\<rparr>)"
  by (simp add: set_permissions_def res_simps set_node_def)

lemma fs_chown_runs:
  "no_faults s \<Longrightarrow> fs_nodes s p = Some (Reg f) \<Longrightarrow> fs_chown p u g s =
     (Ok (), s\<lparr>fs_nodes := (fs_nodes s)(p \<mapsto>
        Reg (f\<lparr>f_uid := u, f_gid := g, f_mode := chown_mode (f_mode f)\<rparr>))\<rparr>)"
  by (simp add: fs_chown_def res_simps set_node_def)

lemma read_to_string_runs:
  "no_faults s \<Longrightarrow> fs_nodes s p = Some (Reg f) \<Longrightarrow> from_utf8 (f_data f) = Ok x \<Longrightarrow>
     read_to_string p s = (Ok x, s)"
  by (simp add: read_to_string_def res_simps)

text \<open>A file that was read once is read again, wherever it is the same.\<close>

lemma read_to_string_again:
  "read_to_string p s = (Ok x, s') \<Longrightarrow> no_faults t \<Longrightarrow> fs_nodes t p = fs_nodes s p \<Longrightarrow>
     read_to_string p t = (Ok x, t)"
  using read_to_string_Ok [of p s x s'] by (auto intro: read_to_string_runs)

end
