(* ===== verification/Ca.thy ===== *)
theory Ca
  imports Rcgen Fs
begin

text \<open>
  The root key and certificate of the CA (\<open>ca.rs\<close>): loading them from disk, making new ones, and the
  two objects that signing needs.
\<close>

record CertificateAuthority =
  ca_key_pem :: string
  ca_cert_pem :: string
  ca_cert_der :: bytes
  ca_key_der :: bytes

definition pem_to_der :: "('kp, 'cert, 'csr) rcgen_lib \<Rightarrow> string \<Rightarrow> bytes option" where
  "pem_to_der R pem =
     (case pemfile_certs R (as_bytes pem) of
        Ok c # _ \<Rightarrow> Some c
      | _ \<Rightarrow> None)"

definition set_mode_600 :: "path \<Rightarrow> (fs, unit, CaError) io" where
  "set_mode_600 path = io_map_err Io (set_permissions path 0x180)"

definition CertificateAuthority_load ::
  "('kp, 'cert, 'csr) rcgen_lib \<Rightarrow> path \<Rightarrow> path \<Rightarrow> (fs, CertificateAuthority, CaError) io" where
  "CertificateAuthority_load R cert_path key_path =
     io_bind (io_map_err (CertNotFound (path_display cert_path)) (read_to_string cert_path)) (\<lambda>cert_pem.
     io_bind (io_map_err (KeyNotFound (path_display key_path)) (read_to_string key_path)) (\<lambda>key_pem.
     io_lift
       (rbind (map_err KeyParseFailed (rg_key_from_pem R key_pem)) (\<lambda>key_pair.
        let key_der = rg_serialize_der R key_pair in
        rbind (ok_or (CertParseFailed ''no CERTIFICATE block found'') (pem_to_der R cert_pem)) (\<lambda>cert_der.
        Ok \<lparr>ca_key_pem = key_pem, ca_cert_pem = cert_pem, ca_cert_der = cert_der, ca_key_der = key_der\<rparr>)))))"

text \<open>The certificate parameters of the root, with its fixed ten years.\<close>

definition ca_params :: "('kp, 'cert, 'csr) rcgen_lib \<Rightarrow> (CertificateParams, CaError) res" where
  "ca_params R =
     rbind (date_time_ymd R 2024 1 1) (\<lambda>not_before.
     rbind (date_time_ymd R 2034 1 1) (\<lambda>not_after.
       Ok ((rg_default_params R)\<lparr>
         cp_distinguished_name := [(CommonName, ''auth-scope-ca''), (OrganizationName, ''auth-scope'')],
         cp_is_ca := CaUnconstrained,
         cp_key_usages := [KeyCertSign, CrlSign, DigitalSignature],
         cp_not_before := not_before,
         cp_not_after := not_after\<rparr>)))"

text \<open>\<open>if path.exists() { let _ = fs::remove_file(path); }\<close>\<close>

definition remove_if_exists :: "path \<Rightarrow> (fs, unit, CaError) io" where
  "remove_if_exists p s = (if fs_exists p s then io_ignore (remove_file p) s else (Ok (), s))"

definition create_parent :: "path \<Rightarrow> (fs, unit, CaError) io" where
  "create_parent p =
     (case path_parent p of
        Some parent \<Rightarrow> io_map_err Io (create_dir_all parent)
      | None \<Rightarrow> io_ret ())"

definition ca_generate ::
  "('kp, 'cert, 'csr) rcgen_lib \<Rightarrow> nat \<Rightarrow> path \<Rightarrow> path \<Rightarrow> (fs, CertificateAuthority, CaError) io" where
  "ca_generate R rng cert_path key_path =
     io_bind (io_lift (map_err RcgenError (rg_generate_for_p256 R rng))) (\<lambda>key_pair.
     io_bind (io_lift (ca_params R)) (\<lambda>params.
     io_bind (io_lift (map_err RcgenError (rg_self_signed R params key_pair rng))) (\<lambda>cert.
     let cert_pem = rg_cert_pem R cert;
         key_pem = rg_serialize_pem R key_pair;
         cert_der = rg_cert_der R cert;
         key_der = rg_serialize_der R key_pair in
     io_bind (create_parent cert_path) (\<lambda>_.
     io_bind (create_parent key_path) (\<lambda>_.
     io_bind (io_map_err Io (fs_write cert_path (as_bytes cert_pem))) (\<lambda>_.
     io_bind (io_map_err Io (fs_write key_path (as_bytes key_pem))) (\<lambda>_.
     io_bind (set_mode_600 key_path) (\<lambda>_.
     io_ret \<lparr>ca_key_pem = key_pem, ca_cert_pem = cert_pem, ca_cert_der = cert_der,
             ca_key_der = key_der\<rparr>))))))))"

definition CertificateAuthority_init ::
  "('kp, 'cert, 'csr) rcgen_lib \<Rightarrow> nat \<Rightarrow> path \<Rightarrow> path \<Rightarrow> bool
     \<Rightarrow> (fs, CertificateAuthority, CaError) io" where
  "CertificateAuthority_init R rng cert_path key_path idempotent s =
     (if idempotent \<and> fs_exists cert_path s \<and> fs_exists key_path s
      then CertificateAuthority_load R cert_path key_path s
      else io_bind (if \<not> idempotent
                    then io_bind (remove_if_exists cert_path) (\<lambda>_. remove_if_exists key_path)
                    else io_ret ())
             (\<lambda>_. ca_generate R rng cert_path key_path) s)"

definition ca_key_pair ::
  "('kp, 'cert, 'csr) rcgen_lib \<Rightarrow> CertificateAuthority \<Rightarrow> ('kp, CaError) res" where
  "ca_key_pair R ca = map_err KeyParseFailed (rg_key_from_pem R (ca_key_pem ca))"

definition ca_rcgen_cert ::
  "('kp, 'cert, 'csr) rcgen_lib \<Rightarrow> nat \<Rightarrow> CertificateAuthority \<Rightarrow> ('cert, CaError) res" where
  "ca_rcgen_cert R rng ca =
     rbind (ca_key_pair R ca) (\<lambda>key_pair.
     rbind (map_err CertParseFailed (rg_params_from_ca_cert_pem R (ca_cert_pem ca))) (\<lambda>params.
     map_err RcgenError (rg_self_signed R params key_pair rng)))"

section \<open>What is relied on\<close>

text \<open>
  A key pair survives its PEM text, a certificate's PEM text holds its DER bytes as the only
  certificate block, and both texts are valid UTF-8.
\<close>

definition pem_law :: "('kp, 'cert, 'csr) rcgen_lib \<Rightarrow> 'kp \<Rightarrow> 'cert \<Rightarrow> bool" where
  "pem_law R kp cert \<longleftrightarrow>
     rg_key_from_pem R (rg_serialize_pem R kp) = Ok kp
     \<and> pemfile_certs R (as_bytes (rg_cert_pem R cert)) = [Ok (rg_cert_der R cert)]
     \<and> from_utf8 (as_bytes (rg_serialize_pem R kp)) = Ok (rg_serialize_pem R kp)
     \<and> from_utf8 (as_bytes (rg_cert_pem R cert)) = Ok (rg_cert_pem R cert)"

section \<open>Lemmas\<close>

lemma stays_in_load [stays]: "stays_in P (CertificateAuthority_load R c k)"
  unfolding CertificateAuthority_load_def by (intro stays)

lemma stays_in_create_parent [stays]:
  "set (prefixes_of p) \<subseteq> P \<Longrightarrow> stays_in P (create_parent p)"
  using prefixes_of_butlast [of p]
  unfolding create_parent_def path_parent_def by (auto intro!: stays)

lemma stays_in_remove_if_exists [stays]:
  assumes "p \<in> P"
  shows "stays_in P (remove_if_exists p)"
  using stays_inD [OF stays_in_remove_file [OF assms]]
  by (simp add: stays_in_def remove_if_exists_def)

lemma stays_in_init:
  assumes "set (prefixes_of c) \<union> set (prefixes_of k) \<subseteq> P"
  shows "stays_in P (CertificateAuthority_init R rng c k idem)"
proof -
  have P: "c \<in> P" "k \<in> P" "set (prefixes_of c) \<subseteq> P" "set (prefixes_of k) \<subseteq> P"
    using assms self_in_prefixes by blast+
  have gen: "stays_in P (io_bind (if \<not> idem then io_bind (remove_if_exists c) (\<lambda>_. remove_if_exists k)
                    else io_ret ()) (\<lambda>_. ca_generate R rng c k))"
    using P unfolding ca_generate_def set_mode_600_def Let_def by (auto intro!: stays)
  have load: "stays_in P (CertificateAuthority_load R c k)" by (rule stays)
  show ?thesis
    unfolding stays_in_def
  proof (intro allI impI)
    fix s q assume "q \<notin> P"
    then show "fs_nodes (snd (CertificateAuthority_init R rng c k idem s)) q = fs_nodes s q"
      using stays_inD [OF gen, of q s] stays_inD [OF load, of q s]
      by (cases "idem \<and> fs_exists c s \<and> fs_exists k s")
        (simp_all only: CertificateAuthority_init_def if_True if_False simp_thms)
  qed
qed

lemma create_parent_Ok:
  assumes "create_parent p s = (Ok x, s')" and "p \<noteq> []"
  shows "fs_umask s' = fs_umask s"
    and "fs_nodes s q = Some (Reg f) \<Longrightarrow> fs_nodes s' q = Some (Reg f)"
  using assms
  by (auto simp: create_parent_def path_parent_def io_inv same_but_nodes_def dest!: create_dir_all_Ok)

text \<open>What is on disk when a new root has been made.\<close>

lemma ca_generate_Ok:
  assumes "ca_generate R rng c k s = (Ok ca, s')" and "c \<noteq> []" "k \<noteq> []" "c \<noteq> k"
  obtains kp cert params fk fc where "rg_generate_for_p256 R rng = Ok kp"
    and "ca_params R = Ok params" and "rg_self_signed R params kp rng = Ok cert"
    and "ca = \<lparr>ca_key_pem = rg_serialize_pem R kp, ca_cert_pem = rg_cert_pem R cert,
               ca_cert_der = rg_cert_der R cert, ca_key_der = rg_serialize_der R kp\<rparr>"
    and "fs_nodes s' k = Some (Reg fk)" "f_data fk = as_bytes (rg_serialize_pem R kp)" "f_mode fk = 0x180"
    and "fs_nodes s' c = Some (Reg fc)" "f_data fc = as_bytes (rg_cert_pem R cert)"
proof -
  from assms(1) obtain kp params cert s1 s2 s3 s4 where
    lib: "rg_generate_for_p256 R rng = Ok kp" "ca_params R = Ok params"
      "rg_self_signed R params kp rng = Ok cert"
    and wc: "fs_write c (as_bytes (rg_cert_pem R cert)) s2 = (Ok (), s3)"
    and wk: "fs_write k (as_bytes (rg_serialize_pem R kp)) s3 = (Ok (), s4)"
    and chmod: "set_permissions k 0x180 s4 = (Ok (), s')"
    and ca: "ca = \<lparr>ca_key_pem = rg_serialize_pem R kp, ca_cert_pem = rg_cert_pem R cert,
               ca_cert_der = rg_cert_der R cert, ca_key_der = rg_serialize_der R kp\<rparr>"
    by (auto simp: ca_generate_def set_mode_600_def Let_def io_inv)
  let ?fk = "written_inode s3 k (as_bytes (rg_serialize_pem R kp))"
  let ?fc = "written_inode s2 c (as_bytes (rg_cert_pem R cert))"
  have data: "f_data (written_inode t p d) = d" for t p d
    by (auto simp: written_inode_def split: option.split node.split)
  from fs_write_Ok [OF wc] have 3: "fs_nodes s3 c = Some (Reg ?fc)"
    by (simp add: same_but_nodes_def)
  from fs_write_Ok [OF wk] assms(4) 3 have 4: "fs_nodes s4 k = Some (Reg ?fk)" "fs_nodes s4 c = Some (Reg ?fc)"
    by (simp_all add: same_but_nodes_def)
  from set_permissions_Ok [OF chmod 4(1)] assms(4) 4(2) have
    "fs_nodes s' k = Some (Reg (?fk\<lparr>f_mode := 0x180\<rparr>))" "fs_nodes s' c = Some (Reg ?fc)"
    by (simp_all add: same_but_nodes_def)
  moreover have "f_data (?fk\<lparr>f_mode := 0x180\<rparr>) = as_bytes (rg_serialize_pem R kp)"
    "f_mode (?fk\<lparr>f_mode := 0x180\<rparr>) = 0x180" "f_data ?fc = as_bytes (rg_cert_pem R cert)"
    by (simp_all add: data)
  ultimately show thesis using lib ca by (intro that)
qed

lemma CertificateAuthority_load_again:
  assumes "CertificateAuthority_load R c k s = (Ok ca, s')" and "no_faults t"
    and "fs_nodes t c = fs_nodes s c" and "fs_nodes t k = fs_nodes s k"
  shows "CertificateAuthority_load R c k t = (Ok ca, t)"
proof -
  from assms(1) obtain cert_pem s1 key_pem s2 where
    c: "read_to_string c s = (Ok cert_pem, s1)" and k: "read_to_string k s1 = (Ok key_pem, s2)"
    and rest: "rbind (map_err KeyParseFailed (rg_key_from_pem R key_pem)) (\<lambda>key_pair.
        let key_der = rg_serialize_der R key_pair in
        rbind (ok_or (CertParseFailed ''no CERTIFICATE block found'') (pem_to_der R cert_pem)) (\<lambda>cert_der.
        Ok \<lparr>ca_key_pem = key_pem, ca_cert_pem = cert_pem, ca_cert_der = cert_der, ca_key_der = key_der\<rparr>))
      = Ok ca"
    unfolding CertificateAuthority_load_def by (auto simp: io_inv)
  from read_to_string_Ok [OF c] have "fs_nodes t k = fs_nodes s1 k"
    using assms(4) by (auto simp: same_but_nodes_def)
  with read_to_string_again [OF c assms(2,3)] read_to_string_again [OF k assms(2)]
  have "read_to_string c t = (Ok cert_pem, t)" "read_to_string k t = (Ok key_pem, t)" by simp_all
  then show ?thesis
    unfolding CertificateAuthority_load_def using rest by (simp add: res_simps)
qed

text \<open>A root that has just been made can be loaded.\<close>

lemma init_then_load:
  assumes "CertificateAuthority_init R rng c k False s = (Ok ca, s')"
    and "\<And>kp cert params. rg_generate_for_p256 R rng = Ok kp \<Longrightarrow> ca_params R = Ok params \<Longrightarrow>
      rg_self_signed R params kp rng = Ok cert \<Longrightarrow> pem_law R kp cert"
    and "c \<noteq> []" "k \<noteq> []" "c \<noteq> k" and "no_faults s'"
  shows "CertificateAuthority_load R c k s' = (Ok ca, s')"
proof -
  from assms(1) obtain s1 where "ca_generate R rng c k s1 = (Ok ca, s')"
    by (auto simp: CertificateAuthority_init_def io_inv)
  then obtain kp cert params fk fc where
    lib: "rg_generate_for_p256 R rng = Ok kp" "ca_params R = Ok params"
      "rg_self_signed R params kp rng = Ok cert"
    and ca: "ca = \<lparr>ca_key_pem = rg_serialize_pem R kp, ca_cert_pem = rg_cert_pem R cert,
               ca_cert_der = rg_cert_der R cert, ca_key_der = rg_serialize_der R kp\<rparr>"
    and disk: "fs_nodes s' k = Some (Reg fk)" "f_data fk = as_bytes (rg_serialize_pem R kp)"
      "fs_nodes s' c = Some (Reg fc)" "f_data fc = as_bytes (rg_cert_pem R cert)"
    using assms(3-5) by (rule ca_generate_Ok)
  from assms(2) [OF lib] have "pem_law R kp cert" .
  with assms(6) disk ca show ?thesis
    by (simp add: CertificateAuthority_load_def res_simps read_to_string_runs pem_law_def pem_to_der_def)
qed

subsection \<open>Under a fault schedule\<close>

lemma guarded_NoFault:
  "fs_faults s = NoFault # fl \<Longrightarrow> guarded m s = m (s\<lparr>fs_faults := fl\<rparr>)"
  by (simp add: guarded_def syscall_def io_bind_def)

lemma guarded_Fault:
  "fs_faults s = Fault e n # fl \<Longrightarrow> guarded m s = (Err e, s\<lparr>fs_faults := fl\<rparr>)"
  by (simp add: guarded_def syscall_def io_bind_def io_lift_def)

definition dirs_ready :: "fs \<Rightarrow> path \<Rightarrow> bool" where
  "dirs_ready s p \<longleftrightarrow> p \<noteq> [] \<and> list_all (\<lambda>q. fs_nodes s q = Some Dir) (prefixes_of (butlast p))"

lemma create_parent_ready:
  assumes "fs_faults s = NoFault # fl" and "dirs_ready s p"
  shows "create_parent p s = (Ok (), s\<lparr>fs_faults := fl\<rparr>)"
proof -
  have dirs: "\<forall>q \<in> set (prefixes_of (butlast p)). fs_nodes s q = Some Dir"
    using assms(2) by (simp add: dirs_ready_def list_all_iff)
  then have "filter (\<lambda>q. \<exists>f. fs_nodes s q = Some (Reg f)) (prefixes_of (butlast p)) = []"
    by (simp add: filter_empty_conv)
  moreover have "s\<lparr>fs_faults := fl, fs_nodes := (\<lambda>q. if q \<in> set (prefixes_of (butlast p)) then Some Dir
      else fs_nodes (s\<lparr>fs_faults := fl\<rparr>) q)\<rparr> = s\<lparr>fs_faults := fl\<rparr>"
    using dirs by (intro fs.equality) auto
  ultimately show ?thesis
    using assms by (simp add: create_parent_def path_parent_def dirs_ready_def create_dir_all_def
        guarded_NoFault io_map_err_def)
qed

lemma fs_write_new:
  assumes "fs_faults s = NoFault # NoFault # fl" and "fs_nodes s (butlast p) = Some Dir"
    and "fs_nodes s p = None"
  shows "fs_write p data s = (Ok (), s\<lparr>fs_faults := fl, fs_nodes := (fs_nodes s)(p \<mapsto>
    Reg \<lparr>f_data = data, f_mode = 0x1B6 AND NOT (fs_umask s), f_uid = 0, f_gid = 0\<rparr>)\<rparr>)"
  using assms
  by (simp add: fs_write_def open_for_write_def guarded_NoFault syscall_def io_bind_def set_node_def Let_def)

section \<open>A concrete library for the witnesses\<close>

definition sample_ca :: CertificateAuthority where
  "sample_ca = \<lparr>ca_key_pem = ''KEY'', ca_cert_pem = ''ROOT'', ca_cert_der = as_bytes ''ROOT'',
     ca_key_der = [48, 1]\<rparr>"

text \<open>A file system with one directory, and one that also holds a root.\<close>

definition sample_ca_dir :: fs where
  "sample_ca_dir = \<lparr>fs_nodes = [[] \<mapsto> Dir, [''ca''] \<mapsto> Dir], fs_umask = 0x12, fs_faults = []\<rparr>"

definition sample_ca_disk :: fs where
  "sample_ca_disk = \<lparr>fs_nodes = [[] \<mapsto> Dir, [''ca''] \<mapsto> Dir,
     [''ca'', ''cert''] \<mapsto> Reg \<lparr>f_data = as_bytes ''ROOT'', f_mode = 420, f_uid = 0, f_gid = 0\<rparr>,
     [''ca'', ''key''] \<mapsto> Reg \<lparr>f_data = as_bytes ''KEY'', f_mode = 384, f_uid = 0, f_gid = 0\<rparr>],
     fs_umask = 0x12, fs_faults = []\<rparr>"

lemma sample_utf8 [simp]:
  "from_utf8 [75, 69, 89] = Ok ''KEY''" "from_utf8 [82, 79, 79, 84] = Ok ''ROOT''"
  using from_utf8_ascii [of "''KEY''"] from_utf8_ascii [of "''ROOT''"] by simp_all

lemma sample_pem_law [simp]: "pem_law sample_rcgen kp ''ROOT''"
  by (simp add: pem_law_def)

lemma sample_ca_params:
  "ca_params sample_rcgen = Ok (sample_params\<lparr>
     cp_distinguished_name := [(CommonName, ''auth-scope-ca''), (OrganizationName, ''auth-scope'')],
     cp_is_ca := CaUnconstrained, cp_key_usages := [KeyCertSign, CrlSign, DigitalSignature],
     cp_not_before := Date 2024 1 1, cp_not_after := Date 2034 1 1\<rparr>)"
  by (simp add: ca_params_def date_time_ymd_def)

lemma sample_init:
  "\<exists>s'. CertificateAuthority_init sample_rcgen 0 [''ca'', ''cert''] [''ca'', ''key''] False sample_ca_dir
     = (Ok sample_ca, s') \<and> no_faults s'"
  by (simp add: CertificateAuthority_init_def remove_if_exists_def fs_exists_def sample_ca_dir_def
      ca_generate_def sample_ca_params res_simps)
    (simp add: create_parent_def path_parent_def create_dir_all_def guarded_def
      syscall_def io_bind_def io_map_err_def io_lift_def io_ret_def prefixes_of_def upt_rec fs_write_def
      open_for_write_def set_node_def set_mode_600_def set_permissions_def Let_def sample_ca_def
      no_faults_def)

section \<open>Properties\<close>

text \<open>C32: a freshly made root is on disk in full when \<open>init\<close> returns it: loading it from the same paths
  gives back the same keys and certificate.\<close>

theorem ca_init_then_load:
  assumes "CertificateAuthority_init R rng c k False s = (Ok ca, s')"
    and "\<And>kp cert params. rg_generate_for_p256 R rng = Ok kp \<Longrightarrow> ca_params R = Ok params \<Longrightarrow>
      rg_self_signed R params kp rng = Ok cert \<Longrightarrow> pem_law R kp cert"
    and "c \<noteq> []" "k \<noteq> []" "c \<noteq> k" and "no_faults s'"
  shows "CertificateAuthority_load R c k s' = (Ok ca, s')"
  using assms by (rule init_then_load)

theorem ca_init_then_load_witness:
  "\<exists>s'. CertificateAuthority_init sample_rcgen 0 [''ca'', ''cert''] [''ca'', ''key''] False sample_ca_dir
      = (Ok sample_ca, s') \<and>
    CertificateAuthority_load sample_rcgen [''ca'', ''cert''] [''ca'', ''key''] s' = (Ok sample_ca, s')"
proof -
  obtain s' where s': "CertificateAuthority_init sample_rcgen 0 [''ca'', ''cert''] [''ca'', ''key'']
      False sample_ca_dir = (Ok sample_ca, s')" "no_faults s'"
    using sample_init by blast
  have "CertificateAuthority_load sample_rcgen [''ca'', ''cert''] [''ca'', ''key''] s' = (Ok sample_ca, s')"
    by (rule ca_init_then_load [OF s'(1) _ _ _ _ s'(2)]) auto
  with s' show ?thesis by blast
qed

text \<open>After a successful \<open>init\<close> the key file holds the root's key and is readable by its owner only
  (mode 0600), and the certificate file holds the certificate.\<close>

theorem ca_init_key_file:
  assumes "CertificateAuthority_init R rng c k False s = (Ok ca, s')"
    and "c \<noteq> []" "k \<noteq> []" "c \<noteq> k"
  shows "data_at s' k = Some (as_bytes (ca_key_pem ca)) \<and> mode_at s' k = Some 0x180 \<and>
    data_at s' c = Some (as_bytes (ca_cert_pem ca))"
proof -
  from assms(1) obtain s1 where "ca_generate R rng c k s1 = (Ok ca, s')"
    by (auto simp: CertificateAuthority_init_def io_inv)
  then show ?thesis
    using assms(2-4) by (rule ca_generate_Ok) (simp add: data_at_def mode_at_def)
qed

theorem ca_init_key_file_witness:
  "\<exists>s'. CertificateAuthority_init sample_rcgen 0 [''ca'', ''cert''] [''ca'', ''key''] False sample_ca_dir
      = (Ok sample_ca, s') \<and> mode_at s' [''ca'', ''key''] = Some 384"
proof -
  obtain s' where s': "CertificateAuthority_init sample_rcgen 0 [''ca'', ''cert''] [''ca'', ''key'']
      False sample_ca_dir = (Ok sample_ca, s')"
    using sample_init by blast
  with ca_init_key_file [OF s'] show ?thesis by auto
qed

text \<open>The idempotent \<open>init\<close> does not touch a root that is there: with both files present it loads
  them and the disk is as before.\<close>

theorem ca_init_idempotent:
  assumes "fs_exists c s" and "fs_exists k s"
  shows "CertificateAuthority_init R rng c k True s = CertificateAuthority_load R c k s \<and>
    fs_nodes (snd (CertificateAuthority_init R rng c k True s)) = fs_nodes s"
  using assms stays_inD [OF stays_in_load [of "{}" R c k], of _ s]
  by (auto simp: CertificateAuthority_init_def)

theorem ca_init_idempotent_witness:
  "fst (CertificateAuthority_init sample_rcgen 0 [''ca'', ''cert''] [''ca'', ''key''] True sample_ca_disk)
     = Ok sample_ca"
proof -
  have "fs_exists [''ca'', ''cert''] sample_ca_disk" "fs_exists [''ca'', ''key''] sample_ca_disk"
    by (simp_all add: fs_exists_def sample_ca_disk_def)
  from ca_init_idempotent [OF this, of sample_rcgen 0] show ?thesis
    by (simp add: CertificateAuthority_load_def sample_ca_disk_def read_to_string_runs no_faults_def
        res_simps pem_to_der_def sample_ca_def)
qed

text \<open>C33: the key is written first and protected afterwards: if \<open>chmod\<close> is the call that fails, \<open>init\<close>
  reports the error and leaves the new private key on disk with the default mode of the umask.\<close>

theorem ca_init_chmod_failure_exposes_key:
  assumes "rg_generate_for_p256 R rng = Ok kp" and "ca_params R = Ok params"
    and "rg_self_signed R params kp rng = Ok cert"
    and "dirs_ready s c" "dirs_ready s k" "c \<noteq> k"
    and "fs_nodes s c = None" "fs_nodes s k = None"
    and "fs_faults s = replicate 6 NoFault @ [Fault e n]"
  shows "\<exists>s'. CertificateAuthority_init R rng c k False s = (Err (Io e), s') \<and>
    fs_nodes s' k = Some (Reg \<lparr>f_data = as_bytes (rg_serialize_pem R kp),
      f_mode = 0x1B6 AND NOT (fs_umask s), f_uid = 0, f_gid = 0\<rparr>)"
proof -
  have dirs: "fs_nodes s (butlast c) = Some Dir" "fs_nodes s (butlast k) = Some Dir"
    using assms(4,5) self_in_prefixes by (auto simp: dirs_ready_def list_all_iff)
  have ready: "dirs_ready (s\<lparr>fs_faults := fl\<rparr>) p = dirs_ready s p" for fl p
    by (simp add: dirs_ready_def)
  have "c \<noteq> butlast k" using assms(7) dirs(2) by auto
  with assms dirs ready show ?thesis
    by (simp add: CertificateAuthority_init_def remove_if_exists_def fs_exists_def ca_generate_def
        res_simps numeral_eq_Suc create_parent_ready fs_write_new set_mode_600_def Let_def
        set_permissions_def guarded_Fault io_map_err_def)
qed

theorem ca_init_chmod_failure_exposes_key_witness:
  "\<exists>s'. CertificateAuthority_init sample_rcgen 0 [''ca'', ''cert''] [''ca'', ''key''] False
      (sample_ca_dir\<lparr>fs_faults := replicate 6 NoFault @ [Fault ''EIO'' 0]\<rparr>) = (Err (Io ''EIO''), s') \<and>
    mode_at s' [''ca'', ''key''] = Some 420"
proof -
  let ?s = "sample_ca_dir\<lparr>fs_faults := replicate 6 NoFault @ [Fault ''EIO'' 0]\<rparr>"
  have "dirs_ready ?s [''ca'', ''cert'']" "dirs_ready ?s [''ca'', ''key'']"
    by (simp_all add: dirs_ready_def sample_ca_dir_def prefixes_of_def upt_rec)
  from ca_init_chmod_failure_exposes_key [OF _ sample_ca_params _ this, of 0 "()" "''ROOT''"]
  show ?thesis by (auto simp: sample_ca_dir_def mode_at_def)
qed

end
