(* ===== verification/Length_Prefix.thy ===== *)
theory Length_Prefix
  imports Prelude
begin

text \<open>
  The contract of a length-prefixed encoding: a length field that can be read back in front of any
  bytes. Two parts of the program provide it, the four-byte frame header of \<open>codec.rs\<close> and the
  DER length of \<open>signing.rs\<close>; what follows from it is proved once here.
\<close>

definition lp_frame :: "(nat \<Rightarrow> bytes) \<Rightarrow> bytes \<Rightarrow> bytes" where
  "lp_frame put xs = put (length xs) @ xs"

definition lp_unframe :: "(bytes \<Rightarrow> (nat \<times> bytes) option) \<Rightarrow> bytes \<Rightarrow> (bytes \<times> bytes) option" where
  "lp_unframe get bs =
     (case get bs of
        None \<Rightarrow> None
      | Some (n, rest) \<Rightarrow> if n \<le> length rest then Some (take n rest, drop n rest) else None)"

fun lp_unframes :: "(bytes \<Rightarrow> (nat \<times> bytes) option) \<Rightarrow> nat \<Rightarrow> bytes \<Rightarrow> (bytes list \<times> bytes) option" where
  "lp_unframes get 0 bs = Some ([], bs)"
| "lp_unframes get (Suc n) bs =
     (case lp_unframe get bs of
        None \<Rightarrow> None
      | Some (x, rest) \<Rightarrow> map_option (apfst ((#) x)) (lp_unframes get n rest))"

locale length_prefix =
  fixes put_len :: "nat \<Rightarrow> bytes"
    and get_len :: "bytes \<Rightarrow> (nat \<times> bytes) option"
    and bound :: nat
  assumes get_put: "n < bound \<Longrightarrow> get_len (put_len n @ rest) = Some (n, rest)"
begin

lemma unframe_frame:
  "length xs < bound \<Longrightarrow> lp_unframe get_len (lp_frame put_len xs @ rest) = Some (xs, rest)"
  by (simp add: lp_frame_def lp_unframe_def get_put)

lemma unframe_truncated:
  "n < bound \<Longrightarrow> length xs < n \<Longrightarrow> lp_unframe get_len (put_len n @ xs) = None"
  by (simp add: lp_unframe_def get_put)

lemma frame_unambiguous:
  assumes "length xs < bound" "length ys < bound"
    and "lp_frame put_len xs @ r = lp_frame put_len ys @ r'"
  shows "xs = ys \<and> r = r'"
proof -
  have "Some (xs, r) = lp_unframe get_len (lp_frame put_len xs @ r)"
    using assms(1) by (rule unframe_frame [symmetric])
  also have "\<dots> = lp_unframe get_len (lp_frame put_len ys @ r')"
    by (rule arg_cong) (rule assms(3))
  also have "\<dots> = Some (ys, r')"
    using assms(2) by (rule unframe_frame)
  finally show ?thesis by simp
qed

lemma unframes_concat:
  "\<forall>x \<in> set xss. length x < bound \<Longrightarrow>
     lp_unframes get_len (length xss) (concat (map (lp_frame put_len) xss) @ rest) = Some (xss, rest)"
  by (induction xss) (simp_all add: unframe_frame)

end

end
