(* ===== verification/Signing.thy ===== *)
theory Signing
  imports Ca Length_Prefix
begin

text \<open>
  Signing a certificate request (\<open>signing.rs\<close>): the capability claim, the token, the leaf
  certificate's parameters with the token in the capability extension, and the DER encoding of that
  extension. The clock and the randomness of one call are a \<open>call_env\<close>.
\<close>

record call_env =
  env_now :: "(nat, string) res"
  env_rng :: nat

record SigningRequest =
  sr_csr_pem :: string
  sr_entity :: string
  sr_vm_name :: string
  sr_cid :: u32
  sr_claims :: "Capability list"
  sr_validity_days :: u32

section \<open>DER helpers\<close>

definition encode_der_length :: "bytes \<Rightarrow> nat \<Rightarrow> bytes" where
  "encode_der_length out len =
     (if len < 0x80 then out @ [of_nat len]
      else if len \<le> 0xFF then out @ [0x81] @ [of_nat len]
      else out @ [0x82] @ [of_nat (drop_bit 8 len)] @ [of_nat (len AND 0xFF)])"

definition encode_der_octet_string :: "bytes \<Rightarrow> bytes" where
  "encode_der_octet_string data = encode_der_length [0x04] (length data) @ data"

section \<open>Signing\<close>

text \<open>The addition of the validity wraps at 64 bits, as in a release build.\<close>

definition cap_claim :: "nat \<Rightarrow> SigningRequest \<Rightarrow> CapClaim" where
  "cap_claim secs req =
     (let now = (of_nat secs :: 64 word);
          validity_secs = ucast (sr_validity_days req) * 86400;
          exp = now + validity_secs
      in \<lparr>cl_iss = ''auth-scope-ca'', cl_sub = sr_entity req, cl_vm = sr_vm_name req,
          cl_cid = sr_cid req, cl_iat = now, cl_exp = exp, cl_caps = sr_claims req\<rparr>)"

definition leaf_end_year :: "u32 \<Rightarrow> u32" where
  "leaf_end_year validity_days =
     (let approx_years = max (validity_days div 365) 1 in 2024 + approx_years)"

definition leaf_csr ::
  "('kp, 'cert, 'csr) rcgen_lib \<Rightarrow> CsrParams \<Rightarrow> string \<Rightarrow> u32 \<Rightarrow> (CsrParams, CaError) res" where
  "leaf_csr R csr jwt validity_days =
     (let ext_value = encode_der_octet_string (as_bytes jwt);
          cap_ext = \<lparr>ce_oid = CAP_EXTENSION_OID, ce_critical = False, ce_content = ext_value\<rparr> in
      rbind (date_time_ymd R 2024 1 1) (\<lambda>not_before.
      rbind (date_time_ymd R (sint (leaf_end_year validity_days)) 1 1) (\<lambda>not_after.
      Ok (csr\<lparr>cs_params := (cs_params csr)\<lparr>
        cp_key_usages := [DigitalSignature, ContentCommitment],
        cp_custom_extensions := cp_custom_extensions (cs_params csr) @ [cap_ext],
        cp_not_before := not_before,
        cp_not_after := not_after\<rparr>\<rparr>))))"

definition sign_csr ::
  "'k jwt_lib \<Rightarrow> ('kp, 'cert, 'csr) rcgen_lib \<Rightarrow> call_env \<Rightarrow> CertificateAuthority \<Rightarrow> SigningRequest
     \<Rightarrow> (string, CaError) res" where
  "sign_csr L R env ca req =
     rbind (map_err JwtError (env_now env)) (\<lambda>secs.
     let claim = cap_claim secs req in
     rbind (from_pkcs8_der L (env_rng env) (ca_key_der ca)) (\<lambda>signer.
     rbind (jwt_sign L signer claim) (\<lambda>jwt.
     rbind (map_err RcgenError (rg_csr_from_pem R (sr_csr_pem req))) (\<lambda>csr_params.
     rbind (leaf_csr R csr_params jwt (sr_validity_days req)) (\<lambda>leaf_params.
     rbind (ca_rcgen_cert R (env_rng env) ca) (\<lambda>ca_cert.
     rbind (ca_key_pair R ca) (\<lambda>ca_kp.
     rbind (map_err RcgenError (rg_signed_by R leaf_params ca_cert ca_kp (env_rng env))) (\<lambda>leaf_cert.
     Ok (rg_cert_pem R leaf_cert)))))))))"

section \<open>Lemmas\<close>

lemma leaf_end_year_value: "uint (leaf_end_year days) = 2024 + max 1 (uint days div 365)"
proof -
  have bound: "uint days < 2 ^ 32" using unsigned_less [of days, where 'a = int] by simp
  have div: "uint (days div 365) = uint days div 365"
    by (simp add: uint_div_distrib)
  have max: "uint (max (days div 365) 1) = max 1 (uint days div 365)"
    by (simp add: max_def word_le_def div)
  have "uint days div 365 \<le> 4294967295 div 365"
    by (rule zdiv_mono1) (use bound in simp_all)
  then have "uint (max (days div 365) 1) + 2024 < 2 ^ 32" unfolding max by simp
  then show ?thesis
    unfolding leaf_end_year_def Let_def max [symmetric] by (simp add: uint_word_ariths)
qed

lemma leaf_end_year_signed: "sint (leaf_end_year days) = 2024 + max 1 (uint days div 365)"
proof -
  have "uint days < 2 ^ 32" using unsigned_less [of days, where 'a = int] by simp
  then have "uint (leaf_end_year days) < 2 ^ 31" unfolding leaf_end_year_value by simp
  moreover have "0 \<le> uint (leaf_end_year days)" by simp
  ultimately have "signed_take_bit 31 (uint (leaf_end_year days)) = uint (leaf_end_year days)"
    by (intro signed_take_bit_int_eq_self) linarith+
  then show ?thesis
    unfolding leaf_end_year_value [symmetric] by (simp add: sint_uint)
qed

lemma leaf_csr_Ok_iff:
  "leaf_csr R csr jwt days = Ok leaf \<longleftrightarrow>
     (\<exists>nb na. rg_date_time_ymd R 2024 1 1 = Some nb
        \<and> rg_date_time_ymd R (2024 + max 1 (uint days div 365)) 1 1 = Some na
        \<and> leaf = csr\<lparr>cs_params := (cs_params csr)\<lparr>
            cp_key_usages := [DigitalSignature, ContentCommitment],
            cp_custom_extensions := cp_custom_extensions (cs_params csr) @
              [\<lparr>ce_oid = CAP_EXTENSION_OID, ce_critical = False,
                ce_content = encode_der_octet_string (as_bytes jwt)\<rparr>],
            cp_not_before := nb, cp_not_after := na\<rparr>\<rparr>)"
  by (auto simp: leaf_csr_def Let_def rbind_Ok_iff date_time_ymd_Ok_iff leaf_end_year_signed)

text \<open>Everything that happened when a certificate was issued.\<close>

lemma sign_csr_Ok_iff:
  "sign_csr L R env ca req = Ok pem \<longleftrightarrow>
     (\<exists>secs signer jwt csr leaf ca_cert ca_kp cert.
        env_now env = Ok secs \<and> from_pkcs8_der L (env_rng env) (ca_key_der ca) = Ok signer
        \<and> jwt_sign L signer (cap_claim secs req) = Ok jwt
        \<and> rg_csr_from_pem R (sr_csr_pem req) = Ok csr
        \<and> leaf_csr R csr jwt (sr_validity_days req) = Ok leaf
        \<and> ca_rcgen_cert R (env_rng env) ca = Ok ca_cert \<and> ca_key_pair R ca = Ok ca_kp
        \<and> rg_signed_by R leaf ca_cert ca_kp (env_rng env) = Ok cert
        \<and> pem = rg_cert_pem R cert)"
  by (auto simp: sign_csr_def Let_def rbind_Ok_iff)

lemma from_pkcs8_der_Ok_iff:
  "from_pkcs8_der L rng der = Ok signer \<longleftrightarrow>
     (\<exists>kp. ring_from_pkcs8 L der = Ok kp \<and> signer = \<lparr>js_key_pair = kp, js_rng = rng\<rparr>)"
  by (auto simp: from_pkcs8_der_def rbind_Ok_iff)

section \<open>The DER length as a length prefix\<close>

definition put_der_len :: "nat \<Rightarrow> bytes" where
  "put_der_len n = encode_der_length [] n"

lemma encode_der_length_append: "encode_der_length out n = out @ put_der_len n"
  by (simp add: encode_der_length_def put_der_len_def)

lemma encode_der_octet_string_frame:
  "encode_der_octet_string data = 0x04 # lp_frame put_der_len data"
  by (simp add: encode_der_octet_string_def encode_der_length_append lp_frame_def)

lemma cap_claim_values:
  assumes "secs < 2 ^ 63 - 2 ^ 49"
  shows "cl_sub (cap_claim secs req) = sr_entity req \<and> cl_vm (cap_claim secs req) = sr_vm_name req \<and>
    cl_cid (cap_claim secs req) = sr_cid req \<and> cl_caps (cap_claim secs req) = sr_claims req \<and>
    sint (cl_iat (cap_claim secs req)) = int secs \<and>
    sint (cl_exp (cap_claim secs req)) = int secs + 86400 * uint (sr_validity_days req)"
proof -
  let ?d = "sr_validity_days req"
  have d: "unat ?d < 2 ^ 32"
    using unsigned_less [of ?d, where 'a = nat] by simp
  have signed: "sint (of_nat n :: 64 word) = int n" if "n < 2 ^ 63" for n
  proof -
    have "sint (of_nat n :: 64 word) = signed_take_bit 63 (int n)"
      by (simp add: signed_of_nat)
    also have "\<dots> = int n"
    proof (rule signed_take_bit_int_eq_self)
      have "int n < int (2 ^ 63)" using that by (simp only: of_nat_less_iff)
      then show "int n < 2 ^ 63" "- (2 ^ 63) \<le> int n" by simp_all
    qed
    finally show ?thesis .
  qed
  have "cl_exp (cap_claim secs req) = of_nat (secs + unat ?d * 86400)"
    by (simp add: cap_claim_def Let_def)
  moreover have "secs + unat ?d * 86400 < 2 ^ 63"
    using assms d by auto
  ultimately have "sint (cl_exp (cap_claim secs req)) = int (secs + unat ?d * 86400)"
    by (simp only: signed)
  then have "sint (cl_exp (cap_claim secs req)) = int secs + 86400 * uint ?d"
    unfolding uint_nat by simp
  moreover have "sint (cl_iat (cap_claim secs req)) = int secs"
    using assms by (simp add: cap_claim_def Let_def signed)
  ultimately show ?thesis by (simp add: cap_claim_def Let_def)
qed

section \<open>Properties\<close>

definition sample_request :: SigningRequest where
  "sample_request = \<lparr>sr_csr_pem = ''CSR'', sr_entity = ''peer-service'', sr_vm_name = ''peer-vm'',
     sr_cid = 10, sr_claims = [sample_cap], sr_validity_days = 10\<rparr>"

definition sample_env :: call_env where
  "sample_env = \<lparr>env_now = Ok 1700000000, env_rng = 0\<rparr>"

lemma sample_cap_claim: "cap_claim 1700000000 sample_request = sample_claim"
  by (simp add: cap_claim_def sample_request_def sample_claim_def Let_def)

lemma sample_from_pkcs8:
  "from_pkcs8_der (sample_jwt_lib c) 0 (ca_key_der sample_ca) = Ok sample_signer"
  by (simp add: from_pkcs8_der_def sample_ca_def sample_signer_def)

definition sample_token :: string where
  "sample_token = letters_encode (as_bytes CAP_JWT_HEADER) @ ''.'' @ letters_encode (as_bytes ''{}'')
     @ ''.'' @ letters_encode sample_sig"

lemma sample_jwt_sign_token: "jwt_sign (sample_jwt_lib c) sg c' = Ok sample_token"
  by (simp add: sample_jwt_sign sample_token_def jwt_signing_input_def)

lemma sample_sign_csr:
  "sign_csr (sample_jwt_lib sample_claim) sample_rcgen sample_env sample_ca sample_request = Ok ''LEAF''"
proof -
  let ?csr = "\<lparr>cs_params = sample_params, cs_public_key = [5]\<rparr>"
  obtain leaf where "leaf_csr sample_rcgen ?csr sample_token 10 = Ok leaf"
    by (simp add: leaf_csr_Ok_iff)
  moreover have "from_pkcs8_der (sample_jwt_lib sample_claim) 0 [48, 1] = Ok sample_signer"
    using sample_from_pkcs8 by (simp add: sample_ca_def)
  ultimately show ?thesis
    by (simp add: sign_csr_def sample_env_def sample_request_def sample_ca_def sample_jwt_sign_token
        ca_rcgen_cert_def ca_key_pair_def Let_def)
qed

text \<open>C29: the claim of a certificate names the entity, the VM, the CID and the capabilities of the
  request, is issued now and expires the configured number of days later; the 64-bit addition does
  not wrap for any clock before \<open>2^63 - 2^49\<close> seconds.\<close>

theorem cap_claim_fields:
  assumes "secs < 2 ^ 63 - 2 ^ 49"
  shows "cl_sub (cap_claim secs req) = sr_entity req \<and> cl_vm (cap_claim secs req) = sr_vm_name req \<and>
    cl_cid (cap_claim secs req) = sr_cid req \<and> cl_caps (cap_claim secs req) = sr_claims req \<and>
    sint (cl_iat (cap_claim secs req)) = int secs \<and>
    sint (cl_exp (cap_claim secs req)) = int secs + 86400 * uint (sr_validity_days req)"
  using assms by (rule cap_claim_values)

theorem cap_claim_fields_witness:
  "sint (cl_exp (cap_claim 1700000000 sample_request)) = 1700864000"
  using cap_claim_fields [of 1700000000 sample_request] by (simp add: sample_request_def)

text \<open>C30: the certificate itself is valid from 2024 to the first of January of a year that depends on the
  number of days only, rounded down to whole years but at least one, and not on the clock: it is a
  non-empty interval, and it is not the interval of the token inside.\<close>

theorem leaf_csr_validity:
  assumes "leaf_csr R csr jwt days = Ok leaf" and "calendar_law R"
  shows "cp_not_before (cs_params leaf) = Date 2024 1 1 \<and>
    cp_not_after (cs_params leaf) = Date (2024 + max 1 (uint days div 365)) 1 1 \<and>
    cp_not_before (cs_params leaf) < cp_not_after (cs_params leaf)"
  using assms
  by (auto simp: leaf_csr_Ok_iff calendar_law_def less_date_def split: if_splits)

theorem leaf_csr_validity_witness:
  "\<exists>leaf. leaf_csr sample_rcgen \<lparr>cs_params = sample_params, cs_public_key = [5]\<rparr> ''a.b.c'' 10 = Ok leaf \<and>
    cp_not_after (cs_params leaf) = Date 2025 1 1"
proof -
  obtain leaf where leaf:
    "leaf_csr sample_rcgen \<lparr>cs_params = sample_params, cs_public_key = [5]\<rparr> ''a.b.c'' 10 = Ok leaf"
    by (simp add: leaf_csr_Ok_iff)
  from leaf_csr_validity [OF leaf] have "cp_not_after (cs_params leaf) = Date 2025 1 1" by simp
  with leaf show ?thesis by blast
qed

text \<open>The subject of the certificate is the one the requester wrote into the CSR, whatever entity the
  policy resolved, and so is the CA flag; only the key usages, the validity and the capability
  extension, added after the CSR's own extensions, are the server's.\<close>

theorem leaf_csr_subject_from_csr:
  assumes "leaf_csr R csr jwt days = Ok leaf"
  shows "cp_distinguished_name (cs_params leaf) = cp_distinguished_name (cs_params csr) \<and>
    cp_is_ca (cs_params leaf) = cp_is_ca (cs_params csr) \<and> cs_public_key leaf = cs_public_key csr \<and>
    cp_key_usages (cs_params leaf) = [DigitalSignature, ContentCommitment] \<and>
    (\<exists>ext. cp_custom_extensions (cs_params leaf) = cp_custom_extensions (cs_params csr) @ [ext] \<and>
       ce_oid ext = CAP_EXTENSION_OID \<and> \<not> ce_critical ext \<and>
       ce_content ext = encode_der_octet_string (as_bytes jwt))"
  using assms by (auto simp: leaf_csr_Ok_iff)

theorem leaf_csr_subject_from_csr_witness:
  "\<exists>leaf. leaf_csr sample_rcgen
      \<lparr>cs_params = sample_params\<lparr>cp_distinguished_name := [(CommonName, ''someone-else'')]\<rparr>,
       cs_public_key = [5]\<rparr> ''a.b.c'' 10 = Ok leaf \<and>
    cp_distinguished_name (cs_params leaf) = [(CommonName, ''someone-else'')]"
proof -
  let ?csr = "\<lparr>cs_params = sample_params\<lparr>cp_distinguished_name := [(CommonName, ''someone-else'')]\<rparr>,
    cs_public_key = [5]\<rparr>"
  obtain leaf where leaf: "leaf_csr sample_rcgen ?csr ''a.b.c'' 10 = Ok leaf"
    by (simp add: leaf_csr_Ok_iff)
  from leaf_csr_subject_from_csr [OF leaf] leaf show ?thesis by auto
qed

text \<open>C31: a validity that reaches beyond the year 9999 is not refused: the signing call panics while it
  computes the end date, after the capability token was already signed.\<close>

theorem sign_csr_long_validity_panics:
  assumes "calendar_law R" and "unat (sr_validity_days req) \<ge> 7976 * 365"
    and "env_now env = Ok secs" and "from_pkcs8_der L (env_rng env) (ca_key_der ca) = Ok signer"
    and "jwt_sign L signer (cap_claim secs req) = Ok jwt"
    and "rg_csr_from_pem R (sr_csr_pem req) = Ok csr"
  shows "sign_csr L R env ca req = Panic"
proof -
  have "uint (sr_validity_days req) \<ge> 7976 * 365"
    using assms(2) unfolding uint_nat by linarith
  then have "uint (sr_validity_days req) div 365 \<ge> 7976" by linarith
  then have "leaf_csr R csr jwt (sr_validity_days req) = Panic"
    using assms(1)
    by (simp add: leaf_csr_def Let_def date_time_ymd_def calendar_law_def leaf_end_year_signed)
  with assms(3-6) show ?thesis by (simp add: sign_csr_def Let_def)
qed


theorem sign_csr_long_validity_panics_witness:
  "sign_csr (sample_jwt_lib sample_claim) sample_rcgen sample_env sample_ca
     (sample_request\<lparr>sr_validity_days := 2911240\<rparr>) = Panic"
proof -
  let ?req = "sample_request\<lparr>sr_validity_days := 2911240\<rparr>"
  have days: "7976 * 365 \<le> unat (sr_validity_days ?req)" by simp
  have clock: "env_now sample_env = Ok 1700000000" by (simp add: sample_env_def)
  have signer: "from_pkcs8_der (sample_jwt_lib sample_claim) (env_rng sample_env) (ca_key_der sample_ca)
      = Ok sample_signer"
    by (simp add: sample_env_def sample_from_pkcs8)
  have csr: "rg_csr_from_pem sample_rcgen (sr_csr_pem ?req) =
      Ok \<lparr>cs_params = sample_params, cs_public_key = [5]\<rparr>"
    by (simp add: sample_request_def)
  show ?thesis
    by (rule sign_csr_long_validity_panics
        [OF sample_rcgen_calendar days clock signer sample_jwt_sign csr])
qed

end
