(* ===== verification/Evaluator.thy ===== *)
theory Evaluator
  imports Signing
begin

text \<open>
  The evaluator (\<open>lib.rs\<close> of \<open>auth-scope-evaluator\<close>): it takes the capability token out of a peer's
  certificate, verifies it with the CA's public key, and answers what the peer may call or access.

  The X.509 parser is not part of the repository: an \<open>x509_lib\<close> record holds its two functions. What
  they return is kept as the fields the code reads: the public key bits and, per extension, its
  object identifier (no value when an arc does not fit 64 bits) and its value.
\<close>

record x509_extension =
  ext_oid :: "u64 list option"
  ext_value :: bytes

record x509_cert =
  xc_subject_public_key :: bytes
  xc_extensions :: "x509_extension list"

record x509_lib =
  parse_x509_pem :: "bytes \<Rightarrow> (bytes, string) res"
  parse_x509_certificate :: "bytes \<Rightarrow> (x509_cert, string) res"

datatype EvalError =
    X509Parse string
  | MissingCapabilityExtension
  | JwtVerification CaError

primrec eval_error_to_string :: "EvalError \<Rightarrow> string" where
  "eval_error_to_string (X509Parse m) = ''X.509 parse error: '' @ m"
| "eval_error_to_string MissingCapabilityExtension =
     ''Capability extension (OID 1.3.6.1.4.1.99999.1) not found in peer certificate''"
| "eval_error_to_string (JwtVerification e) = ''JWT verification failed: '' @ ca_error_to_string e"

record Evaluator =
  ev_claim :: CapClaim

section \<open>Indexing and slicing\<close>

definition index_res :: "bytes \<Rightarrow> nat \<Rightarrow> (byte, 'e) res" where
  "index_res bs i = (if i < length bs then Ok (bs ! i) else Panic)"

definition slice_res :: "bytes \<Rightarrow> u64 \<Rightarrow> u64 \<Rightarrow> (bytes, 'e) res" where
  "slice_res bs a b =
     (if a \<le> b \<and> unat b \<le> length bs then Ok (take (unat b - unat a) (drop (unat a) bs)) else Panic)"

section \<open>Taking the token out of the certificate\<close>

text \<open>The first extension with the capability OID; an OID with an oversized arc before it panics.\<close>

fun find_cap_ext :: "x509_extension list \<Rightarrow> (bytes option, EvalError) res" where
  "find_cap_ext [] = Ok None"
| "find_cap_ext (ext # exts) =
     (case ext_oid ext of
        None \<Rightarrow> Panic
      | Some oid \<Rightarrow> if oid = CAP_EXTENSION_OID then Ok (Some (ext_value ext)) else find_cap_ext exts)"

text \<open>The loop over the bytes of a long-form length; the shift drops what leaves the 64-bit word.\<close>

fun long_len_loop :: "bytes \<Rightarrow> nat \<Rightarrow> nat \<Rightarrow> u64 \<Rightarrow> (u64, 'e) res" where
  "long_len_loop bs i 0 len = Ok len"
| "long_len_loop bs i (Suc n) len =
     rbind (index_res bs i) (\<lambda>b. long_len_loop bs (Suc i) n (push_bit 8 len OR ucast b))"

definition unwrap_octet_string :: "bytes \<Rightarrow> (bytes, EvalError) res" where
  "unwrap_octet_string jwt_bytes =
     (if jwt_bytes = [] \<or> jwt_bytes ! 0 \<noteq> 0x04
      then Err (X509Parse ''Extension value is not an OCTET STRING'')
      else rbind (index_res jwt_bytes 1) (\<lambda>len_byte.
        rbind
          (if len_byte AND 0x80 = 0 then Ok (2, ucast len_byte)
           else let num_bytes = unat (len_byte AND 0x7F) in
             rbind (long_len_loop jwt_bytes 2 num_bytes 0) (\<lambda>len. Ok (2 + num_bytes, len)))
          (\<lambda>(offset, len). slice_res jwt_bytes (of_nat offset) (of_nat offset + len))))"

definition parse_cert_pem :: "x509_lib \<Rightarrow> string \<Rightarrow> string \<Rightarrow> (x509_cert, EvalError) res" where
  "parse_cert_pem X who cert_pem =
     rbind (map_err (\<lambda>e. X509Parse (who @ '' PEM parse failed: '' @ e))
       (parse_x509_pem X (as_bytes cert_pem))) (\<lambda>contents.
     map_err (\<lambda>e. X509Parse (who @ '' cert parse failed: '' @ e)) (parse_x509_certificate X contents))"

definition from_cert_pem ::
  "'k jwt_lib \<Rightarrow> x509_lib \<Rightarrow> string \<Rightarrow> string \<Rightarrow> (Evaluator, EvalError) res" where
  "from_cert_pem L X peer_cert_pem trusted_ca_pem =
     rbind (parse_cert_pem X ''CA'' trusted_ca_pem) (\<lambda>ca_cert.
     let spki = xc_subject_public_key ca_cert in
     rbind (parse_cert_pem X ''Peer'' peer_cert_pem) (\<lambda>peer_cert.
     rbind (find_cap_ext (xc_extensions peer_cert)) (\<lambda>found.
     rbind (ok_or MissingCapabilityExtension found) (\<lambda>jwt_bytes.
     rbind (unwrap_octet_string jwt_bytes) (\<lambda>inner_bytes.
     rbind (map_err (\<lambda>_. X509Parse ''JWT extension is not valid UTF-8'') (from_utf8 inner_bytes))
       (\<lambda>jwt_str.
     rbind (map_err JwtVerification (verify_cap_jwt L jwt_str spki)) (\<lambda>claim.
     Ok \<lparr>ev_claim = claim\<rparr>)))))))"

section \<open>Answering requests\<close>

fun rpc_loop :: "string \<Rightarrow> string \<Rightarrow> string \<Rightarrow> Capability list \<Rightarrow> bool" where
  "rpc_loop my_vm_name module full_method [] = False"
| "rpc_loop my_vm_name module full_method (cap # caps) =
     (if cap_target_vm cap = my_vm_name then
        if list_ex (\<lambda>m. m = module) (cap_rpc_modules cap) then True
        else if list_ex (\<lambda>m. m = full_method) (cap_rpc_methods cap) then True
        else rpc_loop my_vm_name module full_method caps
      else rpc_loop my_vm_name module full_method caps)"

definition can_call_rpc :: "Evaluator \<Rightarrow> string \<Rightarrow> string \<Rightarrow> string \<Rightarrow> bool" where
  "can_call_rpc ev my_vm_name module meth =
     (let full_method = module @ ''.'' @ meth in
      rpc_loop my_vm_name module full_method (cl_caps (ev_claim ev)))"

fun path_entries_loop :: "string \<Rightarrow> string \<Rightarrow> PathAccess list \<Rightarrow> bool" where
  "path_entries_loop p access_mode [] = False"
| "path_entries_loop p access_mode (e # es) =
     (if pa_path e = p then
        if list_ex (\<lambda>a. a = access_mode) (pa_access e) then True
        else path_entries_loop p access_mode es
      else path_entries_loop p access_mode es)"

fun path_loop :: "string \<Rightarrow> string \<Rightarrow> string \<Rightarrow> Capability list \<Rightarrow> bool" where
  "path_loop my_vm_name p access_mode [] = False"
| "path_loop my_vm_name p access_mode (cap # caps) =
     (if cap_target_vm cap = my_vm_name then
        if path_entries_loop p access_mode (cap_paths cap) then True
        else path_loop my_vm_name p access_mode caps
      else path_loop my_vm_name p access_mode caps)"

definition can_access_path :: "Evaluator \<Rightarrow> string \<Rightarrow> string \<Rightarrow> string \<Rightarrow> bool" where
  "can_access_path ev my_vm_name p access_mode =
     path_loop my_vm_name p access_mode (cl_caps (ev_claim ev))"

section \<open>The contract of the two questions\<close>

text \<open>
  Both questions scan the grants in order and stop at the first that allows the request. \<open>target\<close>
  is the VM the request is for.
\<close>

locale grant_scan =
  fixes allows :: "Capability list \<Rightarrow> 'q \<Rightarrow> bool"
    and target :: "'q \<Rightarrow> string"
  assumes allows_Nil: "\<not> allows [] q"
    and allows_Cons: "allows (c # cs) q \<longleftrightarrow> allows [c] q \<or> allows cs q"
    and allows_target: "allows [c] q \<Longrightarrow> cap_target_vm c = target q"
begin

lemma allows_iff: "allows cs q \<longleftrightarrow> (\<exists>c \<in> set cs. allows [c] q)"
proof (induction cs)
  case Nil
  show ?case by (simp add: allows_Nil)
next
  case (Cons c cs)
  then show ?case using allows_Cons [of c cs q] by simp
qed

lemma allows_cong: "set cs = set ds \<Longrightarrow> allows cs q = allows ds q"
  unfolding allows_iff [of cs] allows_iff [of ds] by simp

lemma allows_mono: "set cs \<subseteq> set ds \<Longrightarrow> allows cs q \<Longrightarrow> allows ds q"
  unfolding allows_iff [of cs] allows_iff [of ds] by blast

lemma allows_append: "allows (cs @ ds) q \<longleftrightarrow> allows cs q \<or> allows ds q"
  unfolding allows_iff [of "cs @ ds"] allows_iff [of cs] allows_iff [of ds] by auto

lemma allows_filter: "allows cs q \<longleftrightarrow> allows (filter (\<lambda>c. cap_target_vm c = target q) cs) q"
  unfolding allows_iff [of cs] allows_iff [of "filter P cs" for P] by (auto dest: allows_target)

lemma no_grant_no_access: "\<forall>c \<in> set cs. cap_target_vm c \<noteq> target q \<Longrightarrow> \<not> allows cs q"
  unfolding allows_iff [of cs] by (auto dest: allows_target)

end

definition rpc_allowed :: "Capability list \<Rightarrow> string \<times> string \<times> string \<Rightarrow> bool" where
  "rpc_allowed cs q = (case q of (vm, module, meth) \<Rightarrow>
     rpc_loop vm module (module @ ''.'' @ meth) cs)"

definition path_allowed :: "Capability list \<Rightarrow> string \<times> string \<times> string \<Rightarrow> bool" where
  "path_allowed cs q = (case q of (vm, p, access_mode) \<Rightarrow> path_loop vm p access_mode cs)"

lemma rpc_allowed_single:
  "rpc_allowed [c] (vm, module, meth) \<longleftrightarrow> cap_target_vm c = vm \<and>
     (module \<in> set (cap_rpc_modules c) \<or> module @ ''.'' @ meth \<in> set (cap_rpc_methods c))"
  by (auto simp: rpc_allowed_def list_ex_iff)

lemma path_entries_loop_iff:
  "path_entries_loop p a es \<longleftrightarrow> (\<exists>e \<in> set es. pa_path e = p \<and> a \<in> set (pa_access e))"
  by (induction es) (auto simp: list_ex_iff)

lemma path_allowed_single:
  "path_allowed [c] (vm, p, a) \<longleftrightarrow> cap_target_vm c = vm \<and>
     (\<exists>e \<in> set (cap_paths c). pa_path e = p \<and> a \<in> set (pa_access e))"
  by (auto simp: path_allowed_def path_entries_loop_iff)

interpretation rpc_grants: grant_scan rpc_allowed fst
  by unfold_locales (auto simp: rpc_allowed_def split: if_splits)

interpretation path_grants: grant_scan path_allowed fst
  by unfold_locales (auto simp: path_allowed_def split: if_splits)

lemma can_call_rpc_allowed:
  "can_call_rpc ev vm module meth = rpc_allowed (cl_caps (ev_claim ev)) (vm, module, meth)"
  by (simp add: can_call_rpc_def rpc_allowed_def Let_def)

lemma can_access_path_allowed:
  "can_access_path ev vm p a = path_allowed (cl_caps (ev_claim ev)) (vm, p, a)"
  by (simp add: can_access_path_def path_allowed_def)


section \<open>The contract of an evaluator\<close>

text \<open>
  What a service may expect of an evaluator in either language: it holds a claim, and answers both
  questions from the capabilities of that claim and from nothing else.
\<close>

locale peer_evaluator =
  fixes held :: "'e \<Rightarrow> CapClaim"
    and may_call :: "'e \<Rightarrow> string \<Rightarrow> string \<Rightarrow> string \<Rightarrow> bool"
    and may_access :: "'e \<Rightarrow> string \<Rightarrow> string \<Rightarrow> string \<Rightarrow> bool"
  assumes calls: "may_call e vm module meth \<longleftrightarrow> rpc_allowed (cl_caps (held e)) (vm, module, meth)"
    and accesses: "may_access e vm p a \<longleftrightarrow> path_allowed (cl_caps (held e)) (vm, p, a)"
begin

lemma answers_from_caps:
  assumes "set (cl_caps (held e)) = set (cl_caps (held e'))"
  shows "may_call e vm module meth = may_call e' vm module meth \<and> may_access e vm p a = may_access e' vm p a"
  using rpc_grants.allows_cong [OF assms] path_grants.allows_cong [OF assms] by (simp add: calls accesses)

lemma no_rights_elsewhere:
  assumes "\<forall>c \<in> set (cl_caps (held e)). cap_target_vm c \<noteq> vm"
  shows "\<not> may_call e vm module meth \<and> \<not> may_access e vm p a"
  using assms rpc_grants.no_grant_no_access [of "cl_caps (held e)" "(vm, module, meth)"]
    path_grants.no_grant_no_access [of "cl_caps (held e)" "(vm, p, a)"]
  by (simp add: calls accesses)

end

text \<open>Two evaluators of any languages that hold the same capabilities give the same answers.\<close>

locale evaluator_pair =
  one: peer_evaluator held may_call may_access + other: peer_evaluator held' may_call' may_access'
  for held :: "'e \<Rightarrow> CapClaim" and may_call may_access and held' :: "'f \<Rightarrow> CapClaim" and may_call' may_access'
begin

lemma same_answers:
  assumes "cl_caps (held e) = cl_caps (held' f)"
  shows "may_call e vm module meth = may_call' f vm module meth \<and> may_access e vm p a = may_access' f vm p a"
  using assms by (simp add: one.calls one.accesses other.calls other.accesses)

end

interpretation rust_eval: peer_evaluator ev_claim can_call_rpc can_access_path
  by unfold_locales (simp_all add: can_call_rpc_allowed can_access_path_allowed)

section \<open>The DER length as a length prefix\<close>

text \<open>
  What the unwrapping computes, over natural numbers: a short length is its byte, a long one the
  big-endian value of the bytes that follow, reduced to 64 bits.
\<close>

fun be_value :: "nat \<Rightarrow> bytes \<Rightarrow> nat" where
  "be_value v [] = v"
| "be_value v (b # bs) = be_value (v * 256 + unat b) bs"

fun get_der_len :: "bytes \<Rightarrow> (nat \<times> bytes) option" where
  "get_der_len [] = None"
| "get_der_len (b # bs) =
     (if b AND 0x80 = 0 then Some (unat b, bs)
      else let n = unat (b AND 0x7F) in
        if n \<le> length bs then Some (be_value 0 (take n bs) mod 2 ^ 64, drop n bs) else None)"

lemma long_len_loop_value:
  "long_len_loop bs i n (of_nat v) =
     (if i + n \<le> length bs then Ok (of_nat (be_value v (take n (drop i bs))))
      else if n = 0 then Ok (of_nat v) else Panic)"
proof (induction n arbitrary: i v)
  case 0
  show ?case by simp
next
  case (Suc n)
  show ?case
  proof (cases "i < length bs")
    case True
    then have "take (Suc n) (drop i bs) = bs ! i # take n (drop (Suc i) bs)"
      by (simp add: Cons_nth_drop_Suc [symmetric])
    with True show ?thesis
      by (simp only: long_len_loop.simps index_res_def if_True rbind.simps shift_in_byte Suc be_value.simps)
        auto
  qed (simp add: index_res_def)
qed

lemma slice_res_nat:
  assumes "length bs < 2 ^ 64" and "k \<le> length bs" and "n < 2 ^ 64"
  shows "slice_res bs (of_nat k) (of_nat k + of_nat n) =
    (if n \<le> length (drop k bs) then Ok (take n (drop k bs)) else Panic)"
proof -
  have k: "unat (of_nat k :: u64) = k" and n: "unat (of_nat n :: u64) = n"
    using assms by (simp_all add: unat_of_nat)
  have sum: "unat (of_nat k + of_nat n :: u64) = (k + n) mod 2 ^ 64"
    using k n by (simp add: unat_word_ariths)
  show ?thesis
  proof (cases "k + n < 2 ^ 64")
    case True
    with k sum assms(2) show ?thesis by (auto simp: slice_res_def word_le_nat_alt)
  next
    case False
    then have "(k + n) mod 2 ^ 64 = k + n - 2 ^ 64"
      using assms by (subst le_mod_geq) auto
    with False k sum assms have "\<not> (of_nat k :: u64) \<le> of_nat k + of_nat n"
      by (simp add: word_le_nat_alt)
    moreover have "\<not> n \<le> length bs - k" using False assms by linarith
    ultimately show ?thesis by (simp add: slice_res_def)
  qed
qed

text \<open>The slice behind a tag and a length byte.\<close>

lemma slice_res_payload:
  assumes "length bs < 2 ^ 63" and "k \<le> length bs" and "n < 2 ^ 64"
  shows "slice_res (t # b # bs) (of_nat (2 + k)) (of_nat (2 + k) + of_nat n) =
    (if n \<le> length (drop k bs) then Ok (take n (drop k bs)) else Panic)"
proof -
  have drop: "drop (2 + k) (t # b # bs) = drop k bs" by simp
  show ?thesis
    using slice_res_nat [of "t # b # bs" "2 + k" n] assms unfolding drop by simp
qed

lemma of_nat_mod_word: "(of_nat (n mod 2 ^ 64) :: u64) = of_nat n"
  by (simp add: word_of_nat_eq_iff take_bit_eq_mod)

lemma unwrap_refines_unframe:
  assumes "length rest < 2 ^ 63"
  shows "unwrap_octet_string (0x04 # rest) =
    (case lp_unframe get_der_len rest of None \<Rightarrow> Panic | Some (x, _) \<Rightarrow> Ok x)"
proof (cases rest)
  case Nil
  then show ?thesis by (simp add: unwrap_octet_string_def index_res_def lp_unframe_def)
next
  case (Cons b bs)
  let ?n = "unat (b AND 0x7F)"
  note unwrap = unwrap_octet_string_def index_res_def lp_unframe_def
  note slice = slice_res_payload [where bs = bs and t = 4 and b = b]
  consider (short) "b AND 0x80 = 0" | (long) "b AND 0x80 \<noteq> 0" "?n \<le> length bs"
    | (cut) "b AND 0x80 \<noteq> 0" "\<not> ?n \<le> length bs"
    by blast
  then show ?thesis
  proof cases
    case short
    have "unat b < 2 ^ 64" using unsigned_less [of b, where 'a = nat] by simp
    with slice [of 0 "unat b"] short Cons assms show ?thesis
      by (cases "unat b \<le> length bs") (simp_all add: unwrap)
  next
    case long
    have "long_len_loop (0x04 # rest) 2 ?n 0 =
        (Ok (of_nat (be_value 0 (take ?n bs) mod 2 ^ 64)) :: (u64, EvalError) res)"
      using long_len_loop_value [of "0x04 # rest" 2 ?n 0] long Cons unfolding of_nat_mod_word by simp
    with slice [of ?n "be_value 0 (take ?n bs) mod 2 ^ 64"] long Cons assms show ?thesis
      by (cases "be_value 0 (take ?n bs) mod 2 ^ 64 \<le> length (drop ?n bs)")
        (simp_all add: unwrap Let_def del: add_2_eq_Suc)
  next
    case cut
    have "?n \<noteq> 0" using cut(2) by (intro notI) simp
    then have "long_len_loop (0x04 # rest) 2 ?n 0 = (Panic :: (u64, EvalError) res)"
      using cut long_len_loop_value [of "0x04 # rest" 2 ?n 0] Cons by simp
    with cut Cons show ?thesis by (simp add: unwrap Let_def)
  qed
qed

lemma short_form_byte:
  assumes "n < 0x80"
  shows "(of_nat n :: byte) AND 0x80 = 0"
proof -
  have "\<not> bit (of_nat n :: byte) 7"
    unfolding bit_of_nat_iff using assms by (simp add: bit_iff_odd)
  then show ?thesis
    using and_exp_eq_0_iff_not_bit [of "of_nat n :: byte" 7] by simp
qed

text \<open>
  The encoder writes the last 16 bits of the length, so what the evaluator reads back is the length
  modulo 65536.
\<close>

lemma get_put_der_len: "get_der_len (put_der_len n @ rest) = Some (n mod 65536, rest)"
proof -
  have mask: "n AND 0xFF = n mod 256"
    using take_bit_eq_mask [of 8 n] by (simp add: mask_eq_exp_minus_1 take_bit_eq_mod)
  have two: "n div 256 mod 256 * 256 + n mod 256 = n mod 65536"
    using mod_mult2_eq [of n 256 256] by (simp add: mult.commute)
  consider "n < 0x80" | "0x80 \<le> n" "n \<le> 0xFF" | "0xFF < n" by linarith
  then show ?thesis
  proof cases
    case 1
    then show ?thesis
      by (simp add: put_der_len_def encode_der_length_def short_form_byte unat_of_nat)
  next
    case 2
    then show ?thesis
      by (simp add: put_der_len_def encode_der_length_def unat_of_nat)
  next
    case 3
    have "take 2 (a # b # rest) = [a, b]" "drop 2 (a # b # rest) = rest" for a b
      by (simp_all add: numeral_2_eq_2)
    with 3 show ?thesis
      by (simp add: put_der_len_def encode_der_length_def unat_of_nat mask drop_bit_eq_div two)
  qed
qed

interpretation der_len: length_prefix put_der_len get_der_len 65536
  by unfold_locales (simp add: get_put_der_len)

lemma unwrap_encode_octet_string:
  assumes "length data < 2 ^ 62"
  shows "unwrap_octet_string (encode_der_octet_string data) = Ok (take (length data mod 65536) data)"
proof -
  have "length (put_der_len (length data)) \<le> 3"
    by (simp add: put_der_len_def encode_der_length_def)
  with assms have "length (lp_frame put_der_len data) < 2 ^ 63"
    by (simp add: lp_frame_def)
  then show ?thesis
    unfolding encode_der_octet_string_frame
    by (subst unwrap_refines_unframe) (simp_all add: lp_unframe_def lp_frame_def get_put_der_len)
qed


section \<open>What is relied on\<close>

text \<open>
  The parser reads back the certificate \<open>cert\<close> made from \<open>leaf\<close>: standard extensions first, none with
  the capability OID, then the custom ones in the order they were given.
\<close>

definition custom_as_parsed :: "CustomExtension \<Rightarrow> x509_extension" where
  "custom_as_parsed e = \<lparr>ext_oid = Some (ce_oid e), ext_value = ce_content e\<rparr>"

definition not_cap_ext :: "x509_extension \<Rightarrow> bool" where
  "not_cap_ext e \<longleftrightarrow> ext_oid e \<noteq> None \<and> ext_oid e \<noteq> Some CAP_EXTENSION_OID"

definition x509_law ::
  "x509_lib \<Rightarrow> ('kp, 'cert, 'csr) rcgen_lib \<Rightarrow> CsrParams \<Rightarrow> 'cert \<Rightarrow> bool" where
  "x509_law X R leaf cert \<longleftrightarrow> (\<exists>der xc std.
     parse_x509_pem X (as_bytes (rg_cert_pem R cert)) = Ok der \<and> parse_x509_certificate X der = Ok xc
     \<and> xc_extensions xc = std @ map custom_as_parsed (cp_custom_extensions (cs_params leaf))
     \<and> list_all not_cap_ext std)"

text \<open>The same for every certificate that signing can make of a request's \<open>csr\<close> with the token \<open>jwt\<close>.\<close>

definition parses_issued ::
  "x509_lib \<Rightarrow> ('kp, 'cert, 'csr) rcgen_lib \<Rightarrow> call_env \<Rightarrow> CsrParams \<Rightarrow> string \<Rightarrow> u32 \<Rightarrow> bool" where
  "parses_issued X R env csr jwt days \<longleftrightarrow> (\<forall>leaf issuer kp cert.
     leaf_csr R csr jwt days = Ok leaf \<longrightarrow> rg_signed_by R leaf issuer kp (env_rng env) = Ok cert \<longrightarrow>
     x509_law X R leaf cert)"

text \<open>The certificate the peers trust parses, and \<open>pk\<close> is its public key.\<close>

definition trusted_key :: "x509_lib \<Rightarrow> string \<Rightarrow> bytes \<Rightarrow> bool" where
  "trusted_key X pem pk \<longleftrightarrow>
     (\<exists>xc. parse_cert_pem X ''CA'' pem = Ok xc \<and> xc_subject_public_key xc = pk)"

section \<open>Lemmas\<close>

lemma find_cap_ext_skip:
  "list_all not_cap_ext std \<Longrightarrow> find_cap_ext (std @ exts) = find_cap_ext exts"
  by (induction std) (auto simp: not_cap_ext_def split: option.splits)

lemma custom_not_cap_ext: "not_cap_ext (custom_as_parsed e) \<longleftrightarrow> ce_oid e \<noteq> CAP_EXTENSION_OID"
  by (simp add: not_cap_ext_def custom_as_parsed_def)

text \<open>The check of a token: everything after the certificates have been parsed.\<close>

definition check_token :: "'k jwt_lib \<Rightarrow> bytes \<Rightarrow> bytes \<Rightarrow> (Evaluator, EvalError) res" where
  "check_token L pk v =
     rbind (unwrap_octet_string v) (\<lambda>inner_bytes.
     rbind (map_err (\<lambda>_. X509Parse ''JWT extension is not valid UTF-8'') (from_utf8 inner_bytes))
       (\<lambda>jwt_str.
     rbind (map_err JwtVerification (verify_cap_jwt L jwt_str pk)) (\<lambda>claim.
     Ok \<lparr>ev_claim = claim\<rparr>)))"

lemma from_cert_pem_check_token:
  assumes "trusted_key X ca_pem pk" and "parse_cert_pem X ''Peer'' peer_pem = Ok peer"
    and "find_cap_ext (xc_extensions peer) = Ok (Some v)"
  shows "from_cert_pem L X peer_pem ca_pem = check_token L pk v"
  using assms by (auto simp: from_cert_pem_def trusted_key_def check_token_def Let_def)

lemma from_cert_pem_Ok_iff:
  "from_cert_pem L X peer_pem ca_pem = Ok ev \<longleftrightarrow>
     (\<exists>pk peer v inner jwt. trusted_key X ca_pem pk \<and> parse_cert_pem X ''Peer'' peer_pem = Ok peer
        \<and> find_cap_ext (xc_extensions peer) = Ok (Some v) \<and> unwrap_octet_string v = Ok inner
        \<and> from_utf8 inner = Ok jwt \<and> verify_cap_jwt L jwt pk = Ok (ev_claim ev))"
  (is "?l \<longleftrightarrow> ?r")
proof
  show "?l \<Longrightarrow> ?r"
    unfolding from_cert_pem_def trusted_key_def Let_def by (auto simp: rbind_Ok_iff)
  show "?r \<Longrightarrow> ?l"
    by (auto simp: from_cert_pem_check_token check_token_def)
qed

text \<open>A short token is read back through the contract of the DER length.\<close>

lemma jwt_bytes_short:
  assumes "length jwt < 65536"
  shows "unwrap_octet_string (encode_der_octet_string (as_bytes jwt)) = Ok (as_bytes jwt)"
proof -
  have "length (lp_frame put_der_len (as_bytes jwt)) < 2 ^ 63"
    using assms by (simp add: lp_frame_def put_der_len_def encode_der_length_def)
  moreover have "lp_unframe get_der_len (lp_frame put_der_len (as_bytes jwt)) = Some (as_bytes jwt, [])"
    using der_len.unframe_frame [of "as_bytes jwt" "[]"] assms by simp
  ultimately show ?thesis
    unfolding encode_der_octet_string_frame by (simp add: unwrap_refines_unframe)
qed

lemma check_token_issued:
  assumes "base64_law L" and "signature_law L (js_key_pair signer) pk"
    and "claim_json_law L claim payload" and "jwt_sign L signer claim = Ok jwt"
    and "length jwt < 65536"
  shows "check_token L pk (encode_der_octet_string (as_bytes jwt)) = Ok \<lparr>ev_claim = claim\<rparr>"
  using assms verify_signed_token [OF assms(1-4)]
  by (simp add: check_token_def jwt_bytes_short jwt_sign_ascii)

text \<open>The certificate that signing returns carries the token, and the evaluator finds it.\<close>

lemma issued_certificate_evaluates:
  assumes issued: "sign_csr L R env ca req = Ok pem" "env_now env = Ok secs"
      "from_pkcs8_der L (env_rng env) (ca_key_der ca) = Ok signer"
      "jwt_sign L signer (cap_claim secs req) = Ok jwt"
      "rg_csr_from_pem R (sr_csr_pem req) = Ok csr"
    and laws: "base64_law L" "claim_json_law L (cap_claim secs req) payload"
      "signature_law L (js_key_pair signer) pk" "trusted_key X ca_pem pk"
    and parsed: "parses_issued X R env csr jwt (sr_validity_days req)"
    and csr: "\<forall>e \<in> set (cp_custom_extensions (cs_params csr)). ce_oid e \<noteq> CAP_EXTENSION_OID"
    and small: "length jwt < 65536"
  shows "from_cert_pem L X pem ca_pem = Ok \<lparr>ev_claim = cap_claim secs req\<rparr>"
proof -
  from issued obtain leaf issuer kp cert where
    leaf: "leaf_csr R csr jwt (sr_validity_days req) = Ok leaf"
    and cert: "rg_signed_by R leaf issuer kp (env_rng env) = Ok cert" "pem = rg_cert_pem R cert"
    by (auto simp: sign_csr_Ok_iff)
  from leaf obtain ext where
    exts: "cp_custom_extensions (cs_params leaf) = cp_custom_extensions (cs_params csr) @ [ext]"
    and ext: "ce_oid ext = CAP_EXTENSION_OID" "ce_content ext = encode_der_octet_string (as_bytes jwt)"
    by (auto simp: leaf_csr_Ok_iff)
  from parsed leaf cert(1) have "x509_law X R leaf cert" by (simp add: parses_issued_def)
  then obtain xc std where
    peer: "parse_cert_pem X ''Peer'' pem = Ok xc" and std: "list_all not_cap_ext std"
    and xc: "xc_extensions xc = std @ map custom_as_parsed (cp_custom_extensions (cs_params leaf))"
    by (auto simp: x509_law_def parse_cert_pem_def cert(2))
  from csr have "list_all not_cap_ext (map custom_as_parsed (cp_custom_extensions (cs_params csr)))"
    by (auto simp: list_all_iff custom_not_cap_ext)
  with std exts xc have "find_cap_ext (xc_extensions xc) = find_cap_ext [custom_as_parsed ext]"
    by (simp add: find_cap_ext_skip)
  with ext have "find_cap_ext (xc_extensions xc) =
      Ok (Some (encode_der_octet_string (as_bytes jwt)))"
    by (simp add: custom_as_parsed_def)
  from from_cert_pem_check_token [OF laws(4) peer this, of L] show ?thesis
    using check_token_issued [OF laws(1,3,2) issued(4) small] by simp
qed


section \<open>A concrete parser for the witnesses\<close>

text \<open>It knows two certificates: the root, and a leaf that carries the token of \<^const>\<open>sample_claim\<close>.\<close>

definition sample_root_cert :: x509_cert where
  "sample_root_cert = \<lparr>xc_subject_public_key = [4, 7], xc_extensions = []\<rparr>"

definition sample_leaf_cert :: "bytes \<Rightarrow> bytes \<Rightarrow> x509_cert" where
  "sample_leaf_cert pk v = \<lparr>xc_subject_public_key = pk,
     xc_extensions = [\<lparr>ext_oid = Some [2, 5, 29, 15], ext_value = [3, 2, 6, 192]\<rparr>,
       \<lparr>ext_oid = Some CAP_EXTENSION_OID, ext_value = v\<rparr>]\<rparr>"

definition sample_x509 :: x509_lib where
  "sample_x509 = \<lparr>parse_x509_pem = Ok,
     parse_x509_certificate = (\<lambda>der.
       if der = as_bytes ''ROOT'' then Ok sample_root_cert
       else if der = as_bytes ''LEAF''
         then Ok (sample_leaf_cert [5] (encode_der_octet_string (as_bytes sample_token)))
       else if der = as_bytes ''COPY''
         then Ok (sample_leaf_cert [6] (encode_der_octet_string (as_bytes sample_token)))
       else if der = as_bytes ''BAD'' then Ok (sample_leaf_cert [6] [4])
       else Err ''no certificate'')\<rparr>"

lemma sample_x509_parse:
  "parse_cert_pem sample_x509 who ''ROOT'' = Ok sample_root_cert"
  "parse_cert_pem sample_x509 who ''LEAF'' =
     Ok (sample_leaf_cert [5] (encode_der_octet_string (as_bytes sample_token)))"
  "parse_cert_pem sample_x509 who ''COPY'' =
     Ok (sample_leaf_cert [6] (encode_der_octet_string (as_bytes sample_token)))"
  "parse_cert_pem sample_x509 who ''BAD'' = Ok (sample_leaf_cert [6] [4])"
  by (simp_all add: parse_cert_pem_def sample_x509_def)

lemma sample_find: "find_cap_ext (xc_extensions (sample_leaf_cert pk v)) = Ok (Some v)"
  by (simp add: sample_leaf_cert_def CAP_EXTENSION_OID_def)

lemma sample_trusted: "trusted_key sample_x509 ''ROOT'' [4, 7]"
  by (simp add: trusted_key_def sample_x509_parse sample_root_cert_def)

lemma length_letters_encode: "length (letters_encode bs) = 2 * length bs"
  by (induction bs) (simp_all add: letters_encode_def)

lemma length_sample_token: "length sample_token < 65536"
  by (simp add: sample_token_def length_letters_encode CAP_JWT_HEADER_def sample_sig_def)

lemma sample_x509_law:
  assumes "leaf_csr sample_rcgen \<lparr>cs_params = sample_params, cs_public_key = [5]\<rparr> sample_token days = Ok leaf"
  shows "x509_law sample_x509 sample_rcgen leaf ''LEAF''"
proof -
  have "sample_leaf_cert [5] (encode_der_octet_string (as_bytes sample_token)) =
      \<lparr>xc_subject_public_key = [5], xc_extensions =
         [\<lparr>ext_oid = Some [2, 5, 29, 15], ext_value = [3, 2, 6, 192]\<rparr>] @
         map custom_as_parsed (cp_custom_extensions (cs_params leaf))\<rparr>"
    using assms by (auto simp: leaf_csr_Ok_iff sample_leaf_cert_def custom_as_parsed_def sample_params_def
        split: if_splits)
  then show ?thesis
    unfolding x509_law_def
    by (intro exI [of _ "as_bytes ''LEAF''"]
        exI [of _ "sample_leaf_cert [5] (encode_der_octet_string (as_bytes sample_token))"]
        exI [of _ "[\<lparr>ext_oid = Some [2, 5, 29, 15], ext_value = [3, 2, 6, 192]\<rparr>]"])
      (simp_all add: sample_x509_def not_cap_ext_def CAP_EXTENSION_OID_def)
qed

lemma sample_parses_issued:
  "parses_issued sample_x509 sample_rcgen env \<lparr>cs_params = sample_params, cs_public_key = [5]\<rparr> sample_token days"
  using sample_x509_law by (simp add: parses_issued_def)

text \<open>The issuance of the sample certificate.\<close>

lemma sample_issued:
  "env_now sample_env = Ok 1700000000"
  "from_pkcs8_der (sample_jwt_lib c) (env_rng sample_env) (ca_key_der sample_ca) = Ok sample_signer"
  "rg_csr_from_pem sample_rcgen (sr_csr_pem sample_request) = Ok \<lparr>cs_params = sample_params, cs_public_key = [5]\<rparr>"
  "claim_json_law (sample_jwt_lib sample_claim) (cap_claim 1700000000 sample_request) ''{}''"
  "\<forall>e \<in> set (cp_custom_extensions (cs_params \<lparr>cs_params = sample_params, cs_public_key = [5]\<rparr>)).
     ce_oid e \<noteq> CAP_EXTENSION_OID"
  using sample_from_pkcs8 sample_claim_json
  by (simp_all add: sample_env_def sample_request_def sample_params_def flip: sample_cap_claim)

lemma sample_evaluates:
  assumes "parse_cert_pem sample_x509 ''Peer'' pem =
      Ok (sample_leaf_cert pk (encode_der_octet_string (as_bytes sample_token)))"
  shows "from_cert_pem (sample_jwt_lib sample_claim) sample_x509 pem ''ROOT'' = Ok \<lparr>ev_claim = sample_claim\<rparr>"
  unfolding from_cert_pem_check_token [OF sample_trusted assms sample_find]
  by (rule check_token_issued [OF sample_base64 sample_signature sample_claim_json
        sample_jwt_sign_token length_sample_token])


section \<open>Properties\<close>

text \<open>A certificate that the CA issued yields, at an evaluator that trusts the CA's certificate,
  exactly the claim that was signed: through the token, its OCTET STRING wrapping, the certificate,
  and all the way back, for every token below 65536 bytes.\<close>

theorem issued_certificate_accepted:
  assumes "sign_csr L R env ca req = Ok pem" "env_now env = Ok secs"
    and "from_pkcs8_der L (env_rng env) (ca_key_der ca) = Ok signer"
    and "jwt_sign L signer (cap_claim secs req) = Ok jwt"
    and "rg_csr_from_pem R (sr_csr_pem req) = Ok csr"
    and "base64_law L" "claim_json_law L (cap_claim secs req) payload"
    and "signature_law L (js_key_pair signer) pk" "trusted_key X ca_pem pk"
    and "parses_issued X R env csr jwt (sr_validity_days req)"
    and "\<forall>e \<in> set (cp_custom_extensions (cs_params csr)). ce_oid e \<noteq> CAP_EXTENSION_OID"
    and "length jwt < 65536"
  shows "from_cert_pem L X pem ca_pem = Ok \<lparr>ev_claim = cap_claim secs req\<rparr>"
  using assms by (rule issued_certificate_evaluates)

theorem issued_certificate_accepted_witness:
  "from_cert_pem (sample_jwt_lib sample_claim) sample_x509 ''LEAF'' ''ROOT'' = Ok \<lparr>ev_claim = sample_claim\<rparr>"
  using issued_certificate_accepted [OF sample_sign_csr sample_issued(1,2) sample_jwt_sign_token sample_issued(3)
      sample_base64 sample_issued(4) sample_signature sample_trusted sample_parses_issued sample_issued(5)
      length_sample_token]
  by (simp add: sample_cap_claim)

text \<open>C24: the DER wrapping loses the upper bits of a length: what the evaluator unwraps is the first
  \<open>n mod 65536\<close> of the \<open>n\<close> bytes, the whole token exactly when it is shorter than 65536 bytes.\<close>

theorem octet_string_roundtrip:
  assumes "length data < 2 ^ 62"
  shows "unwrap_octet_string (encode_der_octet_string data) = Ok (take (length data mod 65536) data) \<and>
    (unwrap_octet_string (encode_der_octet_string data) = Ok data \<longleftrightarrow> length data < 65536)"
proof -
  have "take (n mod 65536) data = data \<longleftrightarrow> n < 65536" if "n = length data" for n
  proof
    assume "take (n mod 65536) data = data"
    then have "length (take (n mod 65536) data) = n" using that by simp
    then have "n \<le> n mod 65536" by simp
    moreover have "n mod 65536 < 65536" by simp
    ultimately show "n < 65536" by linarith
  qed (simp add: that)
  then show ?thesis using unwrap_encode_octet_string [OF assms] by simp
qed

theorem octet_string_roundtrip_witness:
  "unwrap_octet_string (encode_der_octet_string (replicate 65537 0)) = Ok [0]"
  using octet_string_roundtrip [of "replicate 65537 0"] by simp

text \<open>The unwrapping is the length-prefix contract on the bytes after the tag: it returns the
  contents when the length can be read and they are all there, and panics in every other case.\<close>

theorem unwrap_octet_string_spec:
  assumes "length v < 2 ^ 63"
  shows "unwrap_octet_string v =
    (case v of [] \<Rightarrow> Err (X509Parse ''Extension value is not an OCTET STRING'')
     | tag # rest \<Rightarrow>
         if tag \<noteq> 0x04 then Err (X509Parse ''Extension value is not an OCTET STRING'')
         else (case lp_unframe get_der_len rest of None \<Rightarrow> Panic | Some (x, _) \<Rightarrow> Ok x))"
proof (cases v)
  case Nil
  then show ?thesis by (simp add: unwrap_octet_string_def)
next
  case (Cons tag rest)
  show ?thesis
  proof (cases "tag = 0x04")
    case True
    with assms Cons unwrap_refines_unframe [of rest] show ?thesis by simp
  next
    case False
    with Cons show ?thesis by (simp add: unwrap_octet_string_def)
  qed
qed

theorem unwrap_octet_string_spec_witness:
  "unwrap_octet_string [4, 0x81, 2, 10, 11, 12] = Ok [10, 11]"
proof -
  have "take 2 (a # b # bs) = [a, b]" "drop 2 (a # b # bs) = bs" for a b and bs :: bytes
    by (simp_all add: numeral_2_eq_2)
  with unwrap_octet_string_spec [of "[4, 0x81, 2, 10, 11, 12]"] show ?thesis
    by (simp add: lp_unframe_def)
qed

text \<open>C25: a certificate with a truncated capability value brings the evaluator down: it panics before
  any signature is looked at, whoever made the certificate.\<close>

theorem malformed_extension_panics:
  assumes "trusted_key X ca_pem pk" and "parse_cert_pem X ''Peer'' peer_pem = Ok peer"
    and "find_cap_ext (xc_extensions peer) = Ok (Some (0x04 # rest))"
    and "length rest < 2 ^ 63" and "lp_unframe get_der_len rest = None"
  shows "from_cert_pem L X peer_pem ca_pem = Panic"
  using from_cert_pem_check_token [OF assms(1-3)] unwrap_refines_unframe [OF assms(4)] assms(5)
  by (simp add: check_token_def)

theorem malformed_extension_panics_witness:
  "from_cert_pem (sample_jwt_lib sample_claim) sample_x509 ''BAD'' ''ROOT'' = Panic"
  by (rule malformed_extension_panics [OF sample_trusted sample_x509_parse(4) sample_find])
    (simp_all add: lp_unframe_def)

text \<open>The token is not bound to the certificate that carries it: two peer certificates with the same
  capability value get the same answer, whatever keys they certify and whoever signed them.\<close>

theorem token_not_bound_to_certificate:
  assumes "parse_cert_pem X ''Peer'' pem1 = Ok peer1" and "parse_cert_pem X ''Peer'' pem2 = Ok peer2"
    and "find_cap_ext (xc_extensions peer1) = find_cap_ext (xc_extensions peer2)"
  shows "from_cert_pem L X pem1 ca_pem = from_cert_pem L X pem2 ca_pem"
  using assms by (simp add: from_cert_pem_def)

theorem token_not_bound_to_certificate_witness:
  "from_cert_pem (sample_jwt_lib sample_claim) sample_x509 ''COPY'' ''ROOT'' = Ok \<lparr>ev_claim = sample_claim\<rparr> \<and>
    (\<forall>v. xc_subject_public_key (sample_leaf_cert [5] v) \<noteq> xc_subject_public_key (sample_leaf_cert [6] v))"
proof -
  have "find_cap_ext (xc_extensions (sample_leaf_cert [6] v)) = find_cap_ext (xc_extensions (sample_leaf_cert [5] v))"
    for v by (simp add: sample_find)
  from token_not_bound_to_certificate [OF sample_x509_parse(3,2) this, of "sample_jwt_lib sample_claim" "''ROOT''"]
  show ?thesis
    using sample_evaluates [OF sample_x509_parse(2)] by (simp add: sample_leaf_cert_def)
qed

text \<open>C26: a call is allowed exactly when some capability for this VM lists the module or the dotted
  method name.\<close>

theorem can_call_rpc_iff:
  "can_call_rpc ev vm module meth \<longleftrightarrow>
     (\<exists>c \<in> set (cl_caps (ev_claim ev)). cap_target_vm c = vm \<and>
        (module \<in> set (cap_rpc_modules c) \<or> module @ ''.'' @ meth \<in> set (cap_rpc_methods c)))"
  unfolding can_call_rpc_allowed rpc_grants.allows_iff [of "cl_caps (ev_claim ev)"] rpc_allowed_single by simp

text \<open>C27: an access is allowed exactly when some capability for this VM has an entry for this very path
  that lists the mode.\<close>

theorem can_access_path_iff:
  "can_access_path ev vm p access_mode \<longleftrightarrow>
     (\<exists>c \<in> set (cl_caps (ev_claim ev)). cap_target_vm c = vm \<and>
        (\<exists>e \<in> set (cap_paths c). pa_path e = p \<and> access_mode \<in> set (pa_access e)))"
  unfolding can_access_path_allowed path_grants.allows_iff [of "cl_caps (ev_claim ev)"] path_allowed_single
  by simp

text \<open>More capabilities never take a right away, and only the capabilities for this VM count.\<close>

theorem grants_monotone:
  assumes "{c \<in> set (cl_caps (ev_claim ev)). cap_target_vm c = vm} \<subseteq> set (cl_caps (ev_claim ev'))"
  shows "(can_call_rpc ev vm module meth \<longrightarrow> can_call_rpc ev' vm module meth) \<and>
    (can_access_path ev vm p access_mode \<longrightarrow> can_access_path ev' vm p access_mode)"
proof -
  let ?cs = "filter (\<lambda>c. cap_target_vm c = vm) (cl_caps (ev_claim ev))"
  have sub: "set ?cs \<subseteq> set (cl_caps (ev_claim ev'))" using assms by auto
  show ?thesis
    unfolding can_call_rpc_allowed can_access_path_allowed
    using rpc_grants.allows_mono [OF sub, of "(vm, module, meth)"]
      rpc_grants.allows_filter [of "cl_caps (ev_claim ev)" "(vm, module, meth)"]
      path_grants.allows_mono [OF sub, of "(vm, p, access_mode)"]
      path_grants.allows_filter [of "cl_caps (ev_claim ev)" "(vm, p, access_mode)"]
    by simp
qed

theorem grants_monotone_witness:
  "can_call_rpc \<lparr>ev_claim = sample_claim\<lparr>cl_caps := [sample_cap\<lparr>cap_target_vm := ''b''\<rparr>, sample_cap]\<rparr>\<rparr>
     ''my-vm'' ''auth'' ''login''"
proof -
  have "can_call_rpc \<lparr>ev_claim = sample_claim\<rparr> ''my-vm'' ''auth'' ''login''"
    by (simp add: can_call_rpc_def sample_claim_def sample_cap_def)
  moreover have "{c \<in> set (cl_caps (ev_claim \<lparr>ev_claim = sample_claim\<rparr>)). cap_target_vm c = ''my-vm''} \<subseteq>
      set (cl_caps (ev_claim \<lparr>ev_claim = sample_claim\<lparr>cl_caps := [sample_cap\<lparr>cap_target_vm := ''b''\<rparr>, sample_cap]\<rparr>\<rparr>))"
    by (auto simp: sample_claim_def)
  ultimately show ?thesis using grants_monotone by blast
qed

text \<open>Dotted names are not parsed: a method grant does not tell where the module ends and the method
  begins, so without a module grant \<open>a.b\<close> and \<open>c\<close> are allowed together with \<open>a\<close> and \<open>b.c\<close>.\<close>

theorem dotted_methods_ambiguous:
  assumes "\<forall>c \<in> set (cl_caps (ev_claim ev)). cap_rpc_modules c = []"
  shows "can_call_rpc ev vm (a @ ''.'' @ b) m = can_call_rpc ev vm a (b @ ''.'' @ m)"
proof -
  have "\<not> x \<in> set (cap_rpc_modules c)" if "c \<in> set (cl_caps (ev_claim ev))" for x c
    using assms that by simp
  then show ?thesis
    unfolding can_call_rpc_allowed rpc_grants.allows_iff [of "cl_caps (ev_claim ev)"] rpc_allowed_single
      append_assoc by blast
qed

theorem dotted_methods_ambiguous_witness:
  "can_call_rpc \<lparr>ev_claim = sample_claim\<lparr>cl_caps := [sample_cap\<lparr>cap_rpc_modules := [],
     cap_rpc_methods := [''a.b.c'']\<rparr>]\<rparr>\<rparr> ''my-vm'' (''a'' @ ''.'' @ ''b'') ''c''"
  by (subst dotted_methods_ambiguous) (simp_all add: can_call_rpc_def sample_cap_def)

end
