(* ===== verification/Eval_Test.thy ===== *)
theory Eval_Test
  imports Evaluator
begin

text \<open>
  The command \<open>auth-scope-eval-test\<close> (\<open>bin/auth-scope-eval-test.rs\<close>): it builds an evaluator from two
  files and asserts three grants and three denials for \<open>local-vm\<close>. The result of a \<open>main\<close> function
  is \<open>Err n\<close> for \<open>process::exit(n)\<close>; a failed \<open>expect\<close> or \<open>assert!\<close> is a panic. The arguments after the
  first are paths.
\<close>

definition expect :: "('a, 'e) res \<Rightarrow> ('a, 'f) res" where
  "expect r = (case r of Ok x \<Rightarrow> Ok x | Err e \<Rightarrow> Panic | Panic \<Rightarrow> Panic)"

definition io_expect :: "('s, 'a, 'e) io \<Rightarrow> ('s, 'a, 'f) io" where
  "io_expect m s = (case m s of (r, s') \<Rightarrow> (expect r, s'))"

definition assert_res :: "bool \<Rightarrow> (unit, 'e) res" where
  "assert_res b = (if b then Ok () else Panic)"

lemma expect_Ok_iff [simp]: "expect r = Ok x \<longleftrightarrow> r = Ok x"
  by (cases r) (simp_all add: expect_def)

lemma io_expect_Ok_iff [io_inv]: "io_expect m s = (Ok x, s') \<longleftrightarrow> m s = (Ok x, s')"
  by (auto simp: io_expect_def split: prod.splits)

lemma assert_res_Ok_iff [simp]: "assert_res b = Ok u \<longleftrightarrow> b"
  by (simp add: assert_res_def)

text \<open>The three RPC assertions and the three path assertions, in order.\<close>

definition eval_test_asserts :: "Evaluator \<Rightarrow> bool list" where
  "eval_test_asserts ev =
     [can_call_rpc ev ''local-vm'' ''auth'' ''any_method'',
      can_call_rpc ev ''local-vm'' ''data'' ''read_secure'',
      \<not> can_call_rpc ev ''local-vm'' ''data'' ''write'',
      can_access_path ev ''local-vm'' ''/api/v1/health'' ''read'',
      \<not> can_access_path ev ''local-vm'' ''/api/v1/health'' ''write'',
      \<not> can_access_path ev ''local-vm'' ''/api/v1/admin'' ''read'']"

definition eval_test_main ::
  "'k jwt_lib \<Rightarrow> x509_lib \<Rightarrow> path list \<Rightarrow> (fs, unit, nat) io" where
  "eval_test_main L X args =
     (if length args \<noteq> 3 then io_lift (Err 1)
      else io_bind (io_expect (read_to_string (args ! 1))) (\<lambda>peer_cert_pem.
        io_bind (io_expect (read_to_string (args ! 2))) (\<lambda>trusted_ca_pem.
        io_bind (io_lift (expect (from_cert_pem L X peer_cert_pem trusted_ca_pem))) (\<lambda>ev.
        io_bind (io_lift (map_res assert_res (eval_test_asserts ev))) (\<lambda>_. io_ret ())))))"

text \<open>
  The command ends normally only if the files hold a certificate whose token verifies and grants
  what the assertions say.
\<close>

lemma eval_test_main_Ok:
  assumes "eval_test_main L X args s = (Ok u, s')"
  obtains peer_pem trusted_pem ev where "from_cert_pem L X peer_pem trusted_pem = Ok ev"
    and "can_call_rpc ev ''local-vm'' ''auth'' ''any_method''"
    and "\<not> can_call_rpc ev ''local-vm'' ''data'' ''write''"
    and "\<not> can_access_path ev ''local-vm'' ''/api/v1/admin'' ''read''"
  using assms
  by (auto simp: eval_test_main_def eval_test_asserts_def io_inv rbind_Ok_iff split: if_splits)

section \<open>The unit test of the evaluator\<close>

text \<open>
  \<open>test_evaluator_grants\<close> of \<open>lib.rs\<close>: a CA in a fresh directory, an agent's request, a signed
  certificate, and the questions to its evaluator. The directory is what \<open>tempdir()\<close> returned; every
  \<open>unwrap\<close> is an \<^const>\<open>expect\<close>.
\<close>

definition test_cap :: Capability where
  "test_cap = \<lparr>cap_target_vm = ''my-vm'', cap_rpc_modules = [''auth''],
     cap_rpc_methods = [''data.read_secure''],
     cap_paths = [\<lparr>pa_path = ''/api/v1/health'', pa_access = [''read'']\<rparr>]\<rparr>"

definition test_request :: "string \<Rightarrow> SigningRequest" where
  "test_request csr_pem = \<lparr>sr_csr_pem = csr_pem, sr_entity = ''peer-service'', sr_vm_name = ''peer-vm'',
     sr_cid = 10, sr_claims = [test_cap], sr_validity_days = 10\<rparr>"

definition test_asserts :: "Evaluator \<Rightarrow> bool list" where
  "test_asserts ev =
     [cl_sub (ev_claim ev) = ''peer-service'',
      can_call_rpc ev ''my-vm'' ''auth'' ''login'',
      can_call_rpc ev ''my-vm'' ''data'' ''read_secure'',
      \<not> can_call_rpc ev ''my-vm'' ''data'' ''write'',
      \<not> can_call_rpc ev ''other-vm'' ''auth'' ''login'',
      can_access_path ev ''my-vm'' ''/api/v1/health'' ''read'',
      \<not> can_access_path ev ''my-vm'' ''/api/v1/health'' ''write'',
      \<not> can_access_path ev ''my-vm'' ''/api/v1/admin'' ''read'']"

text \<open>The agent's request, made from default parameters.\<close>

definition test_csr :: "('kp, 'cert, 'csr) rcgen_lib \<Rightarrow> nat \<Rightarrow> (string, 'e) res" where
  "test_csr R rng =
     rbind (expect (rg_generate_for_p256 R rng)) (\<lambda>agent_key.
     rbind (expect (rg_serialize_request R (rg_default_params R) agent_key rng)) (\<lambda>csr.
     expect (rg_csr_pem R csr)))"

definition test_evaluator_grants ::
  "'k jwt_lib \<Rightarrow> ('kp, 'cert, 'csr) rcgen_lib \<Rightarrow> x509_lib \<Rightarrow> nat \<Rightarrow> nat \<Rightarrow> call_env \<Rightarrow> (path, string) res
     \<Rightarrow> (fs, unit, string) io" where
  "test_evaluator_grants L R X ca_rng agent_rng env tempdir =
     io_bind (io_lift (expect tempdir)) (\<lambda>dir.
     let ca_cert_path = dir @ [''ca-cert.pem'']; ca_key_path = dir @ [''ca-key.pem''] in
     io_bind (io_expect (CertificateAuthority_init R ca_rng ca_cert_path ca_key_path False)) (\<lambda>ca.
     io_bind (io_lift (test_csr R agent_rng)) (\<lambda>csr_pem.
     io_bind (io_lift (expect (sign_csr L R env ca (test_request csr_pem)))) (\<lambda>peer_cert_pem.
     io_bind (io_lift (expect (from_cert_pem L X peer_cert_pem (ca_cert_pem ca)))) (\<lambda>ev.
     io_bind (io_lift (map_res assert_res (test_asserts ev))) (\<lambda>_. io_ret ()))))))"

lemma expect_Ok [simp]: "expect (Ok x) = Ok x"
  by (simp add: expect_def)

text \<open>Every assertion holds of an evaluator with the claim that the request asks for.\<close>

lemma test_asserts_hold:
  "map_res assert_res (test_asserts \<lparr>ev_claim = cap_claim secs (test_request csr_pem)\<rparr>) = Ok (replicate 8 ())"
  by (simp add: test_asserts_def cap_claim_def test_request_def test_cap_def can_call_rpc_def
      can_access_path_def assert_res_def numeral_eq_Suc Let_def)

section \<open>Properties\<close>

text \<open>C28: the evaluator's unit test passes with every implementation of the libraries that keeps their
  contracts: when the directory, the CA, the request and the certificate can be made, no \<open>unwrap\<close> and
  no assertion after that fails.\<close>

theorem unit_test_passes:
  assumes "CertificateAuthority_init R ca_rng (dir @ [''ca-cert.pem'']) (dir @ [''ca-key.pem'']) False s = (Ok ca, s')"
    and "test_csr R agent_rng = (Ok csr_pem :: (string, string) res)"
    and "sign_csr L R env ca (test_request csr_pem) = Ok pem" "env_now env = Ok secs"
    and "from_pkcs8_der L (env_rng env) (ca_key_der ca) = Ok signer"
    and "jwt_sign L signer (cap_claim secs (test_request csr_pem)) = Ok jwt"
    and "rg_csr_from_pem R csr_pem = Ok csr" "cp_custom_extensions (cs_params csr) = []"
    and "base64_law L" "claim_json_law L (cap_claim secs (test_request csr_pem)) payload"
    and "signature_law L (js_key_pair signer) pk" "trusted_key X (ca_cert_pem ca) pk"
    and "parses_issued X R env csr jwt 10" "length jwt < 65536"
  shows "test_evaluator_grants L R X ca_rng agent_rng env (Ok dir) s = (Ok (), s')"
proof -
  have req: "sr_csr_pem (test_request csr_pem) = csr_pem" "sr_validity_days (test_request csr_pem) = 10"
    by (simp_all add: test_request_def)
  have plain: "\<forall>e \<in> set (cp_custom_extensions (cs_params csr)). ce_oid e \<noteq> CAP_EXTENSION_OID"
    unfolding assms(8) by simp
  have "from_cert_pem L X pem (ca_cert_pem ca) = Ok \<lparr>ev_claim = cap_claim secs (test_request csr_pem)\<rparr>"
    using issued_certificate_evaluates [OF assms(3-6) _ assms(9-12) _ plain assms(14), unfolded req,
        OF assms(7,13)] .
  then show ?thesis
    using assms(1-3)
    by (simp add: test_evaluator_grants_def io_expect_def res_simps test_asserts_hold Let_def)
qed

text \<open>The sample libraries, with the certificate of the test as the one the parser knows.\<close>

lemma sample_test_request: "test_request ''CSR'' = sample_request"
  by (simp add: test_request_def sample_request_def test_cap_def sample_cap_def)

lemma sample_test_init:
  "\<exists>s'. CertificateAuthority_init sample_rcgen 0 ([''ca''] @ [''ca-cert.pem'']) ([''ca''] @ [''ca-key.pem'']) False
     sample_ca_dir = (Ok sample_ca, s')"
  by (simp add: CertificateAuthority_init_def remove_if_exists_def fs_exists_def sample_ca_dir_def
      ca_generate_def sample_ca_params res_simps)
    (simp add: create_parent_def path_parent_def create_dir_all_def guarded_def
      syscall_def io_bind_def io_map_err_def io_lift_def io_ret_def prefixes_of_def upt_rec fs_write_def
      open_for_write_def set_node_def set_mode_600_def set_permissions_def Let_def sample_ca_def)

theorem unit_test_passes_witness:
  "fst (test_evaluator_grants (sample_jwt_lib sample_claim) sample_rcgen sample_x509 0 0 sample_env
     (Ok [''ca'']) sample_ca_dir) = Ok ()"
proof -
  let ?csr = "\<lparr>cs_params = sample_params, cs_public_key = [5]\<rparr>"
  obtain s' where init: "CertificateAuthority_init sample_rcgen 0 ([''ca''] @ [''ca-cert.pem''])
      ([''ca''] @ [''ca-key.pem'']) False sample_ca_dir = (Ok sample_ca, s')"
    using sample_test_init by blast
  have csr: "test_csr sample_rcgen 0 = (Ok ''CSR'' :: (string, string) res)" by (simp add: test_csr_def)
  have sign: "sign_csr (sample_jwt_lib sample_claim) sample_rcgen sample_env sample_ca (test_request ''CSR'') =
      Ok ''LEAF''"
    unfolding sample_test_request by (rule sample_sign_csr)
  have now: "env_now sample_env = Ok 1700000000" by (simp add: sample_env_def)
  have signer: "from_pkcs8_der (sample_jwt_lib sample_claim) (env_rng sample_env) (ca_key_der sample_ca)
      = Ok sample_signer"
    using sample_from_pkcs8 by (simp add: sample_env_def)
  have parsed: "rg_csr_from_pem sample_rcgen ''CSR'' = Ok ?csr" "cp_custom_extensions (cs_params ?csr) = []"
    by (simp_all add: sample_params_def)
  have json: "claim_json_law (sample_jwt_lib sample_claim) (cap_claim 1700000000 (test_request ''CSR'')) ''{}''"
    unfolding sample_test_request sample_cap_claim by (rule sample_claim_json)
  have trusted: "trusted_key sample_x509 (ca_cert_pem sample_ca) [4, 7]"
    using sample_trusted by (simp add: sample_ca_def)
  from unit_test_passes [OF init csr sign now signer sample_jwt_sign_token parsed sample_base64 json
      sample_signature trusted sample_parses_issued length_sample_token] show ?thesis
    by simp
qed

end
