(* ===== verification/Go_Evaluator.thy ===== *)
theory Go_Evaluator
  imports Eval_Test
begin

text \<open>
  The second implementation of the evaluator, in Go (\<open>evaluator.go\<close>), and its test command
  (\<open>main.go\<close> of \<open>auth-scope-eval-test-go\<close>). Go's standard library is the record \<open>go_lib\<close>: PEM, X.509 and
  ASN.1 decoding, base64, SHA-256, ECDSA and the JSON decoder of the claim, whose treatment of the
  structs below is modelled in \<open>Go_Json\<close>; a function that returns
  a value and an error is a sum, the error on the left. A Go string is a byte sequence, as here. The
  only operations of \<open>NewEvaluator\<close> itself that could panic are its indexing and slicing.
\<close>

section \<open>Data\<close>

record GoPathAccess =
  gp_path :: string
  gp_access :: "string list"

record GoCapability =
  gt_target_vm :: string
  gt_rpc_modules :: "string list"
  gt_rpc_methods :: "string list"
  gt_paths :: "GoPathAccess list"

record GoCapClaim =
  gl_iss :: string
  gl_sub :: string
  gl_vm :: string
  gl_cid :: u32
  gl_iat :: "64 word"
  gl_exp :: "64 word"
  gl_caps :: "GoCapability list"

record GoEvaluator =
  ge_claim :: GoCapClaim

text \<open>
  What the code reads of a parsed certificate: its public key, if it is an ECDSA key, and the
  extensions. The value of an extension is a slice, which may be nil.
\<close>

record go_extension =
  gx_id :: "int list"
  gx_value :: "bytes option"

record 'pk go_cert =
  gc_ecdsa_key :: "'pk option"
  gc_extensions :: "go_extension list"

record 'pk go_lib =
  go_pem_decode :: "bytes \<Rightarrow> bytes option"
  go_parse_certificate :: "bytes \<Rightarrow> string + 'pk go_cert"
  go_asn1_octets :: "bytes \<Rightarrow> string + bytes"
  go_raw_url_decode :: "string \<Rightarrow> string + bytes"
  go_sha256 :: "bytes \<Rightarrow> bytes"
  go_ecdsa_verify :: "'pk \<Rightarrow> bytes \<Rightarrow> nat \<Rightarrow> nat \<Rightarrow> bool"
  go_claim_unmarshal :: "bytes \<Rightarrow> string + GoCapClaim"

definition GO_CAP_EXTENSION_OID :: "int list" where
  "GO_CAP_EXTENSION_OID = [1, 3, 6, 1, 4, 1, 99999, 1]"

section \<open>The evaluator\<close>

text \<open>\<open>x, err := f()\<close> with the error wrapped and returned.\<close>

primrec go_try :: "string \<Rightarrow> string + 'a \<Rightarrow> ('a \<Rightarrow> ('b, string) res) \<Rightarrow> ('b, string) res" where
  "go_try msg (Inl e) f = Err (msg @ e)"
| "go_try msg (Inr x) f = f x"

primrec go_non_nil :: "string \<Rightarrow> 'a option \<Rightarrow> ('a \<Rightarrow> ('b, string) res) \<Rightarrow> ('b, string) res" where
  "go_non_nil msg None f = Err msg"
| "go_non_nil msg (Some x) f = f x"

text \<open>\<open>strings.Split\<close> with a one-byte separator.\<close>

fun go_split :: "char \<Rightarrow> string \<Rightarrow> string list" where
  "go_split c [] = [[]]"
| "go_split c (x # s) =
     (if x = c then [] # go_split c s
      else case go_split c s of p # ps \<Rightarrow> (x # p) # ps | [] \<Rightarrow> [[x]])"

text \<open>Slices: \<open>bs[lo:hi]\<close> panics out of range.\<close>

definition go_slice :: "bytes \<Rightarrow> nat \<Rightarrow> nat \<Rightarrow> (bytes, string) res" where
  "go_slice bs lo hi = (if lo \<le> hi \<and> hi \<le> length bs then Ok (take (hi - lo) (drop lo bs)) else Panic)"

fun go_find_ext :: "go_extension list \<Rightarrow> bytes option" where
  "go_find_ext [] = None"
| "go_find_ext (ext # exts) =
     (if gx_id ext = GO_CAP_EXTENSION_OID then gx_value ext else go_find_ext exts)"

definition go_parse_pem :: "'pk go_lib \<Rightarrow> string \<Rightarrow> bytes \<Rightarrow> ('pk go_cert \<Rightarrow> ('b, string) res) \<Rightarrow> ('b, string) res"
  where
  "go_parse_pem G who pem f =
     go_non_nil (''failed to decode '' @ who @ '' PEM'') (go_pem_decode G pem) (\<lambda>der.
     go_try (''failed to parse '' @ who @ '' cert: '') (go_parse_certificate G der) f)"

text \<open>Step 4 of the code: verify the token and decode its payload.\<close>

definition go_verify_token :: "'pk go_lib \<Rightarrow> 'pk \<Rightarrow> string \<Rightarrow> (GoEvaluator, string) res" where
  "go_verify_token G pk jwt =
     (case go_split CHR ''.'' jwt of
        [h, p, s] \<Rightarrow>
          go_try ''invalid JWT signature encoding: '' (go_raw_url_decode G s) (\<lambda>sig.
          if length sig \<noteq> 64
          then Err (''invalid ES256 signature length: got '' @ show_nat (length sig) @ '', expected 64'')
          else
            let signed_data = h @ ''.'' @ p; hash = go_sha256 G (as_bytes signed_data) in
            rbind (go_slice sig 0 32) (\<lambda>r_bytes.
            rbind (go_slice sig 32 (length sig)) (\<lambda>s_bytes.
            if \<not> go_ecdsa_verify G pk hash (be_value 0 r_bytes) (be_value 0 s_bytes)
            then Err ''JWT verification failed: invalid signature''
            else
              go_try ''invalid JWT payload encoding: '' (go_raw_url_decode G p) (\<lambda>payload_bytes.
              go_try ''failed to unmarshal JWT payload: '' (go_claim_unmarshal G payload_bytes) (\<lambda>claim.
              Ok \<lparr>ge_claim = claim\<rparr>)))))
      | _ \<Rightarrow> Err ''invalid JWT structure'')"

definition go_check_value :: "'pk go_lib \<Rightarrow> 'pk \<Rightarrow> bytes \<Rightarrow> (GoEvaluator, string) res" where
  "go_check_value G pk jwt_bytes =
     go_try ''failed to unwrap ASN.1 OCTET STRING: '' (go_asn1_octets G jwt_bytes) (\<lambda>inner_jwt.
     go_verify_token G pk (str_of_bytes inner_jwt))"

definition NewEvaluator :: "'pk go_lib \<Rightarrow> bytes \<Rightarrow> bytes \<Rightarrow> (GoEvaluator, string) res" where
  "NewEvaluator G peer_cert_pem trusted_ca_pem =
     go_parse_pem G ''CA'' trusted_ca_pem (\<lambda>ca_cert.
     go_non_nil ''CA public key is not ECDSA'' (gc_ecdsa_key ca_cert) (\<lambda>pk.
     go_parse_pem G ''peer'' peer_cert_pem (\<lambda>peer_cert.
     go_non_nil ''capability extension (OID 1.3.6.1.4.1.99999.1) not found in peer certificate''
       (go_find_ext (gc_extensions peer_cert)) (\<lambda>jwt_bytes.
     go_check_value G pk jwt_bytes))))"

section \<open>Answering requests\<close>

fun go_contains :: "string \<Rightarrow> string list \<Rightarrow> bool" where
  "go_contains x [] = False"
| "go_contains x (m # ms) = (if m = x then True else go_contains x ms)"

fun go_rpc_loop :: "string \<Rightarrow> string \<Rightarrow> string \<Rightarrow> GoCapability list \<Rightarrow> bool" where
  "go_rpc_loop my_vm_name module full_method [] = False"
| "go_rpc_loop my_vm_name module full_method (cap # caps) =
     (if gt_target_vm cap = my_vm_name then
        if go_contains module (gt_rpc_modules cap) then True
        else if go_contains full_method (gt_rpc_methods cap) then True
        else go_rpc_loop my_vm_name module full_method caps
      else go_rpc_loop my_vm_name module full_method caps)"

definition CanCallRpc :: "GoEvaluator \<Rightarrow> string \<Rightarrow> string \<Rightarrow> string \<Rightarrow> bool" where
  "CanCallRpc e my_vm_name module meth =
     (let full_method = module @ ''.'' @ meth in
      go_rpc_loop my_vm_name module full_method (gl_caps (ge_claim e)))"

fun go_paths_loop :: "string \<Rightarrow> string \<Rightarrow> GoPathAccess list \<Rightarrow> bool" where
  "go_paths_loop path access_mode [] = False"
| "go_paths_loop path access_mode (p # ps) =
     (if gp_path p = path \<and> go_contains access_mode (gp_access p) then True
      else go_paths_loop path access_mode ps)"

fun go_path_loop :: "string \<Rightarrow> string \<Rightarrow> string \<Rightarrow> GoCapability list \<Rightarrow> bool" where
  "go_path_loop my_vm_name path access_mode [] = False"
| "go_path_loop my_vm_name path access_mode (cap # caps) =
     (if gt_target_vm cap = my_vm_name \<and> go_paths_loop path access_mode (gt_paths cap) then True
      else go_path_loop my_vm_name path access_mode caps)"

definition CanAccessPath :: "GoEvaluator \<Rightarrow> string \<Rightarrow> string \<Rightarrow> string \<Rightarrow> bool" where
  "CanAccessPath e my_vm_name path access_mode =
     go_path_loop my_vm_name path access_mode (gl_caps (ge_claim e))"

section \<open>The test command\<close>

text \<open>\<open>os.ReadFile\<close>, and \<open>os.Exit(1)\<close> as the error 1.\<close>

definition go_read_file :: "path \<Rightarrow> (fs, bytes, string) io" where
  "go_read_file p = guarded (\<lambda>s.
     case fs_nodes s p of
       None \<Rightarrow> (Err ENOENT, s)
     | Some Dir \<Rightarrow> (Err EISDIR, s)
     | Some (Reg f) \<Rightarrow> (Ok (f_data f), s))"

definition go_exit_unless :: "bool \<Rightarrow> (unit, nat) res" where
  "go_exit_unless b = (if b then Ok () else Err 1)"

definition go_test_checks :: "GoEvaluator \<Rightarrow> bool list" where
  "go_test_checks e =
     [CanCallRpc e ''local-vm'' ''auth'' ''login'',
      CanCallRpc e ''local-vm'' ''data'' ''read_secure'',
      \<not> CanCallRpc e ''local-vm'' ''data'' ''write'',
      CanAccessPath e ''local-vm'' ''/api/v1/health'' ''read'',
      \<not> CanAccessPath e ''local-vm'' ''/api/v1/health'' ''write'']"

definition go_test_main :: "'pk go_lib \<Rightarrow> path list \<Rightarrow> (fs, unit, nat) io" where
  "go_test_main G args =
     (if length args \<noteq> 3 then io_lift (Err 1)
      else io_bind (io_map_err (\<lambda>_. 1) (go_read_file (args ! 1))) (\<lambda>peer_cert_pem.
        io_bind (io_map_err (\<lambda>_. 1) (go_read_file (args ! 2))) (\<lambda>trusted_ca_pem.
        io_bind (io_lift (map_err (\<lambda>_. 1) (NewEvaluator G peer_cert_pem trusted_ca_pem))) (\<lambda>e.
        io_bind (io_lift (map_res go_exit_unless (go_test_checks e))) (\<lambda>_. io_ret ())))))"

section \<open>The Go claim as the Rust claim\<close>

definition path_access_of_go :: "GoPathAccess \<Rightarrow> PathAccess" where
  "path_access_of_go p = \<lparr>pa_path = gp_path p, pa_access = gp_access p\<rparr>"

definition capability_of_go :: "GoCapability \<Rightarrow> Capability" where
  "capability_of_go c = \<lparr>cap_target_vm = gt_target_vm c, cap_rpc_modules = gt_rpc_modules c,
     cap_rpc_methods = gt_rpc_methods c, cap_paths = map path_access_of_go (gt_paths c)\<rparr>"

definition claim_of_go :: "GoCapClaim \<Rightarrow> CapClaim" where
  "claim_of_go c = \<lparr>cl_iss = gl_iss c, cl_sub = gl_sub c, cl_vm = gl_vm c, cl_cid = gl_cid c,
     cl_iat = gl_iat c, cl_exp = gl_exp c, cl_caps = map capability_of_go (gl_caps c)\<rparr>"

definition evaluator_of_go :: "GoEvaluator \<Rightarrow> Evaluator" where
  "evaluator_of_go e = \<lparr>ev_claim = claim_of_go (ge_claim e)\<rparr>"

lemma of_go_simps [simp]:
  "pa_path (path_access_of_go p) = gp_path p" "pa_access (path_access_of_go p) = gp_access p"
  "cap_target_vm (capability_of_go c) = gt_target_vm c" "cap_rpc_modules (capability_of_go c) = gt_rpc_modules c"
  "cap_rpc_methods (capability_of_go c) = gt_rpc_methods c"
  "cap_paths (capability_of_go c) = map path_access_of_go (gt_paths c)"
  "cl_caps (claim_of_go k) = map capability_of_go (gl_caps k)"
  "ev_claim (evaluator_of_go e) = claim_of_go (ge_claim e)"
  by (simp_all add: path_access_of_go_def capability_of_go_def claim_of_go_def evaluator_of_go_def)

lemma go_contains_iff: "go_contains x ms \<longleftrightarrow> list_ex (\<lambda>m. m = x) ms"
  by (induction ms) simp_all

lemma go_rpc_loop_same: "go_rpc_loop vm module full caps = rpc_loop vm module full (map capability_of_go caps)"
  by (induction caps) (simp_all add: go_contains_iff)

lemma go_paths_loop_same: "go_paths_loop p a ps = path_entries_loop p a (map path_access_of_go ps)"
  by (induction ps) (simp_all add: go_contains_iff)

lemma go_path_loop_same: "go_path_loop vm p a caps = path_loop vm p a (map capability_of_go caps)"
  by (induction caps) (simp_all add: go_paths_loop_same)

text \<open>The Go evaluator keeps the contract too, so the two agree whenever they hold the same capabilities.\<close>

definition go_held :: "GoEvaluator \<Rightarrow> CapClaim" where
  "go_held e = claim_of_go (ge_claim e)"

interpretation go_eval: peer_evaluator go_held CanCallRpc CanAccessPath
  by unfold_locales (simp_all add: go_held_def CanCallRpc_def CanAccessPath_def Let_def
      go_rpc_loop_same go_path_loop_same rpc_allowed_def path_allowed_def)

interpretation both_evals: evaluator_pair go_held CanCallRpc CanAccessPath ev_claim can_call_rpc can_access_path
  by unfold_locales

lemma answers_same:
  "CanCallRpc e vm module meth = can_call_rpc (evaluator_of_go e) vm module meth"
  "CanAccessPath e vm p access_mode = can_access_path (evaluator_of_go e) vm p access_mode"
  using both_evals.same_answers [of e "evaluator_of_go e"] by (simp_all add: go_held_def)

section \<open>What the Go evaluator accepts\<close>

lemma go_split_plain: "c \<notin> set s \<Longrightarrow> go_split c s = [s]"
  by (induction s) auto

lemma go_split_append: "c \<notin> set a \<Longrightarrow> go_split c (a @ c # s) = a # go_split c s"
  by (induction a) auto

lemma go_split_nonempty [simp]: "go_split c s \<noteq> []"
  by (induction s) (auto split: list.split)

lemma go_split_Cons_iff:
  "go_split c s = p # ps \<longleftrightarrow> c \<notin> set p \<and> (ps = [] \<and> s = p \<or> (\<exists>t. s = p @ c # t \<and> go_split c t = ps))"
proof (cases "c \<in> set s")
  case True
  then obtain a t where s: "s = a @ c # t" and a: "c \<notin> set a" by (rule split_at_first)
  have "a @ c # t = p @ c # t' \<and> c \<notin> set p \<longleftrightarrow> p = a \<and> t' = t" for t'
    using a by (metis append_same_eq dropWhile_neq_append list.inject takeWhile_neq_append)
  then show ?thesis
    unfolding s go_split_append [OF a] using a by (auto simp: in_set_conv_decomp)
next
  case False
  then show ?thesis by (auto simp: go_split_plain)
qed

lemma go_split3_iff:
  "go_split c s = [h, p, t] \<longleftrightarrow>
     s = h @ c # p @ c # t \<and> c \<notin> set h \<and> c \<notin> set p \<and> c \<notin> set t"
  by (auto simp: go_split_Cons_iff)

lemma go_try_Ok_iff: "go_try msg m f = Ok y \<longleftrightarrow> (\<exists>x. m = Inr x \<and> f x = Ok y)"
  by (cases m) simp_all

lemma go_non_nil_Ok_iff: "go_non_nil msg v f = Ok y \<longleftrightarrow> (\<exists>x. v = Some x \<and> f x = Ok y)"
  by (cases v) simp_all

lemma go_verify_token_Ok_iff:
  "go_verify_token G pk jwt = Ok e \<longleftrightarrow>
     (\<exists>h p s sig payload. go_split CHR ''.'' jwt = [h, p, s]
        \<and> go_raw_url_decode G s = Inr sig \<and> length sig = 64
        \<and> go_ecdsa_verify G pk (go_sha256 G (as_bytes (h @ ''.'' @ p)))
            (be_value 0 (take 32 sig)) (be_value 0 (drop 32 sig))
        \<and> go_raw_url_decode G p = Inr payload \<and> go_claim_unmarshal G payload = Inr (ge_claim e))"
  (is "?l \<longleftrightarrow> ?r")
proof
  show "?l \<Longrightarrow> ?r"
    by (auto simp: go_verify_token_def go_try_Ok_iff rbind_Ok_iff go_slice_def Let_def
        split: list.splits if_splits)
  show "?r \<Longrightarrow> ?l"
    by (auto simp: go_verify_token_def go_slice_def Let_def)
qed

text \<open>The certificate the Go peers trust decodes, and \<open>pk\<close> is its ECDSA key.\<close>

definition go_trusted_key :: "'pk go_lib \<Rightarrow> bytes \<Rightarrow> 'pk \<Rightarrow> bool" where
  "go_trusted_key G pem pk \<longleftrightarrow> (\<exists>der cert. go_pem_decode G pem = Some der \<and>
     go_parse_certificate G der = Inr cert \<and> gc_ecdsa_key cert = Some pk)"

lemma NewEvaluator_Ok_iff:
  "NewEvaluator G peer_pem ca_pem = Ok e \<longleftrightarrow>
     (\<exists>pk der peer v. go_trusted_key G ca_pem pk \<and> go_pem_decode G peer_pem = Some der
        \<and> go_parse_certificate G der = Inr peer \<and> go_find_ext (gc_extensions peer) = Some v
        \<and> go_check_value G pk v = Ok e)"
  by (auto simp: NewEvaluator_def go_parse_pem_def go_trusted_key_def go_try_Ok_iff go_non_nil_Ok_iff)

subsection \<open>It never panics\<close>

lemma go_try_Panic_iff: "go_try msg m f = Panic \<longleftrightarrow> (\<exists>x. m = Inr x \<and> f x = Panic)"
  by (cases m) simp_all

lemma go_non_nil_Panic_iff: "go_non_nil msg v f = Panic \<longleftrightarrow> (\<exists>x. v = Some x \<and> f x = Panic)"
  by (cases v) simp_all

lemma go_verify_token_no_panic: "go_verify_token G pk jwt \<noteq> Panic"
  by (auto simp: go_verify_token_def go_try_Panic_iff go_slice_def Let_def split: list.splits if_splits)

lemma go_check_value_no_panic: "go_check_value G pk v \<noteq> Panic"
  by (simp add: go_check_value_def go_try_Panic_iff go_verify_token_no_panic)

lemma NewEvaluator_never_Panic: "NewEvaluator G peer_pem ca_pem \<noteq> Panic"
  by (simp add: NewEvaluator_def go_parse_pem_def go_try_Panic_iff go_non_nil_Panic_iff go_check_value_no_panic)

section \<open>What is relied on\<close>

text \<open>
  Raw base64url decoding inverts the encoding. ASN.1 decoding of an OCTET STRING accepts DER only: the tag,
  a length and all its bytes, whatever follows; and it accepts every encoding the server writes.
\<close>

definition go_base64_law :: "'pk go_lib \<Rightarrow> 'k jwt_lib \<Rightarrow> bool" where
  "go_base64_law G L \<longleftrightarrow> (\<forall>bs. go_raw_url_decode G (b64_encode L bs) = Inr bs)"

definition go_der_law :: "'pk go_lib \<Rightarrow> bool" where
  "go_der_law G \<longleftrightarrow>
     (\<forall>v x. go_asn1_octets G v = Inr x \<longrightarrow>
        (\<exists>rest after_it. v = 0x04 # rest \<and> lp_unframe get_der_len rest = Some (x, after_it))) \<and>
     (\<forall>x. length x < 65536 \<longrightarrow> go_asn1_octets G (encode_der_octet_string x) = Inr x)"

text \<open>
  ring's fixed-length ES256 signatures are the two 32-byte numbers that \<open>ecdsa.Verify\<close> takes, and what is
  signed with the key verifies under its public key.
\<close>

definition go_signature_law :: "'pk go_lib \<Rightarrow> 'k jwt_lib \<Rightarrow> 'k \<Rightarrow> 'pk \<Rightarrow> bool" where
  "go_signature_law G L kp pk \<longleftrightarrow> (\<forall>rng m sig. ring_sign L kp rng m = Ok sig \<longrightarrow> length sig = 64 \<and>
     go_ecdsa_verify G pk (go_sha256 G m) (be_value 0 (take 32 sig)) (be_value 0 (drop 32 sig)))"

text \<open>
  The two base64 decoders agree where both accept: Rust's \<open>URL_SAFE_NO_PAD\<close> takes the canonical encoding
  only, Go's \<open>RawURLEncoding\<close> also takes line breaks and stray trailing bits, and reads the canonical
  encoding alike.
\<close>

definition base64_alike :: "'pk go_lib \<Rightarrow> 'k jwt_lib \<Rightarrow> bool" where
  "base64_alike G L \<longleftrightarrow>
     (\<forall>s a b. b64_decode L s = Ok a \<longrightarrow> go_raw_url_decode G s = Inr b \<longrightarrow> a = b)"

text \<open>Both decoders read the JSON text \<open>payload\<close>, as the claim \<open>c\<close>.\<close>

definition go_claim_law :: "'pk go_lib \<Rightarrow> 'k jwt_lib \<Rightarrow> string \<Rightarrow> CapClaim \<Rightarrow> bool" where
  "go_claim_law G L payload c \<longleftrightarrow> claim_from_slice L (as_bytes payload) = Ok c \<and>
     (\<exists>g. go_claim_unmarshal G (as_bytes payload) = Inr g \<and> claim_of_go g = c)"

text \<open>Go's parser reads back the certificate that signing makes of a request, as \<open>parses_issued\<close> says of Rust's.\<close>

definition go_custom_as_parsed :: "CustomExtension \<Rightarrow> go_extension" where
  "go_custom_as_parsed e = \<lparr>gx_id = map uint (ce_oid e), gx_value = Some (ce_content e)\<rparr>"

definition go_parses_issued ::
  "'pk go_lib \<Rightarrow> ('kp, 'cert, 'csr) rcgen_lib \<Rightarrow> call_env \<Rightarrow> CsrParams \<Rightarrow> string \<Rightarrow> u32 \<Rightarrow> bool" where
  "go_parses_issued G R env csr jwt days \<longleftrightarrow> (\<forall>leaf issuer kp cert.
     leaf_csr R csr jwt days = Ok leaf \<longrightarrow> rg_signed_by R leaf issuer kp (env_rng env) = Ok cert \<longrightarrow>
     (\<exists>der gc std. go_pem_decode G (as_bytes (rg_cert_pem R cert)) = Some der \<and>
        go_parse_certificate G der = Inr gc \<and>
        gc_extensions gc = std @ map go_custom_as_parsed (cp_custom_extensions (cs_params leaf)) \<and>
        list_all (\<lambda>e. gx_id e \<noteq> GO_CAP_EXTENSION_OID) std))"

section \<open>The two evaluators\<close>

lemma go_oid: "GO_CAP_EXTENSION_OID = map uint CAP_EXTENSION_OID"
  by (simp add: GO_CAP_EXTENSION_OID_def CAP_EXTENSION_OID_def)

lemma go_oid_iff: "map uint oid = GO_CAP_EXTENSION_OID \<longleftrightarrow> oid = CAP_EXTENSION_OID"
  unfolding go_oid by (metis list.inj_map_strong word_uint_eq_iff)

lemma go_find_ext_skip:
  "list_all (\<lambda>e. gx_id e \<noteq> GO_CAP_EXTENSION_OID) std \<Longrightarrow> go_find_ext (std @ exts) = go_find_ext exts"
  by (induction std) auto

lemma go_verify_signed_token:
  assumes "base64_law L" and "go_base64_law G L" and "go_signature_law G L (js_key_pair signer) pk"
    and "claim_to_string L claim = Ok payload" and "go_claim_unmarshal G (as_bytes payload) = Inr g"
    and "jwt_sign L signer claim = Ok jwt"
  shows "go_verify_token G pk jwt = Ok \<lparr>ge_claim = g\<rparr>"
proof -
  from assms(4,6) obtain sig where
    sig: "ring_sign L (js_key_pair signer) (js_rng signer) (as_bytes (jwt_signing_input L payload)) = Ok sig"
    and jwt: "jwt = jwt_signing_input L payload @ ''.'' @ b64_encode L sig"
    by (auto simp: jwt_sign_Ok_iff)
  have "go_split CHR ''.'' jwt =
      [b64_encode L (as_bytes CAP_JWT_HEADER), b64_encode L (as_bytes payload), b64_encode L sig]"
    using assms(1) unfolding jwt jwt_signing_input_def go_split3_iff by simp
  with sig assms(2,3,5) show ?thesis
    unfolding go_verify_token_Ok_iff go_signature_law_def go_base64_law_def
    by (fastforce simp: jwt_signing_input_def)
qed

text \<open>What the server issues, both evaluators accept, with the same claim.\<close>

lemma go_evaluates_issued:
  assumes issued: "sign_csr L R env ca req = Ok pem" "env_now env = Ok secs"
      "from_pkcs8_der L (env_rng env) (ca_key_der ca) = Ok signer"
      "jwt_sign L signer (cap_claim secs req) = Ok jwt"
      "rg_csr_from_pem R (sr_csr_pem req) = Ok csr"
    and laws: "base64_law L" "go_base64_law G L" "go_signature_law G L (js_key_pair signer) pk"
      "claim_to_string L (cap_claim secs req) = Ok payload" "go_claim_law G L payload (cap_claim secs req)"
      "go_der_law G" "go_trusted_key G ca_pem pk"
    and parsed: "go_parses_issued G R env csr jwt (sr_validity_days req)"
    and csr: "\<forall>e \<in> set (cp_custom_extensions (cs_params csr)). ce_oid e \<noteq> CAP_EXTENSION_OID"
    and small: "length jwt < 65536"
  shows "\<exists>e. NewEvaluator G (as_bytes pem) ca_pem = Ok e \<and> evaluator_of_go e = \<lparr>ev_claim = cap_claim secs req\<rparr>"
proof -
  from issued obtain leaf issuer kp cert where
    leaf: "leaf_csr R csr jwt (sr_validity_days req) = Ok leaf"
    and cert: "rg_signed_by R leaf issuer kp (env_rng env) = Ok cert" "pem = rg_cert_pem R cert"
    by (auto simp: sign_csr_Ok_iff)
  from leaf obtain ext where
    exts: "cp_custom_extensions (cs_params leaf) = cp_custom_extensions (cs_params csr) @ [ext]"
    and ext: "ce_oid ext = CAP_EXTENSION_OID" "ce_content ext = encode_der_octet_string (as_bytes jwt)"
    by (auto simp: leaf_csr_Ok_iff)
  from parsed leaf cert obtain der gc std where
    peer: "go_pem_decode G (as_bytes pem) = Some der" "go_parse_certificate G der = Inr gc"
    and gc: "gc_extensions gc = std @ map go_custom_as_parsed (cp_custom_extensions (cs_params leaf))"
    and std: "list_all (\<lambda>e. gx_id e \<noteq> GO_CAP_EXTENSION_OID) std"
    unfolding go_parses_issued_def by blast
  have "list_all (\<lambda>e. gx_id e \<noteq> GO_CAP_EXTENSION_OID)
      (map go_custom_as_parsed (cp_custom_extensions (cs_params csr)))"
    using csr by (simp add: list_all_iff go_custom_as_parsed_def go_oid_iff)
  with std have found: "go_find_ext (gc_extensions gc) = Some (encode_der_octet_string (as_bytes jwt))"
    unfolding gc exts map_append by (simp add: go_find_ext_skip go_custom_as_parsed_def go_oid_iff ext)
  from laws(5) obtain g where g: "go_claim_unmarshal G (as_bytes payload) = Inr g"
    "claim_of_go g = cap_claim secs req"
    by (auto simp: go_claim_law_def)
  have "go_asn1_octets G (encode_der_octet_string (as_bytes jwt)) = Inr (as_bytes jwt)"
    using laws(6) small by (simp add: go_der_law_def)
  with go_verify_signed_token [OF laws(1-4) g(1) issued(4)]
  have "go_check_value G pk (encode_der_octet_string (as_bytes jwt)) = Ok \<lparr>ge_claim = g\<rparr>"
    by (simp add: go_check_value_def)
  with laws(7) peer found have "NewEvaluator G (as_bytes pem) ca_pem = Ok \<lparr>ge_claim = g\<rparr>"
    unfolding NewEvaluator_Ok_iff by blast
  with g(2) show ?thesis by (auto simp: evaluator_of_go_def)
qed

text \<open>The payload of the token in the capability value \<open>v\<close>, whoever signed it.\<close>

definition token_payload :: "'k jwt_lib \<Rightarrow> bytes \<Rightarrow> bytes \<Rightarrow> bool" where
  "token_payload L v payload \<longleftrightarrow> (\<exists>inner jwt h p s. unwrap_octet_string v = Ok inner \<and>
     from_utf8 inner = Ok jwt \<and> splitn 3 CHR ''.'' jwt = [h, p, s] \<and> b64_decode L p = Ok payload)"

text \<open>
  When both accept a capability value they decode the same payload: the same token out of the DER
  value, the same middle part out of the token, the same bytes out of that part. Nothing is said of
  who signed it.
\<close>

lemma both_accept_same_payload:
  assumes "base64_alike G L" and "go_der_law G" and "length v < 2 ^ 63"
    and "check_token L pk v = Ok ev" and "go_check_value G gpk v = Ok e"
  obtains payload where "token_payload L v payload"
    and "claim_from_slice L payload = Ok (ev_claim ev)" and "go_claim_unmarshal G payload = Inr (ge_claim e)"
proof -
  from assms(4) obtain inner jwt where inner: "unwrap_octet_string v = Ok inner" "from_utf8 inner = Ok jwt"
    and verified: "verify_cap_jwt L jwt pk = Ok (ev_claim ev)"
    by (auto simp: check_token_def rbind_Ok_iff)
  from assms(5) obtain x where x: "go_asn1_octets G v = Inr x" "go_verify_token G gpk (str_of_bytes x) = Ok e"
    by (auto simp: go_check_value_def go_try_Ok_iff)
  from assms(2) x(1) obtain rest r where "v = 0x04 # rest" "lp_unframe get_der_len rest = Some (x, r)"
    unfolding go_der_law_def by blast
  with assms(3) inner(1) have "x = inner" by (simp add: unwrap_refines_unframe)
  with inner(2) have jwt: "str_of_bytes x = jwt" by (simp add: from_utf8_def split: if_splits)
  from verified obtain h p s sig payload where
    parts: "splitn 3 CHR ''.'' jwt = [h, p, s]"
    and payload: "b64_decode L p = Ok payload" "claim_from_slice L payload = Ok (ev_claim ev)"
    by (auto simp: verify_cap_jwt_Ok_splitn)
  from x(2) jwt obtain h' p' s' payload' where
    parts': "jwt = h' @ ''.'' @ p' @ ''.'' @ s'" "CHR ''.'' \<notin> set h'" "CHR ''.'' \<notin> set p'"
    and payload': "go_raw_url_decode G p' = Inr payload'" "go_claim_unmarshal G payload' = Inr (ge_claim e)"
    by (auto simp: go_verify_token_Ok_iff go_split3_iff)
  have "splitn 3 CHR ''.'' jwt = [h', p', s']" using parts' by (simp add: splitn3_iff)
  with parts have "p' = p" by simp
  with assms(1) payload(1) payload'(1) have "payload' = payload" by (auto simp: base64_alike_def)
  moreover have "token_payload L v payload"
    using inner parts payload(1) unfolding token_payload_def by blast
  ultimately show thesis using that payload(2) payload'(2) by blast
qed

section \<open>A concrete library for the witnesses\<close>

definition sample_go_claim :: GoCapClaim where
  "sample_go_claim = \<lparr>gl_iss = ''auth-scope-ca'', gl_sub = ''peer-service'', gl_vm = ''peer-vm'',
     gl_cid = 10, gl_iat = 1700000000, gl_exp = 1700864000, gl_caps = [
       \<lparr>gt_target_vm = ''my-vm'', gt_rpc_modules = [''auth''], gt_rpc_methods = [''data.read_secure''],
        gt_paths = [\<lparr>gp_path = ''/api/v1/health'', gp_access = [''read'']\<rparr>]\<rparr>]\<rparr>"

definition go_sample_leaf :: "bytes \<Rightarrow> unit go_cert" where
  "go_sample_leaf v = \<lparr>gc_ecdsa_key = None, gc_extensions =
     [\<lparr>gx_id = [2, 5, 29, 15], gx_value = Some [3, 2, 6, 192]\<rparr>, \<lparr>gx_id = GO_CAP_EXTENSION_OID, gx_value = Some v\<rparr>]\<rparr>"

definition sample_go_lib :: "unit go_lib" where
  "sample_go_lib = \<lparr>go_pem_decode = Some,
     go_parse_certificate = (\<lambda>der.
       if der = as_bytes ''ROOT'' then Inr \<lparr>gc_ecdsa_key = Some (), gc_extensions = []\<rparr>
       else if der = as_bytes ''LEAF''
         then Inr (go_sample_leaf (encode_der_octet_string (as_bytes sample_token)))
       else if der = as_bytes ''BAD'' then Inr (go_sample_leaf [4])
       else Inl ''no certificate''),
     go_asn1_octets = (\<lambda>v. case v of [] \<Rightarrow> Inl ''syntax error''
       | tag # rest \<Rightarrow> if tag \<noteq> 0x04 then Inl ''structure error''
           else (case lp_unframe get_der_len rest of None \<Rightarrow> Inl ''data truncated'' | Some (x, _) \<Rightarrow> Inr x)),
     go_raw_url_decode = (\<lambda>s. case letters_decode s of Ok bs \<Rightarrow> Inr bs | _ \<Rightarrow> Inl ''illegal base64 data''),
     go_sha256 = (\<lambda>m. m),
     go_ecdsa_verify = (\<lambda>_ m r s. m = sample_message \<and> r = be_value 0 (replicate 32 9) \<and> s = be_value 0 (replicate 32 9)),
     go_claim_unmarshal = (\<lambda>_. Inr sample_go_claim)\<rparr>"

lemma sample_go_claim_of: "claim_of_go sample_go_claim = sample_claim"
  by (simp add: claim_of_go_def sample_go_claim_def sample_claim_def sample_cap_def capability_of_go_def
      path_access_of_go_def)

lemma sample_go_base64: "go_base64_law sample_go_lib (sample_jwt_lib c)"
  by (simp add: go_base64_law_def sample_go_lib_def letters_roundtrip)

lemma sample_go_der: "go_der_law sample_go_lib"
proof -
  have "lp_unframe get_der_len (lp_frame put_der_len x) = Some (x, [])" if "length x < 65536" for x
    using der_len.unframe_frame [of x "[]"] that by simp
  then show ?thesis
    by (auto simp: go_der_law_def sample_go_lib_def encode_der_octet_string_frame
        split: list.splits if_splits option.splits)
qed

lemma sample_go_signature: "go_signature_law sample_go_lib (sample_jwt_lib c) kp ()"
  by (auto simp: go_signature_law_def sample_go_lib_def sample_sig_def)

lemma sample_go_claim_law: "go_claim_law sample_go_lib (sample_jwt_lib sample_claim) ''{}'' sample_claim"
  by (simp add: go_claim_law_def sample_go_lib_def sample_go_claim_of)

lemma sample_go_issued:
  "go_claim_law sample_go_lib (sample_jwt_lib sample_claim) ''{}'' (cap_claim 1700000000 sample_request)"
  unfolding sample_cap_claim by (rule sample_go_claim_law)

lemma sample_go_trusted: "go_trusted_key sample_go_lib (as_bytes ''ROOT'') ()"
  by (simp add: go_trusted_key_def sample_go_lib_def)

lemma sample_base64_alike: "base64_alike sample_go_lib (sample_jwt_lib c)"
  by (simp add: base64_alike_def sample_go_lib_def)

lemma sample_go_parses:
  "go_parses_issued sample_go_lib sample_rcgen env \<lparr>cs_params = sample_params, cs_public_key = [5]\<rparr>
     sample_token days"
proof -
  let ?v = "encode_der_octet_string (as_bytes sample_token)"
  have "\<exists>der gc std. go_pem_decode sample_go_lib (as_bytes ''LEAF'') = Some der \<and>
      go_parse_certificate sample_go_lib der = Inr gc \<and>
      gc_extensions gc = std @ map go_custom_as_parsed (cp_custom_extensions (cs_params leaf)) \<and>
      list_all (\<lambda>e. gx_id e \<noteq> GO_CAP_EXTENSION_OID) std"
    if "leaf_csr sample_rcgen \<lparr>cs_params = sample_params, cs_public_key = [5]\<rparr> sample_token days = Ok leaf" for leaf
  proof (intro exI conjI)
    show "go_pem_decode sample_go_lib (as_bytes ''LEAF'') = Some (as_bytes ''LEAF'')"
      "go_parse_certificate sample_go_lib (as_bytes ''LEAF'') = Inr (go_sample_leaf ?v)"
      by (simp_all add: sample_go_lib_def)
    show "gc_extensions (go_sample_leaf ?v) = [\<lparr>gx_id = [2, 5, 29, 15], gx_value = Some [3, 2, 6, 192]\<rparr>] @
        map go_custom_as_parsed (cp_custom_extensions (cs_params leaf))"
      using that by (auto simp: leaf_csr_Ok_iff go_sample_leaf_def go_custom_as_parsed_def sample_params_def
          go_oid split: if_splits)
    show "list_all (\<lambda>e. gx_id e \<noteq> GO_CAP_EXTENSION_OID) [\<lparr>gx_id = [2, 5, 29, 15], gx_value = Some [3, 2, 6, 192]\<rparr>]"
      by (simp add: GO_CAP_EXTENSION_OID_def)
  qed
  then show ?thesis by (simp add: go_parses_issued_def)
qed

lemma sample_go_evaluates:
  "NewEvaluator sample_go_lib (as_bytes ''LEAF'') (as_bytes ''ROOT'') = Ok \<lparr>ge_claim = sample_go_claim\<rparr>"
proof -
  have "go_verify_token sample_go_lib () sample_token = Ok \<lparr>ge_claim = sample_go_claim\<rparr>"
    by (rule go_verify_signed_token [where L = "sample_jwt_lib sample_claim" and signer = sample_signer
          and claim = sample_claim and payload = "''{}''", OF sample_base64 sample_go_base64 sample_go_signature])
      (simp_all add: sample_jwt_sign_token sample_go_lib_def)
  moreover have "go_asn1_octets sample_go_lib (encode_der_octet_string (as_bytes sample_token)) =
      Inr (as_bytes sample_token)"
    using sample_go_der length_sample_token by (simp add: go_der_law_def)
  ultimately have "go_check_value sample_go_lib () (encode_der_octet_string (as_bytes sample_token)) =
      Ok \<lparr>ge_claim = sample_go_claim\<rparr>"
    by (simp add: go_check_value_def)
  then show ?thesis
    by (simp add: NewEvaluator_def go_parse_pem_def sample_go_lib_def go_sample_leaf_def GO_CAP_EXTENSION_OID_def)
qed

section \<open>Properties\<close>

text \<open>The two evaluators are interchangeable for what the server issues: on a certificate it signed both
  accept, hold the same claim and give the same answer to every question.\<close>

theorem go_and_rust_agree_on_issued:
  assumes "sign_csr L R env ca req = Ok pem" "env_now env = Ok secs"
    and "from_pkcs8_der L (env_rng env) (ca_key_der ca) = Ok signer"
    and "jwt_sign L signer (cap_claim secs req) = Ok jwt"
    and "rg_csr_from_pem R (sr_csr_pem req) = Ok csr"
    and "base64_law L" "go_base64_law G L" "go_der_law G"
    and "signature_law L (js_key_pair signer) pk" "go_signature_law G L (js_key_pair signer) gpk"
    and "claim_json_law L (cap_claim secs req) payload" "go_claim_law G L payload (cap_claim secs req)"
    and "trusted_key X ca_pem pk" "go_trusted_key G (as_bytes ca_pem) gpk"
    and "parses_issued X R env csr jwt (sr_validity_days req)"
    and "go_parses_issued G R env csr jwt (sr_validity_days req)"
    and "\<forall>e \<in> set (cp_custom_extensions (cs_params csr)). ce_oid e \<noteq> CAP_EXTENSION_OID"
    and "length jwt < 65536"
  shows "\<exists>ev e. from_cert_pem L X pem ca_pem = Ok ev \<and> NewEvaluator G (as_bytes pem) (as_bytes ca_pem) = Ok e \<and>
    ev_claim ev = cap_claim secs req \<and> claim_of_go (ge_claim e) = cap_claim secs req \<and>
    (\<forall>vm module meth. CanCallRpc e vm module meth = can_call_rpc ev vm module meth) \<and>
    (\<forall>vm p access_mode. CanAccessPath e vm p access_mode = can_access_path ev vm p access_mode)"
proof -
  have "claim_to_string L (cap_claim secs req) = Ok payload" using assms(11) by (simp add: claim_json_law_def)
  from go_evaluates_issued [OF assms(1-7,10) this assms(12,8,14,16-18)]
  obtain e where e: "NewEvaluator G (as_bytes pem) (as_bytes ca_pem) = Ok e"
    "evaluator_of_go e = \<lparr>ev_claim = cap_claim secs req\<rparr>"
    by blast
  note ev = issued_certificate_evaluates [OF assms(1-6,11,9,13,15,17,18)]
  from e(2) have "claim_of_go (ge_claim e) = cap_claim secs req" by (simp add: evaluator_of_go_def)
  with e(1) ev answers_same [of e, unfolded e(2)] show ?thesis by auto
qed

theorem go_and_rust_agree_on_issued_witness:
  "\<exists>e. NewEvaluator sample_go_lib (as_bytes ''LEAF'') (as_bytes ''ROOT'') = Ok e \<and>
     CanCallRpc e ''my-vm'' ''auth'' ''login'' \<and> \<not> CanCallRpc e ''my-vm'' ''data'' ''write''"
  using go_and_rust_agree_on_issued [OF sample_sign_csr sample_issued(1,2) sample_jwt_sign_token sample_issued(3)
      sample_base64 sample_go_base64 sample_go_der sample_signature sample_go_signature sample_issued(4)
      sample_go_issued sample_trusted sample_go_trusted sample_parses_issued sample_go_parses sample_issued(5)
      length_sample_token]
  by (auto simp: sample_cap_claim can_call_rpc_def sample_claim_def sample_cap_def)

text \<open>No certificate brings the Go evaluator down: on every pair of inputs, whatever they contain, it
  returns an evaluator or an error; the Rust evaluator panics on some of them (a capability value cut
  short, or an object identifier with an oversized arc).\<close>

theorem go_evaluator_never_panics:
  "(\<exists>e. NewEvaluator G peer_pem ca_pem = Ok e) \<or> (\<exists>m. NewEvaluator G peer_pem ca_pem = Err m)"
  using NewEvaluator_never_Panic [of G peer_pem ca_pem] by (cases "NewEvaluator G peer_pem ca_pem") simp_all

end
