(* ===== verification/Expiry.thy ===== *)
theory Expiry
  imports Go_Evaluator
begin

text \<open>
  The expiry date of a token. The server writes it, the certificate around the token has dates of its
  own, and neither evaluator looks at any of them.
\<close>

text \<open>C19: a token never expires: a certificate that the server issued is accepted by both evaluators and gives
  all the rights of its capabilities at any time after the expiry date that the token states, for a
  validity of zero days from the moment of its issue.\<close>

theorem expired_token_still_grants:
  assumes "sign_csr L R env ca req = Ok pem" "env_now env = Ok secs"
    and "from_pkcs8_der L (env_rng env) (ca_key_der ca) = Ok signer"
    and "jwt_sign L signer (cap_claim secs req) = Ok jwt"
    and "rg_csr_from_pem R (sr_csr_pem req) = Ok csr"
    and "base64_law L" "go_base64_law G L" "go_der_law G"
    and "signature_law L (js_key_pair signer) pk" "go_signature_law G L (js_key_pair signer) gpk"
    and "claim_json_law L (cap_claim secs req) payload" "go_claim_law G L payload (cap_claim secs req)"
    and "trusted_key X ca_pem pk" "go_trusted_key G (as_bytes ca_pem) gpk"
    and "parses_issued X R env csr jwt (sr_validity_days req)"
    and "go_parses_issued G R env csr jwt (sr_validity_days req)"
    and "\<forall>e \<in> set (cp_custom_extensions (cs_params csr)). ce_oid e \<noteq> CAP_EXTENSION_OID"
    and "length jwt < 65536"
    and "secs < 2 ^ 63 - 2 ^ 49" and "int secs + 86400 * uint (sr_validity_days req) \<le> today"
  shows "\<exists>ev e. from_cert_pem L X pem ca_pem = Ok ev \<and> NewEvaluator G (as_bytes pem) (as_bytes ca_pem) = Ok e \<and>
    sint (cl_exp (ev_claim ev)) \<le> today \<and> sint (gl_exp (ge_claim e)) \<le> today \<and>
    (\<forall>vm module meth. rpc_allowed (sr_claims req) (vm, module, meth) \<longrightarrow>
       can_call_rpc ev vm module meth \<and> CanCallRpc e vm module meth) \<and>
    (\<forall>vm p access_mode. path_allowed (sr_claims req) (vm, p, access_mode) \<longrightarrow>
       can_access_path ev vm p access_mode \<and> CanAccessPath e vm p access_mode)"
proof -
  have "claim_to_string L (cap_claim secs req) = Ok payload" using assms(11) by (simp add: claim_json_law_def)
  from go_evaluates_issued [OF assms(1-7,10) this assms(12,8,14,16-18)]
  obtain e where e: "NewEvaluator G (as_bytes pem) (as_bytes ca_pem) = Ok e"
    "evaluator_of_go e = \<lparr>ev_claim = cap_claim secs req\<rparr>"
    by blast
  have held: "claim_of_go (ge_claim e) = cap_claim secs req" using e(2) by (simp add: evaluator_of_go_def)
  have "gl_exp (ge_claim e) = cl_exp (claim_of_go (ge_claim e))" by (simp add: claim_of_go_def)
  note exp = this [unfolded held] cap_claim_values [OF assms(19), of req]
  from issued_certificate_evaluates [OF assms(1-6,11,9,13,15,17,18)] e(1) exp assms(20) held show ?thesis
    by (intro exI [of _ "\<lparr>ev_claim = cap_claim secs req\<rparr>"] exI [of _ e])
      (simp add: rust_eval.calls rust_eval.accesses go_eval.calls go_eval.accesses go_held_def)
qed

theorem expired_token_still_grants_witness:
  "\<exists>ev. from_cert_pem (sample_jwt_lib sample_claim) sample_x509 ''LEAF'' ''ROOT'' = Ok ev \<and>
    sint (cl_exp (ev_claim ev)) \<le> 4102444800 \<and> can_call_rpc ev ''my-vm'' ''auth'' ''login''"
proof -
  have rights: "rpc_allowed (sr_claims sample_request) (''my-vm'', ''auth'', ''login'')"
    by (simp add: sample_request_def rpc_allowed_def sample_cap_def)
  have late: "1700000000 < (2 ^ 63 - 2 ^ 49 :: nat)"
    "int 1700000000 + 86400 * uint (sr_validity_days sample_request) \<le> 4102444800"
    by (simp_all add: sample_request_def)
  from expired_token_still_grants [OF sample_sign_csr sample_issued(1,2) sample_jwt_sign_token sample_issued(3)
      sample_base64 sample_go_base64 sample_go_der sample_signature sample_go_signature sample_issued(4)
      sample_go_issued sample_trusted sample_go_trusted sample_parses_issued sample_go_parses sample_issued(5)
      length_sample_token late] rights
  show ?thesis by blast
qed

end
