(* ===== verification/Config_Load.thy ===== *)
theory Config_Load
  imports Fs
begin

text \<open>
  What the two configuration loaders share. The JSON parser is \<open>serde_json\<close>'s: a \<open>json_text\<close> record
  holds its reading of a text as the fields that occur in it (each field of a struct an option), and
  the text of its \<open>missing field\<close> error. Which fields may be missing, and what stands for them, is
  declared by the structs of the repository and modelled with them. \<open>Config_Json\<close> reads the fields
  from JSON values.
\<close>

record 'j json_text =
  parse_text :: "string \<Rightarrow> ('j, string) res"
  missing_field_msg :: "string \<Rightarrow> string \<Rightarrow> string"

text \<open>A field without a default, and one with \<open>#[serde(default = ...)]\<close>.\<close>

definition required :: "(string \<Rightarrow> string) \<Rightarrow> string \<Rightarrow> 'a option \<Rightarrow> ('a, string) res" where
  "required missing name v = ok_or (missing name) v"

definition defaulted :: "'a \<Rightarrow> 'a option \<Rightarrow> ('a, string) res" where
  "defaulted d v = Ok (case v of None \<Rightarrow> d | Some x \<Rightarrow> x)"

lemma required_Ok_iff [simp]: "required missing name v = Ok x \<longleftrightarrow> v = Some x"
  by (simp add: required_def)

lemma defaulted_Ok_iff [simp]:
  "defaulted d v = Ok x \<longleftrightarrow> x = (case v of None \<Rightarrow> d | Some y \<Rightarrow> y)"
  by (auto simp: defaulted_def)

text \<open>A reader \<open>rd\<close> gives the value of every complete input and an error for any other.\<close>

definition reads_complete :: "('j \<Rightarrow> bool) \<Rightarrow> ('j \<Rightarrow> 'v) \<Rightarrow> ('j \<Rightarrow> ('v, string) res) \<Rightarrow> bool" where
  "reads_complete ok val rd \<longleftrightarrow> (\<forall>j. if ok j then rd j = Ok (val j) else (\<exists>e. rd j = Err e))"

lemma reads_completeD:
  assumes "reads_complete ok val rd"
  shows "ok j \<Longrightarrow> rd j = Ok (val j)" and "\<not> ok j \<Longrightarrow> \<exists>e. rd j = Err e"
  using assms [unfolded reads_complete_def, rule_format, of j] by simp_all

lemma map_res_complete:
  assumes "reads_complete ok val rd"
  shows "list_all ok js \<Longrightarrow> map_res rd js = Ok (map val js)"
    and "\<not> list_all ok js \<Longrightarrow> \<exists>e. map_res rd js = Err e"
proof -
  note rd = reads_completeD [OF assms]
  show "list_all ok js \<Longrightarrow> map_res rd js = Ok (map val js)"
    by (rule map_res_pure) (auto simp: list_all_iff rd)
  show "\<not> list_all ok js \<Longrightarrow> \<exists>e. map_res rd js = Err e"
  proof (induction js)
    case (Cons j js)
    show ?case
    proof (cases "ok j")
      case True
      with Cons obtain e where "map_res rd js = Err e" by auto
      with True show ?thesis by (simp add: rd)
    next
      case False
      with rd(2) obtain e where "rd j = Err e" by blast
      then show ?thesis by simp
    qed
  qed simp
qed

definition server_port_msg :: "u32 \<Rightarrow> string" where
  "server_port_msg p = ''server_port must be less than 1000, got '' @ show_u32 p"

text \<open>
  The contract of a loader that the daemons' \<open>main\<close> functions rely on: it reads the disk only, what
  it returns depends on the file alone, and a configuration it returns has a privileged server port.
\<close>

locale port_checked_loader =
  fixes load :: "path \<Rightarrow> (fs, 'c, anyhow) io"
    and port :: "'c \<Rightarrow> u32"
  assumes load_reads: "stays_in {} (load p)"
    and load_port: "load p s = (Ok c, s') \<Longrightarrow> port c < 1000"
    and load_again: "load p s = (Ok c, s') \<Longrightarrow> no_faults t \<Longrightarrow> fs_nodes t p = fs_nodes s p \<Longrightarrow>
      load p t = (Ok c, t)"
begin

lemma load_nodes: "fs_nodes (snd (load p s)) = fs_nodes s"
  using load_reads [of p] by (auto simp: stays_in_def)

lemma load_privileged: "load p s = (Ok c, s') \<Longrightarrow> unat (port c) < 1000 \<and> fs_nodes s' = fs_nodes s"
  using load_port [of p s c s'] load_nodes [of p s] by (simp add: word_less_nat_alt)

end

end
