(* ===== verification/Host_Config.thy ===== *)
theory Host_Config
  imports Config_Load Wire
begin

text \<open>
  The server's configuration (\<open>config.rs\<close> of \<open>auth-scope-server\<close>) and its loader. A \<open>HashMap\<close> is the
  map of the JSON object's entries; a repeated key keeps its last value.
\<close>

record EntityPolicy =
  po_caps :: "Capability list"
  po_validity_days :: "u32 option"

record VmEntry =
  vm_cid :: u32
  vm_entities :: "string \<rightharpoonup> EntityPolicy"

record HostConfig =
  hc_ca_cert_path :: path
  hc_ca_key_path :: path
  hc_server_port :: u32
  hc_cert_validity_days :: u32
  hc_vms :: "string \<rightharpoonup> VmEntry"
  hc_peer_port :: u32

definition host_default_server_port :: u32 where
  "host_default_server_port = 900"

definition default_validity_days :: u32 where
  "default_validity_days = 365"

definition default_peer_port :: u32 where
  "default_peer_port = 901"

section \<open>Reading the JSON fields\<close>

text \<open>
  \<open>serde\<close> reads an absent \<open>Option\<close> field as \<open>None\<close>. Capabilities are plain data and come as values.
\<close>

record EntityPolicy_json =
  pj_caps :: "Capability list option"
  pj_validity_days :: "u32 option"

record VmEntry_json =
  vj_vm_cid :: "u32 option"
  vj_entities :: "(string \<times> EntityPolicy_json) list option"

record HostConfig_json =
  hj_ca_cert_path :: "path option"
  hj_ca_key_path :: "path option"
  hj_server_port :: "u32 option"
  hj_cert_validity_days :: "u32 option"
  hj_vms :: "(string \<times> VmEntry_json) list option"
  hj_peer_port :: "u32 option"

definition hash_map :: "(string \<times> 'v) list \<Rightarrow> (string \<rightharpoonup> 'v)" where
  "hash_map kvs = map_of (rev kvs)"

text \<open>The entries of an object field, read one after the other; an absent field stays absent.\<close>

definition read_entries ::
  "('j \<Rightarrow> ('v, string) res) \<Rightarrow> (string \<times> 'j) list option \<Rightarrow> ((string \<rightharpoonup> 'v) option, string) res" where
  "read_entries rd kvs =
     (case kvs of
        None \<Rightarrow> Ok None
      | Some es \<Rightarrow> rbind (map_res (\<lambda>(k, j). rbind (rd j) (\<lambda>v. Ok (k, v))) es)
          (\<lambda>vs. Ok (Some (hash_map vs))))"

definition EntityPolicy_of_json ::
  "(string \<Rightarrow> string) \<Rightarrow> EntityPolicy_json \<Rightarrow> (EntityPolicy, string) res" where
  "EntityPolicy_of_json missing j =
     rbind (required missing ''caps'' (pj_caps j)) (\<lambda>caps.
       Ok \<lparr>po_caps = caps, po_validity_days = pj_validity_days j\<rparr>)"

definition VmEntry_of_json :: "(string \<Rightarrow> string) \<Rightarrow> VmEntry_json \<Rightarrow> (VmEntry, string) res" where
  "VmEntry_of_json missing j =
     rbind (read_entries (EntityPolicy_of_json missing) (vj_entities j)) (\<lambda>entities.
     rbind (required missing ''vm_cid'' (vj_vm_cid j)) (\<lambda>cid.
     rbind (required missing ''entities'' entities) (\<lambda>ents.
       Ok \<lparr>vm_cid = cid, vm_entities = ents\<rparr>)))"

definition HostConfig_of_json ::
  "(string \<Rightarrow> string) \<Rightarrow> HostConfig_json \<Rightarrow> (HostConfig, string) res" where
  "HostConfig_of_json missing j =
     rbind (read_entries (VmEntry_of_json missing) (hj_vms j)) (\<lambda>vms.
     rbind (required missing ''ca_cert_path'' (hj_ca_cert_path j)) (\<lambda>cert_path.
     rbind (required missing ''ca_key_path'' (hj_ca_key_path j)) (\<lambda>key_path.
     rbind (defaulted host_default_server_port (hj_server_port j)) (\<lambda>server_port.
     rbind (defaulted default_validity_days (hj_cert_validity_days j)) (\<lambda>validity.
     rbind (required missing ''vms'' vms) (\<lambda>vm_map.
     rbind (defaulted default_peer_port (hj_peer_port j)) (\<lambda>peer_port.
       Ok \<lparr>hc_ca_cert_path = cert_path, hc_ca_key_path = key_path, hc_server_port = server_port,
           hc_cert_validity_days = validity, hc_vms = vm_map, hc_peer_port = peer_port\<rparr>)))))))"

definition HostConfig_from_file ::
  "HostConfig_json json_text \<Rightarrow> path \<Rightarrow> (fs, HostConfig, anyhow) io" where
  "HostConfig_from_file J p =
     io_bind (io_map_err Msg (read_to_string p)) (\<lambda>data.
     io_bind (io_lift (map_err Msg (rbind (parse_text J data)
         (HostConfig_of_json (missing_field_msg J data))))) (\<lambda>cfg.
       if hc_server_port cfg \<ge> 1000 then io_lift (Err (Msg (server_port_msg (hc_server_port cfg))))
       else io_ret cfg))"

interpretation host_loader: port_checked_loader "HostConfig_from_file J" hc_server_port
  by unfold_locales
    (auto simp: HostConfig_from_file_def io_inv res_simps dest: read_to_string_again
      intro!: stays split: if_splits)

section \<open>Lemmas\<close>

lemma hash_map_last: "hash_map (kvs @ [(k, v)]) = (hash_map kvs)(k \<mapsto> v)"
  by (simp add: hash_map_def)

lemma dom_hash_map: "dom (hash_map kvs) = fst ` set kvs"
  by (simp add: hash_map_def dom_map_of_conv_image_fst)

section \<open>Which configurations are accepted\<close>

text \<open>
  The specification of the loader: every field without a default is there, at every level, and the
  configuration is the one the fields name. The entries of an object are a map, the last one of a
  repeated key counts.
\<close>

definition policy_complete :: "EntityPolicy_json \<Rightarrow> bool" where
  "policy_complete j \<longleftrightarrow> pj_caps j \<noteq> None"

definition policy_value :: "EntityPolicy_json \<Rightarrow> EntityPolicy" where
  "policy_value j = \<lparr>po_caps = the (pj_caps j), po_validity_days = pj_validity_days j\<rparr>"

definition vm_complete :: "VmEntry_json \<Rightarrow> bool" where
  "vm_complete j \<longleftrightarrow> vj_vm_cid j \<noteq> None \<and> vj_entities j \<noteq> None \<and>
     list_all (\<lambda>(_, p). policy_complete p) (the (vj_entities j))"

definition vm_value :: "VmEntry_json \<Rightarrow> VmEntry" where
  "vm_value j = \<lparr>vm_cid = the (vj_vm_cid j),
     vm_entities = hash_map (map (apsnd policy_value) (the (vj_entities j)))\<rparr>"

definition host_complete :: "HostConfig_json \<Rightarrow> bool" where
  "host_complete j \<longleftrightarrow> hj_ca_cert_path j \<noteq> None \<and> hj_ca_key_path j \<noteq> None \<and> hj_vms j \<noteq> None \<and>
     list_all (\<lambda>(_, v). vm_complete v) (the (hj_vms j))"

definition host_value :: "HostConfig_json \<Rightarrow> HostConfig" where
  "host_value j = \<lparr>hc_ca_cert_path = the (hj_ca_cert_path j), hc_ca_key_path = the (hj_ca_key_path j),
     hc_server_port = (case hj_server_port j of None \<Rightarrow> 900 | Some n \<Rightarrow> n),
     hc_cert_validity_days = (case hj_cert_validity_days j of None \<Rightarrow> 365 | Some n \<Rightarrow> n),
     hc_vms = hash_map (map (apsnd vm_value) (the (hj_vms j))),
     hc_peer_port = (case hj_peer_port j of None \<Rightarrow> 901 | Some n \<Rightarrow> n)\<rparr>"

lemma read_entries_complete:
  assumes "reads_complete ok val rd"
  shows "read_entries rd None = Ok None"
    and "list_all (\<lambda>(_, j). ok j) es \<Longrightarrow> read_entries rd (Some es) = Ok (Some (hash_map (map (apsnd val) es)))"
    and "\<not> list_all (\<lambda>(_, j). ok j) es \<Longrightarrow> \<exists>e. read_entries rd (Some es) = Err e"
proof -
  let ?f = "\<lambda>(k :: string, j). rbind (rd j) (\<lambda>v. Ok (k, v))"
  have f: "reads_complete (\<lambda>(_, j). ok j) (apsnd val) ?f"
    unfolding reads_complete_def
  proof
    fix kj :: "string \<times> 'a"
    show "if case kj of (_, j) \<Rightarrow> ok j then ?f kj = Ok (apsnd val kj) else (\<exists>e. ?f kj = Err e)"
      using reads_completeD [OF assms, of "snd kj"] by (cases kj) auto
  qed
  show "read_entries rd None = Ok None" by (simp add: read_entries_def)
  show "list_all (\<lambda>(_, j). ok j) es \<Longrightarrow> read_entries rd (Some es) = Ok (Some (hash_map (map (apsnd val) es)))"
    using map_res_complete(1) [OF f, of es] by (simp add: read_entries_def)
  show "\<not> list_all (\<lambda>(_, j). ok j) es \<Longrightarrow> \<exists>e. read_entries rd (Some es) = Err e"
    using map_res_complete(2) [OF f, of es] by (auto simp: read_entries_def)
qed

lemma policy_reads: "reads_complete policy_complete policy_value (EntityPolicy_of_json missing)"
  by (auto simp: reads_complete_def policy_complete_def policy_value_def EntityPolicy_of_json_def required_def)

lemma vm_reads: "reads_complete vm_complete vm_value (VmEntry_of_json missing)"
  unfolding reads_complete_def
proof
  fix j
  note entries = read_entries_complete [OF policy_reads [of missing]]
  show "if vm_complete j then VmEntry_of_json missing j = Ok (vm_value j)
    else (\<exists>e. VmEntry_of_json missing j = Err e)"
  proof (cases "vj_entities j")
    case None
    then show ?thesis
      by (cases "vj_vm_cid j") (simp_all add: vm_complete_def VmEntry_of_json_def entries(1) required_def)
  next
    case (Some es)
    show ?thesis
    proof (cases "list_all (\<lambda>(_, p). policy_complete p) es")
      case True
      with Some show ?thesis
        by (cases "vj_vm_cid j")
          (simp_all add: vm_complete_def vm_value_def VmEntry_of_json_def entries(2) required_def)
    next
      case False
      with Some entries(3) [OF False] show ?thesis by (auto simp: vm_complete_def VmEntry_of_json_def)
    qed
  qed
qed

lemma host_reads: "reads_complete host_complete host_value (HostConfig_of_json missing)"
  unfolding reads_complete_def
proof
  fix j
  note entries = read_entries_complete [OF vm_reads [of missing]]
  note defs = host_complete_def host_value_def HostConfig_of_json_def required_def defaulted_def
    host_default_server_port_def default_validity_days_def default_peer_port_def
  show "if host_complete j then HostConfig_of_json missing j = Ok (host_value j)
    else (\<exists>e. HostConfig_of_json missing j = Err e)"
  proof (cases "hj_vms j")
    case None
    then show ?thesis
      by (cases "hj_ca_cert_path j"; cases "hj_ca_key_path j") (simp_all add: defs entries(1))
  next
    case (Some es)
    show ?thesis
    proof (cases "list_all (\<lambda>(_, v). vm_complete v) es")
      case True
      with Some show ?thesis
        by (cases "hj_ca_cert_path j"; cases "hj_ca_key_path j") (simp_all add: defs entries(2))
    next
      case False
      with Some entries(3) [OF False] show ?thesis by (auto simp: host_complete_def HostConfig_of_json_def)
    qed
  qed
qed

section \<open>Properties\<close>

text \<open>The server starts with a configuration file exactly when no required field is missing at any level
  and the server port is below 1000; then every field has the value in the file or its declared
  default. A policy without \<open>vms\<close>, a VM without \<open>entities\<close> and an entity without \<open>caps\<close> are refused,
  they do not count as empty.\<close>

theorem host_config_loads:
  assumes "read_to_string p s = (Ok data, s')" and "parse_text J data = Ok j"
  shows "if host_complete j \<and> unat (hc_server_port (host_value j)) < 1000
    then HostConfig_from_file J p s = (Ok (host_value j), s')
    else (\<exists>e. HostConfig_from_file J p s = (Err e, s'))"
proof (cases "host_complete j")
  case True
  with reads_completeD(1) [OF host_reads] have
    "HostConfig_of_json (missing_field_msg J data) j = Ok (host_value j)" by blast
  with assms True show ?thesis
    by (simp add: HostConfig_from_file_def res_simps word_le_nat_alt)
next
  case False
  with reads_completeD(2) [OF host_reads] obtain e where
    "HostConfig_of_json (missing_field_msg J data) j = Err e" by blast
  with assms False show ?thesis by (simp add: HostConfig_from_file_def res_simps)
qed

theorem host_config_loads_witness:
  "\<exists>e s'. HostConfig_from_file
      \<lparr>parse_text = (\<lambda>_. Ok \<lparr>hj_ca_cert_path = Some [''c''], hj_ca_key_path = Some [''k''], hj_server_port = None,
         hj_cert_validity_days = None, hj_vms = None, hj_peer_port = None\<rparr>), missing_field_msg = (\<lambda>_ n. n)\<rparr>
      [''f''] \<lparr>fs_nodes = [[''f''] \<mapsto> Reg \<lparr>f_data = [], f_mode = 0, f_uid = 0, f_gid = 0\<rparr>],
        fs_umask = 0, fs_faults = []\<rparr> = (Err e, s')"
proof -
  let ?s = "\<lparr>fs_nodes = [[''f''] \<mapsto> Reg \<lparr>f_data = [], f_mode = 0, f_uid = 0, f_gid = 0\<rparr>],
        fs_umask = 0, fs_faults = []\<rparr> :: fs"
  have "read_to_string [''f''] ?s = (Ok [], ?s)"
    by (rule read_to_string_runs [where f = "\<lparr>f_data = [], f_mode = 0, f_uid = 0, f_gid = 0\<rparr>"])
      (simp_all add: no_faults_def from_utf8_ascii [of "[]", simplified])
  from host_config_loads [OF this, of "\<lparr>parse_text = (\<lambda>_. Ok \<lparr>hj_ca_cert_path = Some [''c''],
      hj_ca_key_path = Some [''k''], hj_server_port = None, hj_cert_validity_days = None, hj_vms = None,
      hj_peer_port = None\<rparr>), missing_field_msg = (\<lambda>_ n. n)\<rparr>"]
  show ?thesis by (auto simp: host_complete_def)
qed

end
