(* ===== verification/Policy.thy ===== *)
theory Policy
  imports Host_Config
begin

text \<open>Policy resolution (\<open>policy.rs\<close>): VM name and entity to capabilities.\<close>

record PolicyDecision =
  pd_vm_name :: string
  pd_vm_cid :: u32
  pd_caps :: "Capability list"
  pd_validity_days :: u32

definition resolve :: "HostConfig \<Rightarrow> string \<Rightarrow> string \<Rightarrow> PolicyDecision option" where
  "resolve config vm_name entity =
     Option.bind (hc_vms config vm_name) (\<lambda>vm_entry.
     Option.bind (vm_entities vm_entry entity) (\<lambda>policy.
     Some \<lparr>pd_vm_name = vm_name, pd_vm_cid = vm_cid vm_entry, pd_caps = po_caps policy,
           pd_validity_days = (case po_validity_days policy of
             None \<Rightarrow> hc_cert_validity_days config | Some d \<Rightarrow> d)\<rparr>))"

lemma resolve_Some_iff:
  "resolve config vm entity = Some d \<longleftrightarrow>
     (\<exists>e p. hc_vms config vm = Some e \<and> vm_entities e entity = Some p \<and>
        d = \<lparr>pd_vm_name = vm, pd_vm_cid = vm_cid e, pd_caps = po_caps p,
             pd_validity_days = (case po_validity_days p of
               None \<Rightarrow> hc_cert_validity_days config | Some d \<Rightarrow> d)\<rparr>)"
  by (auto simp: resolve_def bind_eq_Some_conv)

lemma resolve_None_iff:
  "resolve config vm entity = None \<longleftrightarrow>
     (case hc_vms config vm of None \<Rightarrow> True | Some e \<Rightarrow> vm_entities e entity = None)"
  by (simp add: resolve_def bind_eq_None_conv split: option.split)

text \<open>The decision is about the VM that was asked for.\<close>

lemma resolve_vm_name: "resolve config vm entity = Some d \<Longrightarrow> pd_vm_name d = vm"
  by (auto simp: resolve_Some_iff)

end
