(* ===== verification/Codec.thy ===== *)
theory Codec
  imports Wire Length_Prefix Rust_Str
begin

text \<open>
  Length-prefixed JSON frames over an asynchronous byte stream (\<open>codec.rs\<close>), and the stream the
  frames travel on. A stream is seen from one end: \<open>s_in\<close> is what the peer will have sent before it
  closes, \<open>s_out\<close> what has been written so far. Writing may fail: \<open>s_room\<close> is the number of bytes
  the transport still accepts (\<open>None\<close>: no limit), and \<open>s_flush_err\<close> the error of a flush, if it
  fails. \<open>read_exact\<close>, \<open>write_all\<close> and \<open>flush\<close> follow the contract of \<open>AsyncReadExt\<close> and
  \<open>AsyncWriteExt\<close>; their error texts are fields of the stream. A peer that neither sends nor closes
  makes the code wait, which is not an outcome of this model.
\<close>

section \<open>Streams\<close>

record stream =
  s_in :: bytes
  s_out :: bytes
  s_room :: "nat option"
  s_flush_err :: "string option"
  s_eof_msg :: string
  s_write_msg :: string

definition read_exact :: "nat \<Rightarrow> (stream, bytes, anyhow) io" where
  "read_exact n st =
     (if n \<le> length (s_in st)
      then (Ok (take n (s_in st)), st\<lparr>s_in := drop n (s_in st)\<rparr>)
      else (Err (Msg (s_eof_msg st)), st\<lparr>s_in := []\<rparr>))"

definition write_all :: "bytes \<Rightarrow> (stream, unit, anyhow) io" where
  "write_all bs st =
     (case s_room st of
        None \<Rightarrow> (Ok (), st\<lparr>s_out := s_out st @ bs\<rparr>)
      | Some n \<Rightarrow>
          if length bs \<le> n
          then (Ok (), st\<lparr>s_out := s_out st @ bs, s_room := Some (n - length bs)\<rparr>)
          else (Err (Msg (s_write_msg st)), st\<lparr>s_out := s_out st @ take n bs, s_room := Some 0\<rparr>))"

definition flush :: "(stream, unit, anyhow) io" where
  "flush st = (case s_flush_err st of None \<Rightarrow> (Ok (), st) | Some m \<Rightarrow> (Err (Msg m), st))"

text \<open>A stream that accepts everything.\<close>

definition healthy :: "stream \<Rightarrow> bool" where
  "healthy st \<longleftrightarrow> s_room st = None \<and> s_flush_err st = None"

section \<open>Frames\<close>

definition MAX_MSG_BYTES :: nat where
  "MAX_MSG_BYTES = 4 * 1024 * 1024"

definition u32_to_be_bytes :: "u32 \<Rightarrow> bytes" where
  "u32_to_be_bytes w = [ucast (drop_bit 24 w), ucast (drop_bit 16 w), ucast (drop_bit 8 w), ucast w]"

fun u32_from_be_bytes :: "bytes \<Rightarrow> u32" where
  "u32_from_be_bytes [a, b, c, d] =
     push_bit 24 (ucast a) OR push_bit 16 (ucast b) OR push_bit 8 (ucast c) OR ucast d"
| "u32_from_be_bytes _ = 0"

definition send_json :: "'a serde \<Rightarrow> 'a \<Rightarrow> (stream, unit, anyhow) io" where
  "send_json J value =
     io_bind (io_lift (map_err Msg (to_vec J value))) (\<lambda>payload.
       let len = (of_nat (length payload) :: u32) in
       io_bind (write_all (u32_to_be_bytes len)) (\<lambda>_.
       io_bind (write_all payload) (\<lambda>_.
       flush)))"

definition frame_too_large :: "nat \<Rightarrow> string" where
  "frame_too_large len =
     ''incoming frame too large: '' @ show_nat len @ '' bytes (max '' @ show_nat MAX_MSG_BYTES @ '')''"

definition recv_json :: "'a serde \<Rightarrow> (stream, 'a, anyhow) io" where
  "recv_json J =
     io_bind (read_exact 4) (\<lambda>len_buf.
       let len = unat (u32_from_be_bytes len_buf) in
       if len > MAX_MSG_BYTES then io_lift (Err (Msg (frame_too_large len)))
       else io_bind (read_exact len) (\<lambda>buf.
         io_lift (map_err Msg (from_slice J buf))))"

section \<open>The frame header as a length prefix\<close>

definition put_frame_len :: "nat \<Rightarrow> bytes" where
  "put_frame_len n = u32_to_be_bytes (of_nat n)"

definition get_frame_len :: "bytes \<Rightarrow> (nat \<times> bytes) option" where
  "get_frame_len bs =
     (let n = unat (u32_from_be_bytes (take 4 bs)) in
      if length bs < 4 \<or> n > MAX_MSG_BYTES then None else Some (n, drop 4 bs))"

lemma length_to_be_bytes [simp]: "length (u32_to_be_bytes w) = 4"
  by (simp add: u32_to_be_bytes_def)

lemma be_bytes_inverse [simp]: "u32_from_be_bytes (u32_to_be_bytes w) = w"
proof (rule bit_word_eqI)
  fix n assume "n < LENGTH(32)"
  then have "n < 32" by simp
  then have "n < 8 \<or> 8 \<le> n \<and> n < 16 \<or> 16 \<le> n \<and> n < 24 \<or> 24 \<le> n \<and> n < 32"
    by linarith
  then show "bit (u32_from_be_bytes (u32_to_be_bytes w)) n \<longleftrightarrow> bit w n"
    by (elim disjE conjE) (auto simp: u32_to_be_bytes_def bit_simps)
qed

lemma unat_u32_of_nat: "n < 2 ^ 32 \<Longrightarrow> unat (of_nat n :: u32) = n"
  by (simp add: unat_of_nat)

lemma unat_frame_len [simp]: "n \<le> MAX_MSG_BYTES \<Longrightarrow> unat (of_nat n :: u32) = n"
  by (rule unat_u32_of_nat) (simp add: MAX_MSG_BYTES_def)

interpretation frame_hdr: length_prefix put_frame_len get_frame_len "Suc MAX_MSG_BYTES"
  by unfold_locales (simp add: put_frame_len_def get_frame_len_def Let_def)

section \<open>Behaviour of the stream operations\<close>

lemma write_all_healthy [res_simps]:
  "healthy st \<Longrightarrow> write_all bs st = (Ok (), st\<lparr>s_out := s_out st @ bs\<rparr>)"
  by (simp add: write_all_def healthy_def)

lemma flush_healthy [res_simps]: "healthy st \<Longrightarrow> flush st = (Ok (), st)"
  by (simp add: flush_def healthy_def)

lemma healthy_update [simp]:
  "healthy (st\<lparr>s_out := x\<rparr>) = healthy st"
  "healthy (st\<lparr>s_in := x\<rparr>) = healthy st"
  by (simp_all add: healthy_def)

lemma read_exact_append [res_simps]:
  "s_in st = xs @ ys \<Longrightarrow> n = length xs \<Longrightarrow> read_exact n st = (Ok xs, st\<lparr>s_in := ys\<rparr>)"
  by (simp add: read_exact_def)

lemma send_json_healthy:
  assumes "healthy st" and "to_vec J v = Ok payload"
  shows "send_json J v st = (Ok (), st\<lparr>s_out := s_out st @ lp_frame put_frame_len payload\<rparr>)"
  using assms by (simp add: send_json_def lp_frame_def put_frame_len_def res_simps Let_def)

lemma send_json_unencodable:
  "to_vec J v = Err e \<Longrightarrow> send_json J v st = (Err (Msg e), st)"
  by (simp add: send_json_def res_simps)

text \<open>A complete frame is read through the contract of the frame header.\<close>

lemma recv_json_unframe:
  assumes "lp_unframe get_frame_len (s_in st) = Some (payload, rest)"
  shows "recv_json J st = (map_err Msg (from_slice J payload), st\<lparr>s_in := rest\<rparr>)"
  using assms
  by (auto simp: recv_json_def read_exact_def res_simps Let_def lp_unframe_def get_frame_len_def
      split: if_splits option.splits)

lemma recv_json_frame:
  assumes "s_in st = lp_frame put_frame_len payload @ rest" and "length payload \<le> MAX_MSG_BYTES"
  shows "recv_json J st = (map_err Msg (from_slice J payload), st\<lparr>s_in := rest\<rparr>)"
  using assms frame_hdr.unframe_frame [of payload rest] by (intro recv_json_unframe) simp

lemma send_json_frame_in:
  "s_in (snd (send_json J v st)) = s_in st"
  by (auto simp: send_json_def io_bind_def io_lift_def write_all_def flush_def Let_def
      split: res.splits prod.splits option.splits if_splits)

lemma be_bytes_surj: "u32_to_be_bytes (u32_from_be_bytes [a, b, c, d]) = [a, b, c, d]"
proof -
  have "ucast (drop_bit 24 (u32_from_be_bytes [a, b, c, d])) = a"
    "ucast (drop_bit 16 (u32_from_be_bytes [a, b, c, d])) = b"
    "ucast (drop_bit 8 (u32_from_be_bytes [a, b, c, d])) = c"
    "ucast (u32_from_be_bytes [a, b, c, d]) = d"
    by (rule bit_word_eqI; simp add: bit_simps; auto dest: bit_imp_le_length simp: not_less)+
  then show ?thesis by (simp add: u32_to_be_bytes_def)
qed

text \<open>The header is a big-endian number.\<close>

definition header_value :: "byte \<Rightarrow> byte \<Rightarrow> byte \<Rightarrow> byte \<Rightarrow> nat" where
  "header_value a b c d = ((unat a * 256 + unat b) * 256 + unat c) * 256 + unat d"

lemma from_be_bytes_value: "unat (u32_from_be_bytes [a, b, c, d]) = header_value a b c d"
proof -
  have "u32_from_be_bytes [a, b, c, d] =
      push_bit 8 (push_bit 8 (push_bit 8 (of_nat (unat a)) OR ucast b) OR ucast c) OR ucast d"
    by (simp add: push_bit_or or.assoc)
  also have "\<dots> = of_nat (header_value a b c d)"
    unfolding shift_in_byte header_value_def ..
  finally have "u32_from_be_bytes [a, b, c, d] = of_nat (header_value a b c d)" .
  moreover have "unat a < 256" "unat b < 256" "unat c < 256" "unat d < 256"
    using unsigned_less [of a, where 'a = nat] unsigned_less [of b, where 'a = nat]
      unsigned_less [of c, where 'a = nat] unsigned_less [of d, where 'a = nat] by simp_all
  then have "header_value a b c d < 2 ^ 32" by (simp add: header_value_def)
  ultimately show ?thesis by (simp add: unat_of_nat)
qed

lemma unframe_layout:
  "lp_unframe get_frame_len bs = Some (payload, rest) \<longleftrightarrow>
     (\<exists>a b c d. bs = [a, b, c, d] @ payload @ rest \<and> length payload = header_value a b c d \<and>
        length payload \<le> 4194304)"
proof (cases "length bs < 4")
  case True
  then show ?thesis by (auto simp: lp_unframe_def get_frame_len_def Let_def)
next
  case False
  then obtain a b c d more where bs: "bs = a # b # c # d # more"
    by (auto simp: numeral_eq_Suc Suc_le_length_iff not_less)
  have "(header_value a b c d \<le> length more \<and> take (header_value a b c d) more = payload \<and>
      drop (header_value a b c d) more = rest) \<longleftrightarrow> more = payload @ rest \<and> length payload = header_value a b c d"
    by (auto simp: append_eq_conv_conj)
  then show ?thesis
    by (auto simp: bs lp_unframe_def get_frame_len_def Let_def from_be_bytes_value MAX_MSG_BYTES_def
        simp del: u32_from_be_bytes.simps)
qed

lemma be_bytes_inverse_take:
  assumes "4 \<le> length bs"
  shows "u32_to_be_bytes (u32_from_be_bytes (take 4 bs)) = take 4 bs"
proof -
  from assms obtain a b c d rest where "bs = a # b # c # d # rest"
    by (auto simp: numeral_eq_Suc Suc_le_length_iff)
  then have "take 4 bs = [a, b, c, d]" by simp
  then show ?thesis by (simp only: be_bytes_surj)
qed

text \<open>What a successful receive consumed is one frame, and nothing else.\<close>

lemma recv_json_Ok_imp_frame:
  assumes "recv_json J st = (Ok v, st')"
  obtains payload rest where "s_in st = lp_frame put_frame_len payload @ rest"
    and "length payload \<le> MAX_MSG_BYTES" and "from_slice J payload = Ok v"
    and "st' = st\<lparr>s_in := rest\<rparr>"
proof -
  define n where "n = unat (u32_from_be_bytes (take 4 (s_in st)))"
  define payload where "payload = take n (drop 4 (s_in st))"
  from assms have len: "4 \<le> length (s_in st)" "n \<le> MAX_MSG_BYTES" "n \<le> length (drop 4 (s_in st))"
    and v: "from_slice J payload = Ok v"
    and st': "st' = st\<lparr>s_in := drop n (drop 4 (s_in st))\<rparr>"
    by (auto simp: recv_json_def n_def payload_def read_exact_def io_inv Let_def
        split: if_splits)
  have "u32_to_be_bytes (of_nat n) = take 4 (s_in st)"
    using len(1) by (simp add: n_def be_bytes_inverse_take)
  moreover have "length payload = n"
    using len(3) by (simp add: payload_def)
  ultimately have "s_in st = lp_frame put_frame_len payload @ drop n (drop 4 (s_in st))"
    by (simp add: lp_frame_def put_frame_len_def payload_def del: drop_drop)
  with len(2) v st' \<open>length payload = n\<close> show thesis by (intro that) simp_all
qed

section \<open>Properties\<close>

text \<open>A concrete encoder for the witnesses: the JSON of a string is the string itself.\<close>

definition text_serde :: "string serde" where
  "text_serde = \<lparr>to_vec = (\<lambda>s. Ok (as_bytes s)), from_slice = (\<lambda>bs. Ok (str_of_bytes bs))\<rparr>"

definition empty_stream :: stream where
  "empty_stream = \<lparr>s_in = [], s_out = [], s_room = None, s_flush_err = None,
     s_eof_msg = ''early eof'', s_write_msg = ''broken pipe''\<rparr>"

lemma text_serde_law: "serde_law text_serde s (as_bytes s)"
  by (simp add: serde_law_def text_serde_def)

lemma empty_stream_simps [simp]:
  "healthy empty_stream" "s_in empty_stream = []" "s_out empty_stream = []"
  by (simp_all add: empty_stream_def healthy_def)

text \<open>A value sent by \<open>send_json\<close> is what \<open>recv_json\<close> reads at the other end, whatever bytes
  follow the frame, and the bytes that follow stay unread.\<close>

theorem recv_json_send_json:
  assumes "serde_law J v payload" and "length payload \<le> MAX_MSG_BYTES"
    and "healthy st" and "s_out st = []"
    and "s_in rd = s_out (snd (send_json J v st)) @ rest"
  shows "fst (send_json J v st) = Ok () \<and> recv_json J rd = (Ok v, rd\<lparr>s_in := rest\<rparr>)"
  using assms by (simp add: serde_law_def send_json_healthy recv_json_frame)

theorem recv_json_send_json_witness:
  "fst (send_json text_serde ''ping'' empty_stream) = Ok () \<and>
   recv_json text_serde
     (empty_stream\<lparr>s_in := s_out (snd (send_json text_serde ''ping'' empty_stream)) @ [1, 2]\<rparr>)
   = (Ok ''ping'', empty_stream\<lparr>s_in := [1, 2]\<rparr>)"
  using recv_json_send_json [OF text_serde_law, of "''ping''" empty_stream
      "empty_stream\<lparr>s_in := s_out (snd (send_json text_serde ''ping'' empty_stream)) @ [1, 2]\<rparr>"
      "[1, 2]"]
  by (simp add: MAX_MSG_BYTES_def)

text \<open>C20: \<open>recv_json\<close> implements the abstract frame reader: it returns a value exactly when the
  input starts with one complete frame of at most \<open>MAX_MSG_BYTES\<close> bytes whose payload decodes to
  that value, and then it has consumed that frame and nothing more. And a frame is what the protocol
  says: four bytes that are the length of the payload, the most significant byte first, the payload,
  of at most four megabytes, and whatever follows.\<close>

theorem recv_json_refines_unframe:
  "(recv_json J st = (Ok v, st') \<longleftrightarrow>
     (\<exists>payload rest. lp_unframe get_frame_len (s_in st) = Some (payload, rest)
        \<and> from_slice J payload = Ok v \<and> st' = st\<lparr>s_in := rest\<rparr>)) \<and>
   (lp_unframe get_frame_len (s_in st) = Some (payload, rest) \<longleftrightarrow>
     (\<exists>a b c d. s_in st = [a, b, c, d] @ payload @ rest
        \<and> length payload = ((unat a * 256 + unat b) * 256 + unat c) * 256 + unat d
        \<and> length payload \<le> 4194304))"
proof
  show "recv_json J st = (Ok v, st') \<longleftrightarrow>
     (\<exists>payload rest. lp_unframe get_frame_len (s_in st) = Some (payload, rest)
        \<and> from_slice J payload = Ok v \<and> st' = st\<lparr>s_in := rest\<rparr>)"
    by (auto simp: recv_json_def read_exact_def io_inv Let_def lp_unframe_def get_frame_len_def
        split: if_splits option.splits)
qed (rule unframe_layout [unfolded header_value_def])

text \<open>A header that announces more than \<open>MAX_MSG_BYTES\<close> is refused after the four header bytes
  are read, before any buffer of that size is filled; the rest of the input is untouched.\<close>

theorem recv_json_rejects_oversize:
  assumes "s_in st = u32_to_be_bytes w @ rest" and "unat w > MAX_MSG_BYTES"
  shows "recv_json J st = (Err (Msg (frame_too_large (unat w))), st\<lparr>s_in := rest\<rparr>)"
  using assms by (simp add: recv_json_def res_simps)

theorem recv_json_rejects_oversize_witness:
  "recv_json text_serde (empty_stream\<lparr>s_in := u32_to_be_bytes 0xFFFFFFFF @ [7]\<rparr>)
   = (Err (Msg (frame_too_large 4294967295)), empty_stream\<lparr>s_in := [7]\<rparr>)"
  using recv_json_rejects_oversize [of "empty_stream\<lparr>s_in := u32_to_be_bytes 0xFFFFFFFF @ [7]\<rparr>"
      "0xFFFFFFFF" "[7]" text_serde]
  by (simp add: MAX_MSG_BYTES_def)

text \<open>A connection that ends inside a frame, in the header or in the payload, is an error and
  never a value.\<close>

theorem recv_json_truncated:
  assumes "length payload \<le> MAX_MSG_BYTES" and "k < 4 + length payload"
    and "s_in st = take k (lp_frame put_frame_len payload)"
  shows "recv_json J st = (Err (Msg (s_eof_msg st)), st\<lparr>s_in := []\<rparr>)"
proof (cases "k < 4")
  case True
  with assms show ?thesis
    by (simp add: recv_json_def read_exact_def res_simps lp_frame_def put_frame_len_def)
next
  case False
  with assms(3) have input: "s_in st = u32_to_be_bytes (of_nat (length payload)) @ take (k - 4) payload"
    by (simp add: lp_frame_def put_frame_len_def)
  show ?thesis
    using assms(1,2) False input by (simp add: recv_json_def res_simps read_exact_def)
qed

theorem recv_json_truncated_witness:
  "recv_json text_serde (empty_stream\<lparr>s_in := take 6 (lp_frame put_frame_len [1, 2, 3])\<rparr>)
   = (Err (Msg ''early eof''), empty_stream\<lparr>s_in := []\<rparr>)"
  using recv_json_truncated [of "[1, 2, 3]" 6
      "empty_stream\<lparr>s_in := take 6 (lp_frame put_frame_len [1, 2, 3])\<rparr>" text_serde]
  by (simp add: MAX_MSG_BYTES_def empty_stream_def)

text \<open>The size limit is checked by the receiver only: a payload above \<open>MAX_MSG_BYTES\<close> is sent
  without an error, and the peer then refuses it.\<close>

theorem send_json_unchecked_size:
  assumes "to_vec J v = Ok payload" and "length payload > MAX_MSG_BYTES"
    and "length payload < 2 ^ 32" and "healthy st" and "s_out st = []"
    and "s_in rd = s_out (snd (send_json J v st))"
  shows "fst (send_json J v st) = Ok () \<and>
    recv_json J rd = (Err (Msg (frame_too_large (length payload))), rd\<lparr>s_in := payload\<rparr>)"
  using assms
  by (simp add: send_json_healthy lp_frame_def put_frame_len_def recv_json_def res_simps
      unat_u32_of_nat)

theorem send_json_unchecked_size_witness:
  "fst (send_json text_serde (replicate 4194305 CHR ''x'') empty_stream) = Ok () \<and>
    recv_json text_serde (empty_stream\<lparr>s_in := s_out (snd (send_json text_serde
        (replicate 4194305 CHR ''x'') empty_stream))\<rparr>)
    = (Err (Msg (frame_too_large 4194305)),
       empty_stream\<lparr>s_in := as_bytes (replicate 4194305 CHR ''x'')\<rparr>)"
  using send_json_unchecked_size [of text_serde "replicate 4194305 CHR ''x''"
      "as_bytes (replicate 4194305 CHR ''x'')" empty_stream
      "empty_stream\<lparr>s_in := s_out (snd (send_json text_serde (replicate 4194305 CHR ''x'') empty_stream))\<rparr>"]
  by (simp add: MAX_MSG_BYTES_def text_serde_def)

end
