(* ===== verification/Handler.thy ===== *)
theory Handler
  imports Policy Signing Codec
begin

text \<open>
  One connection of the server (\<open>handler.rs\<close>): read a request, decide, sign, answer. The JSON
  encoders of the two messages, the libraries and the clock and randomness of the call are arguments.
\<close>

record ('k, 'kp, 'cert, 'csr) server_env =
  se_request_json :: "CertRequest serde"
  se_response_json :: "CertResponse serde"
  se_jwt :: "'k jwt_lib"
  se_rcgen :: "('kp, 'cert, 'csr) rcgen_lib"

definition version_msg :: "u32 \<Rightarrow> string" where
  "version_msg v =
     ''unsupported protocol version '' @ show_u32 v @ '' (expected '' @ show_u32 PROTOCOL_VERSION @ '')''"

definition not_authorised_msg :: "string \<Rightarrow> string \<Rightarrow> string" where
  "not_authorised_msg vm entity =
     ''VM '' @ squote @ vm @ squote @ '' / entity '' @ squote @ entity @ squote @ '' not authorised''"

definition signing_request :: "CertRequest \<Rightarrow> PolicyDecision \<Rightarrow> u32 \<Rightarrow> SigningRequest" where
  "signing_request req decision peer_cid = \<lparr>
     sr_csr_pem = rq_csr_pem req, sr_entity = rq_entity req, sr_vm_name = pd_vm_name decision,
     sr_cid = peer_cid, sr_claims = pd_caps decision, sr_validity_days = pd_validity_days decision\<rparr>"

definition handle_inner ::
  "('k, 'kp, 'cert, 'csr) server_env \<Rightarrow> call_env \<Rightarrow> u32 \<Rightarrow> HostConfig \<Rightarrow> CertificateAuthority
     \<Rightarrow> (stream, unit, anyhow) io" where
  "handle_inner E env peer_cid config ca =
     io_bind (recv_json (se_request_json E)) (\<lambda>req.
     if rq_version req \<noteq> PROTOCOL_VERSION
     then send_json (se_response_json E) (RespError (version_msg (rq_version req)))
     else case resolve config (rq_vm_name req) (rq_entity req) of
       None \<Rightarrow>
         send_json (se_response_json E) (RespError (not_authorised_msg (rq_vm_name req) (rq_entity req)))
     | Some decision \<Rightarrow>
         if pd_vm_cid decision \<noteq> peer_cid then io_lift (Err (Msg ''CID verification failed''))
         else
           io_bind (io_lift (map_err (\<lambda>e. Msg (''signing failed: '' @ ca_error_to_string e))
             (sign_csr (se_jwt E) (se_rcgen E) env ca (signing_request req decision peer_cid))))
             (\<lambda>cert_pem. send_json (se_response_json E) (RespOk cert_pem (ca_cert_pem ca))))"

text \<open>The task of a connection: an error of the inner handler is answered, as far as possible.\<close>

definition handle_connection ::
  "('k, 'kp, 'cert, 'csr) server_env \<Rightarrow> call_env \<Rightarrow> u32 \<Rightarrow> HostConfig \<Rightarrow> CertificateAuthority
     \<Rightarrow> (stream, unit, anyhow) io" where
  "handle_connection E env peer_cid config ca st =
     (case handle_inner E env peer_cid config ca st of
        (Ok _, st') \<Rightarrow> (Ok (), st')
      | (Err e, st') \<Rightarrow> io_ignore (send_json (se_response_json E) (RespError (anyhow_to_string e))) st'
      | (Panic, st') \<Rightarrow> (Panic, st'))"

section \<open>The specification of an answer\<close>

text \<open>Who may get a certificate: the policy entry that authorises a request from a peer CID.\<close>

definition authorised :: "HostConfig \<Rightarrow> u32 \<Rightarrow> CertRequest \<Rightarrow> PolicyDecision \<Rightarrow> bool" where
  "authorised config peer_cid req decision \<longleftrightarrow>
     rq_version req = PROTOCOL_VERSION \<and>
     resolve config (rq_vm_name req) (rq_entity req) = Some decision \<and> pd_vm_cid decision = peer_cid"

definition refusal :: "HostConfig \<Rightarrow> u32 \<Rightarrow> CertRequest \<Rightarrow> string option" where
  "refusal config peer_cid req =
     (if rq_version req \<noteq> PROTOCOL_VERSION then Some (version_msg (rq_version req))
      else case resolve config (rq_vm_name req) (rq_entity req) of
        None \<Rightarrow> Some (not_authorised_msg (rq_vm_name req) (rq_entity req))
      | Some decision \<Rightarrow> if pd_vm_cid decision \<noteq> peer_cid then Some ''CID verification failed'' else None)"

text \<open>The answer to a request: a refusal, a signing error, a certificate, or none when signing panics.\<close>

definition answer ::
  "('k, 'kp, 'cert, 'csr) server_env \<Rightarrow> call_env \<Rightarrow> u32 \<Rightarrow> HostConfig \<Rightarrow> CertificateAuthority
     \<Rightarrow> CertRequest \<Rightarrow> CertResponse option" where
  "answer E env peer_cid config ca req =
     (case refusal config peer_cid req of
        Some msg \<Rightarrow> Some (RespError msg)
      | None \<Rightarrow>
          (let decision = the (resolve config (rq_vm_name req) (rq_entity req)) in
           case sign_csr (se_jwt E) (se_rcgen E) env ca (signing_request req decision peer_cid) of
             Ok cert_pem \<Rightarrow> Some (RespOk cert_pem (ca_cert_pem ca))
           | Err e \<Rightarrow> Some (RespError (''signing failed: '' @ ca_error_to_string e))
           | Panic \<Rightarrow> None))"

section \<open>Lemmas\<close>

lemma refusal_None_iff: "refusal config cid req = None \<longleftrightarrow> (\<exists>d. authorised config cid req d)"
  by (auto simp: refusal_def authorised_def split: option.splits)

lemma refused_cases:
  assumes "refusal config cid req = Some msg"
  obtains (version) "rq_version req \<noteq> PROTOCOL_VERSION" "msg = version_msg (rq_version req)"
    | (unknown) "rq_version req = PROTOCOL_VERSION"
      "resolve config (rq_vm_name req) (rq_entity req) = None"
      "msg = not_authorised_msg (rq_vm_name req) (rq_entity req)"
    | (cid) d where "rq_version req = PROTOCOL_VERSION"
      "resolve config (rq_vm_name req) (rq_entity req) = Some d" "pd_vm_cid d \<noteq> cid"
      "msg = ''CID verification failed''"
  using assms by (auto simp: refusal_def split: if_splits option.splits)

lemma answer_Ok_iff:
  "answer E env cid config ca req = Some (RespOk pem ca_pem) \<longleftrightarrow>
     (\<exists>d. authorised config cid req d \<and> ca_pem = ca_cert_pem ca \<and>
        sign_csr (se_jwt E) (se_rcgen E) env ca (signing_request req d cid) = Ok pem)"
  by (auto simp: answer_def refusal_def authorised_def Let_def split: option.splits if_splits res.splits)

text \<open>The same over the policy's tables, with everything that enters the certificate.\<close>

lemma answer_certificate_iff:
  "answer E env cid config ca req = Some (RespOk pem ca_pem) \<longleftrightarrow>
     (\<exists>e p. rq_version req = PROTOCOL_VERSION \<and> hc_vms config (rq_vm_name req) = Some e \<and>
        vm_entities e (rq_entity req) = Some p \<and> vm_cid e = cid \<and> ca_pem = ca_cert_pem ca \<and>
        sign_csr (se_jwt E) (se_rcgen E) env ca
          \<lparr>sr_csr_pem = rq_csr_pem req, sr_entity = rq_entity req, sr_vm_name = rq_vm_name req,
           sr_cid = cid, sr_claims = po_caps p,
           sr_validity_days = (case po_validity_days p of None \<Rightarrow> hc_cert_validity_days config | Some n \<Rightarrow> n)\<rparr>
          = Ok pem)"
  by (auto simp: answer_Ok_iff authorised_def resolve_Some_iff signing_request_def)

text \<open>The handler gives the specified answer, and takes one request off the stream.\<close>

lemma handle_inner_after_request:
  assumes "recv_json (se_request_json E) st = (Ok req, st')"
  shows "handle_inner E env cid config ca st =
    (case refusal config cid req of
       Some msg \<Rightarrow>
         if msg = ''CID verification failed'' then (Err (Msg msg), st')
         else send_json (se_response_json E) (RespError msg) st'
     | None \<Rightarrow> (case answer E env cid config ca req of
         Some (RespOk pem ca_pem) \<Rightarrow> send_json (se_response_json E) (RespOk pem ca_pem) st'
       | Some (RespError msg) \<Rightarrow> (Err (Msg msg), st')
       | None \<Rightarrow> (Panic, st')))"
proof -
  have differ: "version_msg v \<noteq> ''CID verification failed''"
    "not_authorised_msg vm entity \<noteq> ''CID verification failed''" for v vm entity
    by (simp_all add: version_msg_def not_authorised_msg_def)
  show ?thesis
  proof (cases "refusal config cid req")
    case (Some msg)
    then show ?thesis
      by (cases rule: refused_cases)
        (use assms differ Some in \<open>simp_all add: handle_inner_def res_simps\<close>)
  next
    case None
    then obtain d where d: "authorised config cid req d" by (auto simp: refusal_None_iff)
    show ?thesis
      by (cases "sign_csr (se_jwt E) (se_rcgen E) env ca (signing_request req d cid)")
        (use assms None d in \<open>simp_all add: handle_inner_def res_simps authorised_def answer_def Let_def\<close>)
  qed
qed

lemma handle_connection_answers:
  assumes "recv_json (se_request_json E) st = (Ok req, st')" and "healthy st'"
    and "answer E env cid config ca req = Some resp" and "to_vec (se_response_json E) resp = Ok bytes"
  shows "handle_connection E env cid config ca st =
    (Ok (), st'\<lparr>s_out := s_out st' @ lp_frame put_frame_len bytes\<rparr>)"
proof -
  have sent: "send_json (se_response_json E) resp st' =
      (Ok (), st'\<lparr>s_out := s_out st' @ lp_frame put_frame_len bytes\<rparr>)"
    using assms(2,4) by (rule send_json_healthy)
  note inner = handle_inner_after_request [OF assms(1), of env cid config ca]
  show ?thesis
  proof (cases "refusal config cid req")
    case (Some msg)
    then have "resp = RespError msg" using assms(3) by (simp add: answer_def)
    with Some inner sent show ?thesis
      by (cases "msg = ''CID verification failed''")
        (simp_all add: handle_connection_def res_simps)
  next
    case None
    with inner sent assms(3) show ?thesis
      by (cases resp) (simp_all add: handle_connection_def res_simps)
  qed
qed


text \<open>A request that is not authorised, or that cannot be read, gets an answer the CA has no part in.\<close>

lemma unauthorised_connection_same:
  assumes "\<And>req st'. recv_json (se_request_json E) st = (Ok req, st') \<Longrightarrow>
      \<not> (\<exists>d. authorised config cid req d)"
    and "se_request_json E' = se_request_json E" and "se_response_json E' = se_response_json E"
  shows "handle_connection E env cid config ca st = handle_connection E' env' cid config ca' st"
proof -
  obtain r st' where recv: "recv_json (se_request_json E) st = (r, st')" by fastforce
  have "handle_inner E env cid config ca st = handle_inner E' env' cid config ca' st"
  proof (cases r)
    case (Ok req)
    with assms(1) recv obtain msg where "refusal config cid req = Some msg"
      using refusal_None_iff [of config cid req] by (cases "refusal config cid req") auto
    then show ?thesis
      using handle_inner_after_request [of E st req st' env cid config ca]
        handle_inner_after_request [of E' st req st' env' cid config ca'] recv Ok assms(2,3)
      by simp
  qed (use recv assms(2) in \<open>simp_all add: handle_inner_def res_simps\<close>)
  then show ?thesis unfolding handle_connection_def assms(3) by simp
qed

text \<open>Everything that a connection can write to a stream that works: nothing, or one frame.\<close>

lemma recv_json_healthy:
  "recv_json J st = (r, st') \<Longrightarrow> healthy st \<Longrightarrow> healthy st' \<and> s_out st' = s_out st"
  by (auto simp: recv_json_def io_bind_def io_lift_def read_exact_def Let_def healthy_def
      split: res.splits if_splits)

lemma frame_nonempty [simp]: "lp_frame put_frame_len bytes \<noteq> []"
  by (simp add: lp_frame_def put_frame_len_def u32_to_be_bytes_def)

lemma frame_body: "lp_frame put_frame_len a = lp_frame put_frame_len b \<Longrightarrow> a = b"
  by (simp add: lp_frame_def put_frame_len_def u32_to_be_bytes_def)

lemma send_json_output:
  assumes "healthy st" and "s_out st = []" and "send_json J v st = (r, st')"
  obtains (sent) bytes where "to_vec J v = Ok bytes" "r = Ok ()" "healthy st'" "s_out st' = lp_frame put_frame_len bytes"
    | (unsent) "\<forall>u. r \<noteq> Ok u" "st' = st"
proof (cases "to_vec J v")
  case (Ok bytes)
  with send_json_healthy [OF assms(1) Ok] assms show ?thesis by (intro sent) auto
qed (use assms(3) unsent in \<open>auto simp: send_json_def res_simps\<close>)

definition error_frame :: "CertResponse serde \<Rightarrow> bytes \<Rightarrow> bool" where
  "error_frame J out \<longleftrightarrow> out = [] \<or> (\<exists>m bytes. to_vec J (RespError m) = Ok bytes \<and> out = lp_frame put_frame_len bytes)"

lemma error_answer_output:
  assumes "healthy st" and "s_out st = []"
  shows "error_frame J (s_out (snd (send_json J (RespError m) st)))"
proof -
  obtain r st' where sent: "send_json J (RespError m) st = (r, st')" by fastforce
  then show ?thesis
    by (rule send_json_output [OF assms]) (use assms sent in \<open>auto simp: error_frame_def\<close>)
qed

lemma inner_error_output:
  assumes "handle_inner E env cid config ca st = (Err e, st')" and "healthy st'" "s_out st' = []"
  shows "error_frame (se_response_json E) (s_out (snd (handle_connection E env cid config ca st)))"
  using assms error_answer_output [OF assms(2,3)] by (simp add: handle_connection_def)

lemma inner_send_output:
  assumes "handle_inner E env cid config ca st = send_json (se_response_json E) resp st'"
    and "healthy st'" "s_out st' = []"
  shows "error_frame (se_response_json E) (s_out (snd (handle_connection E env cid config ca st))) \<or>
    (\<exists>bytes. to_vec (se_response_json E) resp = Ok bytes \<and>
       s_out (snd (handle_connection E env cid config ca st)) = lp_frame put_frame_len bytes)"
proof -
  obtain r st2 where sent: "send_json (se_response_json E) resp st' = (r, st2)" by fastforce
  show ?thesis
  proof (rule send_json_output [OF assms(2,3) sent])
    fix bytes
    assume "to_vec (se_response_json E) resp = Ok bytes" "r = Ok ()" "s_out st2 = lp_frame put_frame_len bytes"
    with assms(1) sent show ?thesis by (simp add: handle_connection_def)
  next
    assume unsent: "\<forall>u. r \<noteq> Ok u" "st2 = st'"
    show ?thesis
    proof (cases r)
      case (Err e)
      then show ?thesis using inner_error_output assms sent unsent by metis
    next
      case Panic
      with assms sent unsent show ?thesis by (simp add: handle_connection_def error_frame_def)
    qed (use unsent in simp)
  qed
qed

text \<open>What the inner handler did with a request that it could read.\<close>

lemma handle_inner_cases:
  assumes "recv_json (se_request_json E) st = (Ok req, st')"
  obtains (failed) e where "handle_inner E env cid config ca st = (Err e, st')"
    | (panic) "handle_inner E env cid config ca st = (Panic, st')"
    | (refused) m where "handle_inner E env cid config ca st = send_json (se_response_json E) (RespError m) st'"
    | (granted) resp where "handle_inner E env cid config ca st = send_json (se_response_json E) resp st'"
        "answer E env cid config ca req = Some resp"
proof (cases "refusal config cid req")
  note inner = handle_inner_after_request [OF assms, of env cid config ca]
  case (Some msg)
  with inner show thesis using failed refused by (auto split: if_splits)
next
  note inner = handle_inner_after_request [OF assms, of env cid config ca]
  case None
  show thesis
  proof (cases "answer E env cid config ca req")
    case (Some resp)
    with inner None show thesis using failed granted [of resp] by (cases resp) auto
  qed (use inner None panic in simp)
qed

lemma connection_output:
  assumes "healthy st" and "s_out st = []"
  shows "error_frame (se_response_json E) (s_out (snd (handle_connection E env cid config ca st))) \<or>
    (\<exists>req st' resp bytes. recv_json (se_request_json E) st = (Ok req, st') \<and>
       answer E env cid config ca req = Some resp \<and> to_vec (se_response_json E) resp = Ok bytes \<and>
       s_out (snd (handle_connection E env cid config ca st)) = lp_frame put_frame_len bytes)"
proof -
  obtain r st' where recv: "recv_json (se_request_json E) st = (r, st')" by fastforce
  with recv_json_healthy [OF recv assms(1)] assms(2) have st': "healthy st'" "s_out st' = []" by simp_all
  have panic: "error_frame (se_response_json E) (s_out (snd (handle_connection E env cid config ca st)))"
    if "handle_inner E env cid config ca st = (Panic, st')"
    using that st' by (simp add: handle_connection_def error_frame_def)
  show ?thesis
  proof (cases r)
    case (Ok req)
    show ?thesis
    proof (rule handle_inner_cases [OF recv [unfolded Ok]])
      fix m
      assume "handle_inner E env cid config ca st = send_json (se_response_json E) (RespError m) st'"
      from inner_send_output [OF this st'] show ?thesis by (auto simp: error_frame_def)
    next
      fix resp
      assume "handle_inner E env cid config ca st = send_json (se_response_json E) resp st'"
        and "answer E env cid config ca req = Some resp"
      with inner_send_output [OF this(1) st'] recv Ok show ?thesis by blast
    qed (use panic inner_error_output st' in blast)+
  next
    case (Err e)
    with recv have "handle_inner E env cid config ca st = (Err e, st')"
      by (simp add: handle_inner_def res_simps)
    then show ?thesis using inner_error_output st' by blast
  next
    case Panic
    with recv panic show ?thesis by (simp add: handle_inner_def res_simps)
  qed
qed

section \<open>Concrete messages for the witnesses\<close>

definition sample_cert_request :: CertRequest where
  "sample_cert_request = \<lparr>rq_version = 1, rq_vm_name = ''peer-vm'', rq_entity = ''peer-service'',
     rq_csr_pem = ''CSR''\<rparr>"

definition request_serde :: "CertRequest serde" where
  "request_serde = \<lparr>to_vec = (\<lambda>_. Ok (as_bytes ''req'')),
     from_slice = (\<lambda>bs. if bs = as_bytes ''req'' then Ok sample_cert_request else Err ''bad request'')\<rparr>"

text \<open>A tag byte, then the message, or the length of the certificate and the two certificates.\<close>

definition encode_response :: "CertResponse \<Rightarrow> bytes" where
  "encode_response r = (case r of
       RespError m \<Rightarrow> 0 # as_bytes m
     | RespOk a b \<Rightarrow> 1 # of_nat (length a) # as_bytes a @ as_bytes b)"

definition decode_response :: "bytes \<Rightarrow> (CertResponse, string) res" where
  "decode_response bs = (case bs of
       [] \<Rightarrow> Err ''no response''
     | t # rest \<Rightarrow>
         if t = 0 then Ok (RespError (str_of_bytes rest))
         else (case rest of
             [] \<Rightarrow> Err ''no certificate''
           | n # xs \<Rightarrow> Ok (RespOk (str_of_bytes (take (unat n) xs)) (str_of_bytes (drop (unat n) xs)))))"

definition response_serde :: "CertResponse serde" where
  "response_serde = \<lparr>to_vec = (\<lambda>r. case r of
       RespOk a b \<Rightarrow> if length a < 256 then Ok (encode_response r) else Err ''too long''
     | RespError m \<Rightarrow> Ok (encode_response r)), from_slice = decode_response\<rparr>"

definition sample_server_env :: "(unit, unit, string, unit) server_env" where
  "sample_server_env = \<lparr>se_request_json = request_serde, se_response_json = response_serde,
     se_jwt = sample_jwt_lib sample_claim, se_rcgen = sample_rcgen\<rparr>"

definition sample_host_config :: HostConfig where
  "sample_host_config = \<lparr>hc_ca_cert_path = [''ca'', ''cert''], hc_ca_key_path = [''ca'', ''key''],
     hc_server_port = 900, hc_cert_validity_days = 365,
     hc_vms = [''peer-vm'' \<mapsto> \<lparr>vm_cid = 10, vm_entities =
       [''peer-service'' \<mapsto> \<lparr>po_caps = [sample_cap], po_validity_days = Some 10\<rparr>]\<rparr>],
     hc_peer_port = 901\<rparr>"

definition sample_decision :: PolicyDecision where
  "sample_decision = \<lparr>pd_vm_name = ''peer-vm'', pd_vm_cid = 10, pd_caps = [sample_cap], pd_validity_days = 10\<rparr>"

definition request_stream :: stream where
  "request_stream = empty_stream\<lparr>s_in := lp_frame put_frame_len (as_bytes ''req'')\<rparr>"

lemma sample_serde_laws:
  "serde_law request_serde sample_cert_request (as_bytes ''req'')"
  "serde_law response_serde (RespError m) (0 # as_bytes m)"
  "length a < 256 \<Longrightarrow> serde_law response_serde (RespOk a b) (1 # of_nat (length a) # as_bytes a @ as_bytes b)"
  by (simp_all add: serde_law_def request_serde_def response_serde_def encode_response_def
      decode_response_def unat_of_nat)

lemma response_serde_lawful:
  "to_vec response_serde resp = Ok bytes \<Longrightarrow> from_slice response_serde bytes = Ok resp"
  by (auto simp: response_serde_def encode_response_def decode_response_def unat_of_nat
      split: CertResponse.splits if_splits)

lemma request_stream_recv:
  "recv_json request_serde request_stream = (Ok sample_cert_request, empty_stream)"
proof -
  have "recv_json request_serde request_stream =
      (map_err Msg (from_slice request_serde (as_bytes ''req'')), request_stream\<lparr>s_in := []\<rparr>)"
    by (rule recv_json_frame) (simp_all add: request_stream_def MAX_MSG_BYTES_def)
  then show ?thesis
    by (simp add: request_serde_def request_stream_def empty_stream_def)
qed

lemma empty_stream_healthy: "healthy empty_stream"
  by (simp add: healthy_def empty_stream_def)

lemma sample_server_env_simps [simp]:
  "se_request_json sample_server_env = request_serde" "se_response_json sample_server_env = response_serde"
  "se_jwt sample_server_env = sample_jwt_lib sample_claim" "se_rcgen sample_server_env = sample_rcgen"
  by (simp_all add: sample_server_env_def)

lemma sample_authorised: "authorised sample_host_config 10 sample_cert_request sample_decision"
  by (simp add: authorised_def sample_cert_request_def PROTOCOL_VERSION_def resolve_def sample_host_config_def
      sample_decision_def)

lemma sample_signing_request: "signing_request sample_cert_request sample_decision 10 = sample_request"
  by (simp add: signing_request_def sample_cert_request_def sample_decision_def sample_request_def)

lemma sample_answer:
  "answer sample_server_env sample_env 10 sample_host_config sample_ca sample_cert_request =
     Some (RespOk ''LEAF'' ''ROOT'')"
  unfolding answer_Ok_iff using sample_authorised sample_sign_csr
  by (intro exI [of _ sample_decision]) (simp add: sample_signing_request sample_ca_def)

lemma sample_wrong_cid: "\<not> (\<exists>d. authorised sample_host_config 11 sample_cert_request d)"
  by (simp add: authorised_def sample_cert_request_def resolve_def sample_host_config_def)


section \<open>Properties\<close>

text \<open>Who is authorised: the VM is configured, the entity is registered for it, and the validity is
  the entity's own or the configured default.\<close>

theorem resolve_iff:
  "resolve config vm entity = Some d \<longleftrightarrow>
     (\<exists>e p. hc_vms config vm = Some e \<and> vm_entities e entity = Some p \<and>
        pd_vm_name d = vm \<and> pd_vm_cid d = vm_cid e \<and> pd_caps d = po_caps p \<and>
        pd_validity_days d = (case po_validity_days p of None \<Rightarrow> hc_cert_validity_days config | Some n \<Rightarrow> n))"
  unfolding resolve_Some_iff by (intro iff_exI conj_cong refl) (auto intro: PolicyDecision.equality)

text \<open>C4: on a stream that works, a connection consumes one request and writes exactly one frame, the
  encoding of the answer that the specification gives: a refusal for each of the three checks in
  their order, a signing error, or the certificate with the CA's. (A request that cannot be read and a
  panic of the signing call have no such answer; other theorems are about them.)\<close>

theorem connection_gives_answer:
  assumes "healthy st" and "s_in st = lp_frame put_frame_len payload @ rest"
    and "length payload \<le> MAX_MSG_BYTES" and "from_slice (se_request_json E) payload = Ok req"
    and "answer E env cid config ca req = Some resp" and "to_vec (se_response_json E) resp = Ok bytes"
  shows "handle_connection E env cid config ca st =
    (Ok (), st\<lparr>s_in := rest, s_out := s_out st @ lp_frame put_frame_len bytes\<rparr>)"
proof -
  have "recv_json (se_request_json E) st = (Ok req, st\<lparr>s_in := rest\<rparr>)"
    using recv_json_frame [OF assms(2,3), of "se_request_json E"] assms(4) by simp
  from handle_connection_answers [OF this _ assms(5,6)] assms(1) show ?thesis by simp
qed

theorem connection_gives_answer_witness:
  "s_out (snd (handle_connection sample_server_env sample_env 10 sample_host_config sample_ca request_stream)) =
     lp_frame put_frame_len (encode_response (RespOk ''LEAF'' ''ROOT''))"
proof -
  have "handle_connection sample_server_env sample_env 10 sample_host_config sample_ca request_stream =
      (Ok (), request_stream\<lparr>s_in := [], s_out := s_out request_stream @
        lp_frame put_frame_len (encode_response (RespOk ''LEAF'' ''ROOT''))\<rparr>)"
    by (rule connection_gives_answer [where payload = "as_bytes ''req''", OF _ _ _ _ sample_answer])
      (simp_all add: request_stream_def empty_stream_healthy request_serde_def response_serde_def MAX_MSG_BYTES_def)
  then show ?thesis by (simp add: request_stream_def empty_stream_def)
qed

text \<open>C3: a peer receives a certificate only if it is entitled to it: when the frame that a connection wrote
  decodes to a certificate, then the peer had sent a readable request of the right version, the
  policy knows its VM and entity, its CID is the one configured for the VM, and what was signed is
  the policy's entry with the peer's own CID; of what the requester says about itself only the CSR
  enters the certificate.\<close>

theorem certificate_only_if_authorised:
  assumes "healthy st" and "s_out st = []"
    and "\<forall>resp bytes. to_vec (se_response_json E) resp = Ok bytes \<longrightarrow>
      from_slice (se_response_json E) bytes = Ok resp"
    and "s_out (snd (handle_connection E env cid config ca st)) = lp_frame put_frame_len bytes"
    and "from_slice (se_response_json E) bytes = Ok (RespOk pem ca_pem)"
  shows "\<exists>req st' e p. recv_json (se_request_json E) st = (Ok req, st') \<and>
    rq_version req = PROTOCOL_VERSION \<and> hc_vms config (rq_vm_name req) = Some e \<and>
    vm_entities e (rq_entity req) = Some p \<and> vm_cid e = cid \<and> ca_pem = ca_cert_pem ca \<and>
    sign_csr (se_jwt E) (se_rcgen E) env ca
      \<lparr>sr_csr_pem = rq_csr_pem req, sr_entity = rq_entity req, sr_vm_name = rq_vm_name req,
       sr_cid = cid, sr_claims = po_caps p,
       sr_validity_days = (case po_validity_days p of None \<Rightarrow> hc_cert_validity_days config | Some n \<Rightarrow> n)\<rparr>
      = Ok pem"
proof -
  note out = connection_output [OF assms(1,2), of E env cid config ca, unfolded assms(4)]
  have "\<not> error_frame (se_response_json E) (lp_frame put_frame_len bytes)"
    using assms(3,5) by (auto simp: error_frame_def dest!: frame_body)
  with out obtain req st' resp where req: "recv_json (se_request_json E) st = (Ok req, st')"
    and ans: "answer E env cid config ca req = Some resp"
    and "to_vec (se_response_json E) resp = Ok bytes"
    by (auto dest: frame_body)
  with assms(3,5) have "resp = RespOk pem ca_pem" by simp
  with req ans have "recv_json (se_request_json E) st = (Ok req, st')"
    "answer E env cid config ca req = Some (RespOk pem ca_pem)" by simp_all
  then show ?thesis unfolding answer_certificate_iff by blast
qed

theorem certificate_only_if_authorised_witness:
  "\<exists>req st' e. recv_json request_serde request_stream = (Ok req, st') \<and>
     rq_version req = PROTOCOL_VERSION \<and> hc_vms sample_host_config (rq_vm_name req) = Some e \<and> vm_cid e = 10"
proof -
  have recv: "recv_json (se_request_json sample_server_env) request_stream = (Ok sample_cert_request, empty_stream)"
    by (simp add: request_stream_recv)
  have vec: "to_vec (se_response_json sample_server_env) (RespOk ''LEAF'' ''ROOT'') =
      Ok (encode_response (RespOk ''LEAF'' ''ROOT''))"
    by (simp add: response_serde_def)
  have law: "\<forall>resp bytes. to_vec (se_response_json sample_server_env) resp = Ok bytes \<longrightarrow>
      from_slice (se_response_json sample_server_env) bytes = Ok resp"
    by (simp add: response_serde_lawful)
  have stream: "healthy request_stream" "s_out request_stream = []"
    by (simp_all add: request_stream_def empty_stream_healthy)
  have out: "s_out (snd (handle_connection sample_server_env sample_env 10 sample_host_config sample_ca request_stream))
      = lp_frame put_frame_len (encode_response (RespOk ''LEAF'' ''ROOT''))"
    using handle_connection_answers [OF recv empty_stream_healthy sample_answer vec]
    by (simp add: empty_stream_def)
  have "from_slice (se_response_json sample_server_env) (encode_response (RespOk ''LEAF'' ''ROOT'')) =
      Ok (RespOk ''LEAF'' ''ROOT'')"
    using law vec by blast
  from certificate_only_if_authorised [OF stream law out this] show ?thesis by auto
qed

text \<open>Nothing of the CA leaks to a peer that is not authorised: whatever bytes it sends, readable or
  not, and however its stream fails, the connection ends the same with every CA, clock, randomness
  and cryptographic library.\<close>

theorem unauthorised_independent_of_ca:
  assumes "\<forall>req st'. recv_json (se_request_json E) st = (Ok req, st') \<longrightarrow>
      \<not> (\<exists>d. authorised config cid req d)"
    and "se_request_json E' = se_request_json E" and "se_response_json E' = se_response_json E"
  shows "handle_connection E env cid config ca st = handle_connection E' env' cid config ca' st"
  using assms by (intro unauthorised_connection_same) blast+

theorem unauthorised_independent_of_ca_witness:
  "handle_connection sample_server_env sample_env 11 sample_host_config sample_ca request_stream =
   handle_connection sample_server_env (sample_env\<lparr>env_rng := 7\<rparr>) 11 sample_host_config
     (sample_ca\<lparr>ca_cert_pem := ''OTHER''\<rparr>) request_stream"
  by (rule unauthorised_independent_of_ca) (use sample_wrong_cid in \<open>simp_all add: request_stream_recv\<close>)

text \<open>A CID that does not match closes the connection with an error, but not silently: the peer does
  receive an error frame.\<close>

theorem cid_mismatch_is_answered:
  assumes "recv_json (se_request_json E) st = (Ok req, st')" and "healthy st'"
    and "rq_version req = PROTOCOL_VERSION"
    and "resolve config (rq_vm_name req) (rq_entity req) = Some d" and "pd_vm_cid d \<noteq> cid"
    and "to_vec (se_response_json E) (RespError ''CID verification failed'') = Ok bytes"
  shows "s_out (snd (handle_connection E env cid config ca st)) = s_out st' @ lp_frame put_frame_len bytes"
proof -
  have "answer E env cid config ca req = Some (RespError ''CID verification failed'')"
    using assms(3-5) by (simp add: answer_def refusal_def)
  from handle_connection_answers [OF assms(1,2) this assms(6)] show ?thesis by simp
qed

theorem cid_mismatch_is_answered_witness:
  "s_out (snd (handle_connection sample_server_env sample_env 11 sample_host_config sample_ca request_stream)) =
     lp_frame put_frame_len (0 # as_bytes ''CID verification failed'')"
proof -
  have resolved: "resolve sample_host_config (rq_vm_name sample_cert_request) (rq_entity sample_cert_request)
      = Some sample_decision"
    using sample_authorised by (simp add: authorised_def)
  have sent: "to_vec (se_response_json sample_server_env) (RespError ''CID verification failed'') =
      Ok (0 # as_bytes ''CID verification failed'')"
    by (simp add: response_serde_def encode_response_def)
  have recv: "recv_json (se_request_json sample_server_env) request_stream = (Ok sample_cert_request, empty_stream)"
    by (simp add: request_stream_recv)
  have "rq_version sample_cert_request = PROTOCOL_VERSION" "pd_vm_cid sample_decision \<noteq> 11"
    by (simp_all add: sample_cert_request_def PROTOCOL_VERSION_def sample_decision_def)
  from cid_mismatch_is_answered [OF recv empty_stream_healthy this(1) resolved this(2) sent] show ?thesis
    by (simp add: empty_stream_def)
qed

end
