(* ===== verification/Task.thy ===== *)
theory Task
  imports Handler
begin

text \<open>
  The task of one connection at the grain of its await points: \<open>handle_connection\<close> of \<open>handler.rs\<close> with
  the two functions of \<open>codec.rs\<close> it awaits. \<^const>\<open>handle_connection\<close> runs on a stream whose whole
  input is known; here the peer's bytes arrive one part after another, a read returns what is there,
  a write takes what the transport takes, and the environment acts between any two steps. The
  refinement shows that none of this can be seen in the outcome.
\<close>

section \<open>The suspended task\<close>

text \<open>
  Where the task waits: in \<open>read_exact\<close> of the header or of the payload, with the size of the buffer and
  its filled part; in \<open>write_all\<close>, with what is left to write and the buffers still to come; in
  \<open>flush\<close>. The flag tells the best-effort error response from the answer of the inner handler.
\<close>

datatype goal = Header | Payload

datatype pc =
    Read goal nat bytes
  | Write bool bytes "bytes list"
  | Flush bool
  | Done "(unit, anyhow) res"

text \<open>
  A task with its stream. \<open>s_in\<close> of the stream is what has arrived and was not read, \<open>tk_pending\<close> what
  the peer will still send, \<open>tk_closed\<close> whether the end of its input has arrived.
\<close>

record task =
  tk_pc :: pc
  tk_stream :: stream
  tk_pending :: bytes
  tk_closed :: bool

text \<open>Everything a task captures when it is spawned.\<close>

record ('k, 'kp, 'cert, 'csr) task_env =
  te_server :: "('k, 'kp, 'cert, 'csr) server_env"
  te_call :: call_env
  te_peer_cid :: u32
  te_config :: HostConfig
  te_ca :: CertificateAuthority

definition start_task :: "stream \<Rightarrow> task" where
  "start_task st = \<lparr>tk_pc = Read Header 4 [], tk_stream = st\<lparr>s_in := []\<rparr>, tk_pending = s_in st,
     tk_closed = False\<rparr>"

section \<open>What the code does between two awaits\<close>

definition begin_frame :: "bool \<Rightarrow> bytes \<Rightarrow> pc" where
  "begin_frame best payload =
     (let len = (of_nat (length payload) :: u32) in Write best (u32_to_be_bytes len) [payload])"

text \<open>An error of the inner handler starts the best-effort response; an error of that is dropped.\<close>

definition best_effort :: "('k, 'kp, 'cert, 'csr) task_env \<Rightarrow> anyhow \<Rightarrow> pc" where
  "best_effort T e =
     (case to_vec (se_response_json (te_server T)) (RespError (anyhow_to_string e)) of
        Ok payload \<Rightarrow> begin_frame True payload
      | Err _ \<Rightarrow> Done (Ok ())
      | Panic \<Rightarrow> Done Panic)"

definition fail_task :: "('k, 'kp, 'cert, 'csr) task_env \<Rightarrow> bool \<Rightarrow> anyhow \<Rightarrow> pc" where
  "fail_task T best e = (if best then Done (Ok ()) else best_effort T e)"

definition begin_answer :: "('k, 'kp, 'cert, 'csr) task_env \<Rightarrow> CertResponse \<Rightarrow> pc" where
  "begin_answer T resp =
     (case to_vec (se_response_json (te_server T)) resp of
        Ok payload \<Rightarrow> begin_frame False payload
      | Err e \<Rightarrow> best_effort T (Msg e)
      | Panic \<Rightarrow> Done Panic)"

text \<open>With the header complete the length is checked and the payload's buffer is made.\<close>

definition after_header :: "('k, 'kp, 'cert, 'csr) task_env \<Rightarrow> bytes \<Rightarrow> pc" where
  "after_header T len_buf =
     (let len = unat (u32_from_be_bytes len_buf) in
      if len > MAX_MSG_BYTES then best_effort T (Msg (frame_too_large len))
      else Read Payload len [])"

text \<open>With the payload complete the request is decoded, checked and, when allowed, signed.\<close>

definition decide :: "('k, 'kp, 'cert, 'csr) task_env \<Rightarrow> bytes \<Rightarrow> (CertResponse, anyhow) res" where
  "decide T buf =
     rbind (map_err Msg (from_slice (se_request_json (te_server T)) buf)) (\<lambda>req.
     if rq_version req \<noteq> PROTOCOL_VERSION then Ok (RespError (version_msg (rq_version req)))
     else case resolve (te_config T) (rq_vm_name req) (rq_entity req) of
       None \<Rightarrow> Ok (RespError (not_authorised_msg (rq_vm_name req) (rq_entity req)))
     | Some decision \<Rightarrow>
         if pd_vm_cid decision \<noteq> te_peer_cid T then Err (Msg ''CID verification failed'')
         else
           rbind (map_err (\<lambda>e. Msg (''signing failed: '' @ ca_error_to_string e))
             (sign_csr (se_jwt (te_server T)) (se_rcgen (te_server T)) (te_call T) (te_ca T)
               (signing_request req decision (te_peer_cid T))))
             (\<lambda>cert_pem. Ok (RespOk cert_pem (ca_cert_pem (te_ca T)))))"

definition after_payload :: "('k, 'kp, 'cert, 'csr) task_env \<Rightarrow> bytes \<Rightarrow> pc" where
  "after_payload T buf =
     (case decide T buf of
        Ok resp \<Rightarrow> begin_answer T resp
      | Err e \<Rightarrow> best_effort T e
      | Panic \<Rightarrow> Done Panic)"

primrec after_read :: "('k, 'kp, 'cert, 'csr) task_env \<Rightarrow> goal \<Rightarrow> bytes \<Rightarrow> pc" where
  "after_read T Header buf = after_header T buf"
| "after_read T Payload buf = after_payload T buf"

fun after_write :: "bool \<Rightarrow> bytes list \<Rightarrow> pc" where
  "after_write best [] = Flush best"
| "after_write best (bs # rest) = Write best bs rest"

definition after_flush :: "('k, 'kp, 'cert, 'csr) task_env \<Rightarrow> bool \<Rightarrow> stream \<Rightarrow> pc" where
  "after_flush T best st =
     (case s_flush_err st of None \<Rightarrow> Done (Ok ()) | Some m \<Rightarrow> fail_task T best (Msg m))"

section \<open>Steps\<close>

text \<open>The transport takes \<open>bs\<close>, when it has room for it.\<close>

definition takes :: "bytes \<Rightarrow> stream \<Rightarrow> stream" where
  "takes bs st = st\<lparr>s_out := s_out st @ bs, s_room := map_option (\<lambda>n. n - length bs) (s_room st)\<rparr>"

definition has_room :: "bytes \<Rightarrow> stream \<Rightarrow> bool" where
  "has_room bs st \<longleftrightarrow> (case s_room st of None \<Rightarrow> True | Some n \<Rightarrow> length bs \<le> n)"

text \<open>
  The task's own steps: a read of what is there, a write of what is taken, and the code between. A write
  that has to wait is a step that has not happened yet; when the transport has room is the subject of
  \<open>Backpressure\<close>, whose runs are runs of this relation.
\<close>

inductive task_step :: "('k, 'kp, 'cert, 'csr) task_env \<Rightarrow> task \<Rightarrow> task \<Rightarrow> bool" for T where
  reads: "tk_pc t = Read g n buf \<Longrightarrow> s_in (tk_stream t) = xs @ ys \<Longrightarrow> xs \<noteq> [] \<Longrightarrow>
    length buf + length xs \<le> n \<Longrightarrow>
    task_step T t (t\<lparr>tk_pc := Read g n (buf @ xs), tk_stream := (tk_stream t)\<lparr>s_in := ys\<rparr>\<rparr>)"
| filled: "tk_pc t = Read g n buf \<Longrightarrow> length buf = n \<Longrightarrow>
    task_step T t (t\<lparr>tk_pc := after_read T g buf\<rparr>)"
| early_eof: "tk_pc t = Read g n buf \<Longrightarrow> length buf < n \<Longrightarrow> s_in (tk_stream t) = [] \<Longrightarrow> tk_closed t \<Longrightarrow>
    task_step T t (t\<lparr>tk_pc := fail_task T False (Msg (s_eof_msg (tk_stream t)))\<rparr>)"
| writes: "tk_pc t = Write best (xs @ ys) rest \<Longrightarrow> xs \<noteq> [] \<Longrightarrow> has_room xs (tk_stream t) \<Longrightarrow>
    task_step T t (t\<lparr>tk_pc := Write best ys rest, tk_stream := takes xs (tk_stream t)\<rparr>)"
| written: "tk_pc t = Write best [] rest \<Longrightarrow>
    task_step T t (t\<lparr>tk_pc := after_write best rest\<rparr>)"
| write_error: "tk_pc t = Write best bs rest \<Longrightarrow> bs \<noteq> [] \<Longrightarrow> s_room (tk_stream t) = Some 0 \<Longrightarrow>
    task_step T t (t\<lparr>tk_pc := fail_task T best (Msg (s_write_msg (tk_stream t)))\<rparr>)"
| flushes: "tk_pc t = Flush best \<Longrightarrow>
    task_step T t (t\<lparr>tk_pc := after_flush T best (tk_stream t)\<rparr>)"

text \<open>The peer's steps: some of its bytes arrive; when all have, the end of its input may.\<close>

inductive peer_step :: "task \<Rightarrow> task \<Rightarrow> bool" where
  arrives: "tk_pending t = xs @ ys \<Longrightarrow> xs \<noteq> [] \<Longrightarrow>
    peer_step t (t\<lparr>tk_stream := (tk_stream t)\<lparr>s_in := s_in (tk_stream t) @ xs\<rparr>, tk_pending := ys\<rparr>)"
| closes: "tk_pending t = [] \<Longrightarrow> \<not> tk_closed t \<Longrightarrow> peer_step t (t\<lparr>tk_closed := True\<rparr>)"

definition conn_step :: "('k, 'kp, 'cert, 'csr) task_env \<Rightarrow> task \<Rightarrow> task \<Rightarrow> bool" where
  "conn_step T t t' \<longleftrightarrow> task_step T t t' \<or> peer_step t t'"

inductive conn_reach :: "('k, 'kp, 'cert, 'csr) task_env \<Rightarrow> stream \<Rightarrow> task \<Rightarrow> bool" for T st where
  begins: "conn_reach T st (start_task st)"
| goes_on: "conn_reach T st t \<Longrightarrow> conn_step T t t' \<Longrightarrow> conn_reach T st t'"

section \<open>What a suspended task will still do\<close>

text \<open>
  The rest of the run, when all the input is known: the rest of the inner handler or of the error
  response, and then what \<open>handle_connection\<close> makes of its result.
\<close>

definition follow_payload :: "('k, 'kp, 'cert, 'csr) task_env \<Rightarrow> bytes \<Rightarrow> (stream, unit, anyhow) io" where
  "follow_payload T buf = io_bind (io_lift (decide T buf)) (send_json (se_response_json (te_server T)))"

definition follow_header :: "('k, 'kp, 'cert, 'csr) task_env \<Rightarrow> bytes \<Rightarrow> (stream, unit, anyhow) io" where
  "follow_header T len_buf =
     (let len = unat (u32_from_be_bytes len_buf) in
      if len > MAX_MSG_BYTES then io_lift (Err (Msg (frame_too_large len)))
      else io_bind (read_exact len) (follow_payload T))"

primrec follow :: "('k, 'kp, 'cert, 'csr) task_env \<Rightarrow> goal \<Rightarrow> bytes \<Rightarrow> (stream, unit, anyhow) io" where
  "follow T Header = follow_header T"
| "follow T Payload = follow_payload T"

primrec write_queue :: "bytes list \<Rightarrow> (stream, unit, anyhow) io" where
  "write_queue [] = flush"
| "write_queue (bs # rest) = io_bind (write_all bs) (\<lambda>_. write_queue rest)"

primrec rest_of :: "('k, 'kp, 'cert, 'csr) task_env \<Rightarrow> pc \<Rightarrow> (stream, unit, anyhow) io" where
  "rest_of T (Read g n buf) = io_bind (read_exact (n - length buf)) (\<lambda>xs. follow T g (buf @ xs))"
| "rest_of T (Write best bs rest) = write_queue (bs # rest)"
| "rest_of T (Flush best) = flush"
| "rest_of T (Done r) = io_lift r"

primrec in_best_effort :: "pc \<Rightarrow> bool" where
  "in_best_effort (Read g n buf) = False"
| "in_best_effort (Write best bs rest) = best"
| "in_best_effort (Flush best) = best"
| "in_best_effort (Done r) = True"

definition settle ::
  "('k, 'kp, 'cert, 'csr) task_env \<Rightarrow> bool \<Rightarrow> (unit, anyhow) res \<times> stream \<Rightarrow> (unit, anyhow) res \<times> stream" where
  "settle T best out =
     (case out of
        (Ok _, st) \<Rightarrow> (Ok (), st)
      | (Err e, st) \<Rightarrow>
          if best then (Ok (), st)
          else io_ignore (send_json (se_response_json (te_server T)) (RespError (anyhow_to_string e))) st
      | (Panic, st) \<Rightarrow> (Panic, st))"

definition resume ::
  "('k, 'kp, 'cert, 'csr) task_env \<Rightarrow> pc \<Rightarrow> stream \<Rightarrow> (unit, anyhow) res \<times> stream" where
  "resume T p st =
     (case p of Done r \<Rightarrow> (r, st) | _ \<Rightarrow> settle T (in_best_effort p) (rest_of T p st))"

text \<open>The stream of a task as if all its input were there, and the outcome it is heading for.\<close>

definition whole_stream :: "task \<Rightarrow> stream" where
  "whole_stream t = (tk_stream t)\<lparr>s_in := s_in (tk_stream t) @ tk_pending t\<rparr>"

definition outcome :: "('k, 'kp, 'cert, 'csr) task_env \<Rightarrow> task \<Rightarrow> (unit, anyhow) res \<times> stream" where
  "outcome T t = resume T (tk_pc t) (whole_stream t)"

lemma resume_simps [simp]:
  "resume T (Read g n buf) st = settle T False (rest_of T (Read g n buf) st)"
  "resume T (Write best bs rest) st = settle T best (rest_of T (Write best bs rest) st)"
  "resume T (Flush best) st = settle T best (flush st)"
  "resume T (Done r) st = (r, st)"
  by (simp_all add: resume_def)

lemma settle_simps [simp]:
  "settle T best (Ok u, st) = (Ok (), st)"
  "settle T True (Err e, st) = (Ok (), st)"
  "settle T False (Err e, st) =
     io_ignore (send_json (se_response_json (te_server T)) (RespError (anyhow_to_string e))) st"
  "settle T best (Panic, st) = (Panic, st)"
  by (simp_all add: settle_def)

lemma settle_True: "settle T True (m st) = io_ignore m st"
  by (simp add: settle_def io_ignore_def split: prod.splits res.splits)

subsection \<open>The code between two awaits keeps the outcome\<close>

lemma send_json_frame:
  "to_vec J v = Ok payload \<Longrightarrow> send_json J v st = write_queue [u32_to_be_bytes (of_nat (length payload)), payload] st"
  by (simp add: send_json_def res_simps Let_def)

lemma resume_begin_frame:
  "resume T (begin_frame best payload) st =
     settle T best (write_queue [u32_to_be_bytes (of_nat (length payload)), payload] st)"
  by (simp add: begin_frame_def Let_def)

lemma resume_best_effort: "resume T (best_effort T e) st = settle T False (Err e, st)"
proof (cases "to_vec (se_response_json (te_server T)) (RespError (anyhow_to_string e))")
  case (Ok payload)
  then show ?thesis
    by (simp add: best_effort_def resume_begin_frame settle_True send_json_frame [OF Ok] io_ignore_def
        del: write_queue.simps)
qed (simp_all add: best_effort_def send_json_def res_simps io_ignore_def)

lemma resume_fail_task: "resume T (fail_task T best e) st = settle T best (Err e, st)"
  by (cases best) (simp_all add: fail_task_def resume_best_effort)

lemma resume_begin_answer:
  "resume T (begin_answer T resp) st = settle T False (send_json (se_response_json (te_server T)) resp st)"
proof (cases "to_vec (se_response_json (te_server T)) resp")
  case (Ok payload)
  then show ?thesis
    by (simp add: begin_answer_def resume_begin_frame send_json_frame [OF Ok] del: write_queue.simps)
qed (simp_all add: begin_answer_def resume_best_effort send_json_def res_simps)

lemma resume_after_payload: "resume T (after_payload T buf) st = settle T False (follow_payload T buf st)"
  by (cases "decide T buf")
    (simp_all add: after_payload_def follow_payload_def resume_begin_answer resume_best_effort res_simps)

lemma resume_after_header: "resume T (after_header T buf) st = settle T False (follow_header T buf st)"
  by (simp add: after_header_def follow_header_def Let_def resume_best_effort res_simps)

lemma resume_after_read: "resume T (after_read T g buf) st = settle T False (follow T g buf st)"
  by (cases g) (simp_all add: resume_after_payload resume_after_header)

lemma resume_after_write: "resume T (after_write best rest) st = settle T best (write_queue rest st)"
  by (cases rest) simp_all

lemma resume_after_flush:
  "s_flush_err st' = s_flush_err st \<Longrightarrow> resume T (after_flush T best st') st = settle T best (flush st)"
  by (cases "s_flush_err st") (simp_all add: after_flush_def flush_def resume_fail_task)

subsection \<open>A partial read or write keeps the outcome\<close>

lemma read_exact_part:
  assumes "length xs \<le> n" and "s_in st = xs @ ys"
  shows "io_bind (read_exact n) f st =
    io_bind (read_exact (n - length xs)) (\<lambda>zs. f (xs @ zs)) (st\<lparr>s_in := ys\<rparr>)"
proof -
  have "n - length xs \<le> length ys \<longleftrightarrow> n \<le> length xs + length ys" by linarith
  with assms show ?thesis by (simp add: read_exact_def io_bind_def)
qed

lemma write_all_part:
  assumes "has_room xs st"
  shows "io_bind (write_all (xs @ ys)) f st = io_bind (write_all ys) f (takes xs st)"
  using assms
  by (cases st) (auto simp: write_all_def has_room_def takes_def io_bind_def split: option.splits)

lemma write_all_Nil: "io_bind (write_all []) f st = f () st"
  by (cases st) (simp add: write_all_def io_bind_def split: option.split)

lemma write_all_full: "bs \<noteq> [] \<Longrightarrow> s_room st = Some 0 \<Longrightarrow>
    io_bind (write_all bs) f st = (Err (Msg (s_write_msg st)), st)"
  by (cases st) (simp add: write_all_def io_bind_def)

lemma read_exact_none: "io_bind (read_exact 0) f st = f [] st"
  by (simp add: read_exact_def io_bind_def)

lemma read_exact_eof: "0 < n \<Longrightarrow> s_in st = [] \<Longrightarrow>
    io_bind (read_exact n) f st = (Err (Msg (s_eof_msg st)), st)"
  by (cases st) (simp add: read_exact_def io_bind_def)

subsection \<open>Every step keeps the outcome\<close>

lemma whole_stream_simps [simp]:
  "s_room (whole_stream t) = s_room (tk_stream t)" "s_flush_err (whole_stream t) = s_flush_err (tk_stream t)"
  "s_eof_msg (whole_stream t) = s_eof_msg (tk_stream t)" "s_write_msg (whole_stream t) = s_write_msg (tk_stream t)"
  "s_in (whole_stream t) = s_in (tk_stream t) @ tk_pending t" "s_out (whole_stream t) = s_out (tk_stream t)"
  "whole_stream (t\<lparr>tk_pc := p\<rparr>) = whole_stream t" "whole_stream (t\<lparr>tk_closed := b\<rparr>) = whole_stream t"
  "whole_stream (t\<lparr>tk_pc := p, tk_stream := st\<rparr>) = st\<lparr>s_in := s_in st @ tk_pending t\<rparr>"
  "(whole_stream t)\<lparr>s_in := zs\<rparr> = (tk_stream t)\<lparr>s_in := zs\<rparr>"
  by (simp_all add: whole_stream_def)

lemma has_room_whole [simp]: "has_room xs (whole_stream t) = has_room xs (tk_stream t)"
  by (simp add: has_room_def)

text \<open>
  What is true of every state: the buffers are within their sizes, a payload buffer within the message
  limit, and the end of the input is only seen when nothing is pending.
\<close>

primrec goal_limit :: "goal \<Rightarrow> nat" where
  "goal_limit Header = 4"
| "goal_limit Payload = MAX_MSG_BYTES"

definition pc_ok :: "pc \<Rightarrow> bool" where
  "pc_ok p \<longleftrightarrow> (case p of
     Read g n buf \<Rightarrow> length buf \<le> n \<and> n \<le> goal_limit g
   | Write best bs rest \<Rightarrow> length rest \<le> 1
   | _ \<Rightarrow> True)"

definition task_ok :: "task \<Rightarrow> bool" where
  "task_ok t \<longleftrightarrow> pc_ok (tk_pc t) \<and> (tk_closed t \<longrightarrow> tk_pending t = [])"

lemma pc_ok_simps [simp]:
  "pc_ok (Read g n buf) \<longleftrightarrow> length buf \<le> n \<and> n \<le> goal_limit g"
  "pc_ok (Write best bs rest) \<longleftrightarrow> length rest \<le> 1" "pc_ok (Flush best)" "pc_ok (Done r)"
  by (simp_all add: pc_ok_def)

lemma outcome_task_step:
  assumes "task_step T t t'" and "task_ok t"
  shows "outcome T t' = outcome T t"
  using assms(1)
proof (cases rule: task_step.cases)
  case (reads g n buf xs ys)
  have input: "s_in (whole_stream t) = xs @ ys @ tk_pending t" using reads by simp
  from read_exact_part [OF _ input, of "n - length buf" "\<lambda>xs. follow T g (buf @ xs)"] reads show ?thesis
    by (simp add: outcome_def diff_diff_left)
next
  case (filled g n buf)
  then show ?thesis by (simp add: outcome_def resume_after_read read_exact_none)
next
  case (early_eof g n buf)
  with assms(2) have "s_in (whole_stream t) = []" by (simp add: task_ok_def)
  with early_eof show ?thesis by (simp add: outcome_def resume_fail_task read_exact_eof)
next
  case (writes best xs ys rest)
  have "whole_stream t' = takes xs (whole_stream t)"
    using writes by (simp add: whole_stream_def takes_def)
  with writes show ?thesis by (simp add: outcome_def write_all_part)
next
  case (written best rest)
  then show ?thesis by (simp add: outcome_def resume_after_write write_all_Nil)
next
  case (write_error best bs rest)
  then show ?thesis by (simp add: outcome_def resume_fail_task write_all_full)
next
  case (flushes best)
  then show ?thesis by (simp add: outcome_def resume_after_flush)
qed

lemma whole_stream_peer_step: "peer_step t t' \<Longrightarrow> whole_stream t' = whole_stream t \<and> tk_pc t' = tk_pc t"
  by (auto elim!: peer_step.cases simp: whole_stream_def)

lemma outcome_step: "conn_step T t t' \<Longrightarrow> task_ok t \<Longrightarrow> outcome T t' = outcome T t"
  using outcome_task_step [of T t t'] whole_stream_peer_step [of t t']
  by (auto simp: conn_step_def outcome_def)

lemma pc_ok_codes [simp]:
  "pc_ok (begin_frame best payload)" "pc_ok (best_effort T e)" "pc_ok (fail_task T best e)"
  "pc_ok (begin_answer T resp)" "pc_ok (after_header T buf)" "pc_ok (after_payload T buf)"
  "pc_ok (after_read T g buf)" "pc_ok (after_flush T best st)"
proof -
  show frame: "pc_ok (begin_frame best payload)" for best payload by (simp add: begin_frame_def Let_def)
  show effort: "pc_ok (best_effort T e)" for e by (simp add: best_effort_def frame split: res.split)
  show "pc_ok (fail_task T best e)" for best e by (simp add: fail_task_def effort)
  then show "pc_ok (after_flush T best st)" by (simp add: after_flush_def split: option.split)
  show answer: "pc_ok (begin_answer T resp)" for resp
    by (simp add: begin_answer_def frame effort split: res.split)
  show payload: "pc_ok (after_payload T buf)" by (simp add: after_payload_def answer effort split: res.split)
  show header: "pc_ok (after_header T buf)" by (simp add: after_header_def effort Let_def)
  show "pc_ok (after_read T g buf)" by (cases g) (simp_all add: payload header)
qed

lemma pc_ok_after_write: "length rest \<le> 1 \<Longrightarrow> pc_ok (after_write best rest)"
  by (cases rest) simp_all

lemma task_ok_step:
  assumes "conn_step T t t'" and "task_ok t"
  shows "task_ok t'"
  using assms unfolding conn_step_def task_ok_def
  by (elim disjE task_step.cases peer_step.cases) (auto simp: pc_ok_after_write)

lemma task_ok_start: "task_ok (start_task st)"
  by (simp add: task_ok_def start_task_def)

lemma conn_reach_ok: "conn_reach T st t \<Longrightarrow> task_ok t"
  by (induction rule: conn_reach.induct) (auto simp: task_ok_start task_ok_step)

text \<open>The big-step handler is what a fresh task is heading for.\<close>

lemma rest_of_start:
  "rest_of T (Read Header 4 []) =
     handle_inner (te_server T) (te_call T) (te_peer_cid T) (te_config T) (te_ca T)"
proof
  fix st
  have payload: "follow_payload T buf st' =
      io_bind (io_lift (map_err Msg (from_slice (se_request_json (te_server T)) buf))) (\<lambda>req.
        if rq_version req \<noteq> PROTOCOL_VERSION
        then send_json (se_response_json (te_server T)) (RespError (version_msg (rq_version req)))
        else case resolve (te_config T) (rq_vm_name req) (rq_entity req) of
          None \<Rightarrow> send_json (se_response_json (te_server T))
            (RespError (not_authorised_msg (rq_vm_name req) (rq_entity req)))
        | Some decision \<Rightarrow>
            if pd_vm_cid decision \<noteq> te_peer_cid T then io_lift (Err (Msg ''CID verification failed''))
            else io_bind (io_lift (map_err (\<lambda>e. Msg (''signing failed: '' @ ca_error_to_string e))
              (sign_csr (se_jwt (te_server T)) (se_rcgen (te_server T)) (te_call T) (te_ca T)
                (signing_request req decision (te_peer_cid T)))))
              (\<lambda>cert_pem. send_json (se_response_json (te_server T)) (RespOk cert_pem (ca_cert_pem (te_ca T))))) st'"
    for buf st'
    by (cases "from_slice (se_request_json (te_server T)) buf")
      (auto simp: follow_payload_def decide_def io_bind_def io_lift_def split: option.splits res.splits)
  show "rest_of T (Read Header 4 []) st =
      handle_inner (te_server T) (te_call T) (te_peer_cid T) (te_config T) (te_ca T) st"
    by (auto simp: handle_inner_def recv_json_def follow_header_def payload Let_def io_bind_def io_lift_def
        split: prod.splits res.splits)
qed

lemma outcome_start:
  "outcome T (start_task st) =
     handle_connection (te_server T) (te_call T) (te_peer_cid T) (te_config T) (te_ca T) st"
proof -
  have "whole_stream (start_task st) = st"
    by (cases st) (simp add: whole_stream_def start_task_def)
  moreover have "tk_pc (start_task st) = Read Header 4 []" by (simp add: start_task_def)
  ultimately have "outcome T (start_task st) = resume T (Read Header 4 []) st"
    unfolding outcome_def by (simp only:)
  then show ?thesis
    by (simp add: rest_of_start handle_connection_def settle_def del: rest_of.simps
        split: prod.splits res.splits)
qed

lemma conn_reach_outcome:
  "conn_reach T st t \<Longrightarrow>
     outcome T t = handle_connection (te_server T) (te_call T) (te_peer_cid T) (te_config T) (te_ca T) st"
  by (induction rule: conn_reach.induct) (simp_all add: outcome_start outcome_step conn_reach_ok)

section \<open>Termination and progress\<close>

primrec rank :: "pc \<Rightarrow> nat" where
  "rank (Read g n buf) = (case g of Header \<Rightarrow> 6 | Payload \<Rightarrow> 5)"
| "rank (Write best bs rest) = (if best then 2 else 4)"
| "rank (Flush best) = (if best then 1 else 3)"
| "rank (Done r) = 0"

primrec buffers_left :: "pc \<Rightarrow> nat" where
  "buffers_left (Read g n buf) = 0"
| "buffers_left (Write best bs rest) = length rest"
| "buffers_left (Flush best) = 0"
| "buffers_left (Done r) = 0"

primrec bytes_left :: "pc \<Rightarrow> nat" where
  "bytes_left (Read g n buf) = n - length buf"
| "bytes_left (Write best bs rest) = length bs"
| "bytes_left (Flush best) = 0"
| "bytes_left (Done r) = 0"

definition peer_left :: "task \<Rightarrow> nat" where
  "peer_left t = length (tk_pending t) + (if tk_closed t then 0 else 1)"

definition progress_order :: "(task \<times> task) set" where
  "progress_order = measures [peer_left, rank \<circ> tk_pc, buffers_left \<circ> tk_pc, bytes_left \<circ> tk_pc]"

lemma rank_codes:
  "rank (best_effort T e) \<le> 2" "rank (fail_task T best e) \<le> (if best then 0 else 2)"
  "rank (begin_answer T resp) \<le> 4" "rank (after_header T buf) \<le> 5" "rank (after_payload T buf) \<le> 4"
  "rank (after_flush T best st) < rank (Flush best)"
proof -
  have frame: "rank (begin_frame best payload) = (if best then 2 else 4)" for best payload
    by (simp add: begin_frame_def Let_def)
  show effort: "rank (best_effort T e) \<le> 2" for e by (simp add: best_effort_def frame split: res.split)
  show fail: "rank (fail_task T best e) \<le> (if best then 0 else 2)" for best e
    by (simp add: fail_task_def effort)
  show "rank (after_flush T best st) < rank (Flush best)"
    using fail [of True]
    by (cases best) (auto simp: after_flush_def intro: le_less_trans [OF fail] split: option.split)
  show answer: "rank (begin_answer T resp) \<le> 4" for resp
    by (auto simp: begin_answer_def frame intro: le_trans [OF effort] split: res.split)
  show "rank (after_payload T buf) \<le> 4"
    using answer by (auto simp: after_payload_def intro: le_trans [OF effort] split: res.split)
  show "rank (after_header T buf) \<le> 5"
    by (auto simp: after_header_def Let_def intro: le_trans [OF effort])
qed

lemma rank_after_read: "rank (after_read T g buf) < rank (Read g n buf')"
  by (cases g) (auto intro: le_less_trans [OF rank_codes(4)] le_less_trans [OF rank_codes(5)])

lemma rank_fail_task: "rank (fail_task T best e) < rank (Write best bs rest)"
  by (cases best) (auto intro: le_less_trans [OF rank_codes(2)])

lemma task_step_decreases: "task_step T t t' \<Longrightarrow> (t', t) \<in> progress_order"
proof (induction rule: task_step.induct)
  case (reads t g n buf xs ys)
  then have "n - (length buf + length xs) < n - length buf" by (cases xs) auto
  with reads show ?case by (simp add: progress_order_def peer_left_def)
next
  case (filled t g n buf)
  then show ?case using rank_after_read [of T g buf n buf] by (simp add: progress_order_def peer_left_def)
next
  case (early_eof t g n buf)
  have "rank (fail_task T False e) < rank (Read g n buf)" for e
    by (cases g) (auto intro: le_less_trans [OF rank_codes(2)])
  with early_eof show ?case by (simp add: progress_order_def peer_left_def del: rank.simps)
next
  case (written t best rest)
  then show ?case by (cases rest) (auto simp: progress_order_def peer_left_def)
next
  case (write_error t best bs rest)
  then show ?case
    using rank_fail_task [of T best _ bs rest] by (simp add: progress_order_def peer_left_def del: rank.simps)
next
  case (flushes t best)
  then show ?case using rank_codes(6) by (simp add: progress_order_def peer_left_def del: rank.simps)
qed (auto simp: progress_order_def peer_left_def)

lemma peer_step_decreases: "peer_step t t' \<Longrightarrow> (t', t) \<in> progress_order"
  by (induction rule: peer_step.induct) (auto simp: progress_order_def peer_left_def)

lemma conn_step_decreases: "conn_step T t t' \<Longrightarrow> (t', t) \<in> progress_order"
  by (auto simp: conn_step_def task_step_decreases peer_step_decreases)

lemma wf_progress_order: "wf progress_order"
  by (simp add: progress_order_def)

text \<open>The task waits for its peer: it has read all that arrived, and more may come.\<close>

definition waiting :: "task \<Rightarrow> bool" where
  "waiting t \<longleftrightarrow> (case tk_pc t of
     Read g n buf \<Rightarrow> length buf < n \<and> s_in (tk_stream t) = [] \<and> \<not> tk_closed t
   | _ \<Rightarrow> False)"

definition finished :: "task \<Rightarrow> bool" where
  "finished t \<longleftrightarrow> (case tk_pc t of Done r \<Rightarrow> True | _ \<Rightarrow> False)"

lemma finished_iff: "finished t \<longleftrightarrow> (\<exists>r. tk_pc t = Done r)"
  by (simp add: finished_def split: pc.split)

inductive_cases done_stepE: "task_step T (t\<lparr>tk_pc := Done r\<rparr>) t'"

lemma no_step_done: "tk_pc t = Done r \<Longrightarrow> \<not> task_step T t t'"
  by (auto elim: task_step.cases)

lemma no_step_waiting: "waiting t \<Longrightarrow> \<not> task_step T t t'"
  by (auto elim!: task_step.cases simp: waiting_def)

lemma task_can_step:
  assumes "task_ok t" and "\<not> finished t" and "\<not> waiting t"
  shows "\<exists>t'. task_step T t t'"
proof (cases "tk_pc t")
  case (Read g n buf)
  show ?thesis
  proof (cases "length buf = n")
    case True
    with Read show ?thesis by (blast intro: filled)
  next
    case False
    with assms(1) Read have less: "length buf < n" by (simp add: task_ok_def)
    show ?thesis
    proof (cases "s_in (tk_stream t)")
      case Nil
      with assms(3) Read less show ?thesis by (auto simp: waiting_def intro: early_eof)
    next
      case (Cons x ys)
      with Read less show ?thesis using reads [of t g n buf "[x]" ys T] by auto
    qed
  qed
next
  case (Write best bs rest)
  show ?thesis
  proof (cases bs)
    case Nil
    with Write show ?thesis by (blast intro: written)
  next
    case (Cons x ys)
    show ?thesis
    proof (cases "s_room (tk_stream t) = Some 0")
      case True
      with Write Cons show ?thesis using write_error [of t best bs rest T] by blast
    next
      case False
      then have "has_room [x] (tk_stream t)" by (auto simp: has_room_def split: option.split)
      with Write Cons show ?thesis using writes [of t best "[x]" ys rest T] by auto
    qed
  qed
next
  case (Flush best)
  then show ?thesis by (blast intro: flushes)
next
  case (Done r)
  with assms(2) show ?thesis by (simp add: finished_def)
qed

lemma peer_can_step: "task_ok t \<Longrightarrow> (\<exists>t'. peer_step t t') \<longleftrightarrow> \<not> tk_closed t"
proof
  assume "task_ok t" and "\<not> tk_closed t"
  then show "\<exists>t'. peer_step t t'"
    using arrives [of t "tk_pending t" "[]"] closes [of t] by (cases "tk_pending t = []") auto
qed (auto elim!: peer_step.cases simp: task_ok_def)

text \<open>So a connection can always be brought to its end.\<close>

lemma conn_reach_finishes:
  assumes "conn_reach T st t"
  shows "\<exists>t' r. (conn_step T)\<^sup>*\<^sup>* t t' \<and> tk_pc t' = Done r"
  using assms
proof (induction t rule: wf_induct_rule [OF wf_progress_order])
  case (1 t)
  show ?case
  proof (cases "finished t")
    case False
    then have "\<exists>t'. conn_step T t t'"
      using task_can_step [of t T] peer_can_step [of t] conn_reach_ok [OF 1(2)]
      by (cases "waiting t") (auto simp: conn_step_def waiting_def split: pc.splits)
    then obtain t' where step: "conn_step T t t'" ..
    from 1(1) [OF conn_step_decreases [OF step] goes_on [OF 1(2) step]] step show ?thesis
      by (meson converse_rtranclp_into_rtranclp)
  qed (auto simp: finished_iff)
qed

lemma conn_reach_steps: "(conn_step T)\<^sup>*\<^sup>* t t' \<Longrightarrow> conn_reach T st t \<Longrightarrow> conn_reach T st t'"
  by (induction rule: rtranclp_induct) (auto intro: goes_on)

section \<open>A concrete task for the witnesses\<close>

definition sample_task_env :: "(unit, unit, string, unit) task_env" where
  "sample_task_env = \<lparr>te_server = sample_server_env, te_call = sample_env, te_peer_cid = 10,
     te_config = sample_host_config, te_ca = sample_ca\<rparr>"

lemma sample_task_env_simps [simp]:
  "te_server sample_task_env = sample_server_env" "te_call sample_task_env = sample_env"
  "te_peer_cid sample_task_env = 10" "te_config sample_task_env = sample_host_config"
  "te_ca sample_task_env = sample_ca"
  by (simp_all add: sample_task_env_def)

lemma sample_handled:
  "handle_connection sample_server_env sample_env 10 sample_host_config sample_ca request_stream =
     (Ok (), empty_stream\<lparr>s_out := lp_frame put_frame_len (encode_response (RespOk ''LEAF'' ''ROOT''))\<rparr>)"
proof -
  have recv: "recv_json (se_request_json sample_server_env) request_stream = (Ok sample_cert_request, empty_stream)"
    by (simp add: request_stream_recv)
  have vec: "to_vec (se_response_json sample_server_env) (RespOk ''LEAF'' ''ROOT'') =
      Ok (encode_response (RespOk ''LEAF'' ''ROOT''))"
    by (simp add: response_serde_def)
  from handle_connection_answers [OF recv empty_stream_healthy sample_answer vec] show ?thesis by simp
qed

text \<open>The first byte of the request arrives and is read; then the task waits.\<close>

definition sample_waiting :: task where
  "sample_waiting = (start_task request_stream)\<lparr>tk_pc := Read Header 4 (take 1 (s_in request_stream)),
     tk_pending := drop 1 (s_in request_stream)\<rparr>"

lemma sample_waiting_reached: "conn_reach T request_stream sample_waiting"
proof -
  obtain b bs where input: "s_in request_stream = b # bs"
    by (simp add: request_stream_def lp_frame_def put_frame_len_def u32_to_be_bytes_def)
  let ?t0 = "start_task request_stream"
  let ?t1 = "?t0\<lparr>tk_stream := (tk_stream ?t0)\<lparr>s_in := s_in (tk_stream ?t0) @ [b]\<rparr>, tk_pending := bs\<rparr>"
  have "peer_step ?t0 ?t1"
    by (rule arrives) (simp_all add: start_task_def input)
  then have r1: "conn_reach T request_stream ?t1"
    by (blast intro: begins goes_on [unfolded conn_step_def])
  have "task_step T ?t1 (?t1\<lparr>tk_pc := Read Header 4 ([] @ [b]), tk_stream := (tk_stream ?t1)\<lparr>s_in := []\<rparr>\<rparr>)"
    by (rule reads) (simp_all add: start_task_def)
  with r1 have "conn_reach T request_stream
      (?t1\<lparr>tk_pc := Read Header 4 ([] @ [b]), tk_stream := (tk_stream ?t1)\<lparr>s_in := []\<rparr>\<rparr>)"
    by (blast intro: goes_on [unfolded conn_step_def])
  moreover have "?t1\<lparr>tk_pc := Read Header 4 ([] @ [b]), tk_stream := (tk_stream ?t1)\<lparr>s_in := []\<rparr>\<rparr> = sample_waiting"
    by (simp add: sample_waiting_def start_task_def input)
  ultimately show ?thesis by simp
qed

section \<open>Properties\<close>

text \<open>C10: how the peer's bytes are cut into segments, when they arrive, and how much of a write the
  transport takes at a time cannot be seen in the outcome: every task that comes to its end, on
  whatever schedule, ends with the result of \<^const>\<open>handle_connection\<close> on the peer's whole input,
  has written the same bytes and has left the same bytes unread.\<close>

theorem task_refines_handler:
  assumes "conn_reach T st t" and "tk_pc t = Done r"
  shows "handle_connection (te_server T) (te_call T) (te_peer_cid T) (te_config T) (te_ca T) st =
    (r, whole_stream t)"
  using conn_reach_outcome [OF assms(1)] assms(2) by (simp add: outcome_def)

theorem task_refines_handler_witness:
  "\<exists>t. conn_reach sample_task_env request_stream t \<and> tk_pc t = Done (Ok ()) \<and>
    s_out (tk_stream t) = lp_frame put_frame_len (encode_response (RespOk ''LEAF'' ''ROOT''))"
proof -
  obtain t r where t: "conn_reach sample_task_env request_stream t" "tk_pc t = Done r"
    using conn_reach_finishes [OF sample_waiting_reached [of sample_task_env]]
      conn_reach_steps [OF _ sample_waiting_reached] by blast
  from task_refines_handler [OF t] have r: "r = Ok ()"
    and whole: "whole_stream t =
      empty_stream\<lparr>s_out := lp_frame put_frame_len (encode_response (RespOk ''LEAF'' ''ROOT''))\<rparr>"
    by (simp_all add: sample_handled)
  have "s_out (tk_stream t) = s_out (whole_stream t)" by simp
  also have "\<dots> = lp_frame put_frame_len (encode_response (RespOk ''LEAF'' ''ROOT''))"
    by (simp only: whole) simp
  finally show ?thesis using t r by auto
qed

text \<open>C17: a connection terminates: its task and its peer together have no infinite run, and from every
  state they reach they can come to the end of the task, with the outcome of
  \<^const>\<open>handle_connection\<close>.\<close>

theorem connection_terminates:
  assumes "conn_reach T st t"
  shows "wf {(t', t). conn_step T t t'} \<and>
    (\<exists>t' r. (conn_step T)\<^sup>*\<^sup>* t t' \<and> tk_pc t' = Done r \<and>
      handle_connection (te_server T) (te_call T) (te_peer_cid T) (te_config T) (te_ca T) st =
        (r, whole_stream t'))"
proof -
  have "{(t', t). conn_step T t t'} \<subseteq> progress_order" using conn_step_decreases by auto
  with wf_progress_order have "wf {(t', t). conn_step T t t'}" by (rule wf_subset)
  moreover obtain t' r where t': "(conn_step T)\<^sup>*\<^sup>* t t'" "tk_pc t' = Done r"
    using conn_reach_finishes [OF assms] by blast
  moreover from conn_reach_outcome [OF conn_reach_steps [OF t'(1) assms]] t'(2) have
    "handle_connection (te_server T) (te_call T) (te_peer_cid T) (te_config T) (te_ca T) st =
      (r, whole_stream t')"
    by (simp add: outcome_def)
  ultimately show ?thesis by blast
qed

theorem connection_terminates_witness:
  "\<exists>t' r. (conn_step sample_task_env)\<^sup>*\<^sup>* sample_waiting t' \<and> tk_pc t' = Done r \<and> r = Ok ()"
  using connection_terminates [OF sample_waiting_reached [of sample_task_env]] sample_handled by auto

text \<open>C18: a task is always in a sound state: its buffers are never filled beyond their size, the buffer of
  a payload is never larger than \<open>MAX_MSG_BYTES\<close>, whatever length the peer announced; and it is
  never stuck: it can go on unless it has ended or has read all that arrived of an unfinished
  message. Then only the peer can move it: no timeout ends the wait. Here the transport takes a part of
  every write; the theory \<open>Backpressure\<close> adds the wait for a peer that does not read.\<close>

theorem task_sound:
  assumes "conn_reach T st t"
  shows "(case tk_pc t of Read g n buf \<Rightarrow> length buf \<le> n \<and> n \<le> MAX_MSG_BYTES | _ \<Rightarrow> True) \<and>
    (tk_closed t \<longrightarrow> tk_pending t = []) \<and>
    ((\<exists>t'. task_step T t t') \<longleftrightarrow> \<not> finished t \<and> \<not> waiting t)"
proof -
  note ok = conn_reach_ok [OF assms]
  have "goal_limit g \<le> MAX_MSG_BYTES" for g by (cases g) (simp_all add: MAX_MSG_BYTES_def)
  with ok have "case tk_pc t of Read g n buf \<Rightarrow> length buf \<le> n \<and> n \<le> MAX_MSG_BYTES | _ \<Rightarrow> True"
    by (auto simp: task_ok_def intro: le_trans split: pc.split)
  with ok task_can_step [OF ok] show ?thesis
    using no_step_waiting no_step_done unfolding finished_iff task_ok_def by blast
qed

theorem task_sound_witness:
  "\<not> (\<exists>t'. task_step sample_task_env sample_waiting t')"
  using task_sound [OF sample_waiting_reached [of sample_task_env]]
  by (simp add: waiting_def sample_waiting_def start_task_def request_stream_def lp_frame_def
      put_frame_len_def u32_to_be_bytes_def)

end
