(* ===== verification/Listener.thy ===== *)
theory Listener
  imports Handler "HOL-Library.Multiset"
begin

text \<open>
  The accept loop of the server (\<open>listener.rs\<close>). The loop and the tasks it spawns interleave freely:
  a step of the relation is an accept or the end of one task. A task owns its stream and shares
  only immutable data, so its whole run is one step. The loop itself never ends; the behaviours are
  the finite runs.
\<close>

text \<open>An accepted connection: the peer's address, and the clock and randomness its task will see.\<close>

record conn =
  cn_cid :: u32
  cn_port :: u32
  cn_env :: call_env
  cn_stream :: stream

datatype accept_event = Accepted conn | AcceptFailed string

datatype action = Accept accept_event | Finish nat

type_synonym outcome = "(unit, anyhow) res \<times> stream"

record listener_state =
  ls_running :: "conn list"
  ls_finished :: "(conn \<times> outcome) list"
  ls_dropped :: "conn list"
  ls_errors :: "string list"

definition listener_init :: listener_state where
  "listener_init = \<lparr>ls_running = [], ls_finished = [], ls_dropped = [], ls_errors = []\<rparr>"

text \<open>One turn of the loop: reject by the peer's port, or spawn a task; an accept error is logged.\<close>

definition accept_one :: "HostConfig \<Rightarrow> accept_event \<Rightarrow> listener_state \<Rightarrow> listener_state" where
  "accept_one config ev s =
     (case ev of
        Accepted c \<Rightarrow>
          if cn_port c \<noteq> hc_peer_port config then s\<lparr>ls_dropped := ls_dropped s @ [c]\<rparr>
          else s\<lparr>ls_running := ls_running s @ [c]\<rparr>
      | AcceptFailed e \<Rightarrow> s\<lparr>ls_errors := ls_errors s @ [e]\<rparr>)"

text \<open>The task at one position ends, with a result or a panic; nobody waits for it.\<close>

definition finish_task :: "(conn \<Rightarrow> outcome) \<Rightarrow> nat \<Rightarrow> listener_state \<Rightarrow> listener_state" where
  "finish_task serve i s =
     s\<lparr>ls_running := take i (ls_running s) @ drop (Suc i) (ls_running s),
       ls_finished := ls_finished s @ [(ls_running s ! i, serve (ls_running s ! i))]\<rparr>"

inductive listener_step ::
  "HostConfig \<Rightarrow> (conn \<Rightarrow> outcome) \<Rightarrow> listener_state \<Rightarrow> action \<Rightarrow> listener_state \<Rightarrow> bool"
  for config serve where
  accepts: "listener_step config serve s (Accept ev) (accept_one config ev s)"
| finishes: "i < length (ls_running s) \<Longrightarrow>
    listener_step config serve s (Finish i) (finish_task serve i s)"

inductive listener_run ::
  "HostConfig \<Rightarrow> (conn \<Rightarrow> outcome) \<Rightarrow> action list \<Rightarrow> listener_state \<Rightarrow> bool"
  for config serve where
  starts: "listener_run config serve [] listener_init"
| continues: "listener_run config serve acts s \<Longrightarrow> listener_step config serve s act s' \<Longrightarrow>
    listener_run config serve (acts @ [act]) s'"

inductive_cases listener_stepE: "listener_step config serve s act s'"

inductive_simps accept_step_iff: "listener_step config serve s (Accept ev) s'"

inductive_simps finish_step_iff: "listener_step config serve s (Finish i) s'"

text \<open>\<open>run_listener\<close>: the bind may fail; afterwards the loop runs from its initial state.\<close>

definition run_listener :: "(unit, string) res \<Rightarrow> (listener_state, anyhow) res" where
  "run_listener bind = rbind (map_err Msg bind) (\<lambda>_. Ok listener_init)"

text \<open>The task of a connection, with the handler of the server.\<close>

definition serve_conn ::
  "('k, 'kp, 'cert, 'csr) server_env \<Rightarrow> HostConfig \<Rightarrow> CertificateAuthority \<Rightarrow> conn \<Rightarrow> outcome" where
  "serve_conn E config ca c = handle_connection E (cn_env c) (cn_cid c) config ca (cn_stream c)"

section \<open>Accounting for connections\<close>

text \<open>What a sequence of actions accepted, admitted and rejected.\<close>

fun accepted_of :: "action \<Rightarrow> conn list" where
  "accepted_of (Accept (Accepted c)) = [c]"
| "accepted_of _ = []"

definition admitted :: "HostConfig \<Rightarrow> action list \<Rightarrow> conn list" where
  "admitted config acts =
     filter (\<lambda>c. cn_port c = hc_peer_port config) (concat (map accepted_of acts))"

definition rejected :: "HostConfig \<Rightarrow> action list \<Rightarrow> conn list" where
  "rejected config acts =
     filter (\<lambda>c. cn_port c \<noteq> hc_peer_port config) (concat (map accepted_of acts))"

lemma admitted_snoc [simp]:
  "admitted config [] = []"
  "admitted config (acts @ [act]) = admitted config acts @ admitted config [act]"
  "rejected config [] = []"
  "rejected config (acts @ [act]) = rejected config acts @ rejected config [act]"
  by (simp_all add: admitted_def rejected_def)

lemma admitted_Finish [simp]: "admitted config [Finish i] = []" "rejected config [Finish i] = []"
  by (simp_all add: admitted_def rejected_def)

definition accounted :: "HostConfig \<Rightarrow> (conn \<Rightarrow> outcome) \<Rightarrow> action list \<Rightarrow> listener_state \<Rightarrow> bool" where
  "accounted config serve acts s \<longleftrightarrow>
     mset (admitted config acts) = mset (ls_running s) + mset (map fst (ls_finished s)) \<and>
     ls_finished s = map (\<lambda>c. (c, serve c)) (map fst (ls_finished s)) \<and>
     ls_dropped s = rejected config acts"

lemma mset_without: "i < length xs \<Longrightarrow> mset xs = mset (take i xs @ drop (Suc i) xs) + {#xs ! i#}"
  by (metis add_mset_add_single id_take_nth_drop mset.simps(2) mset_append union_mset_add_mset_right)

lemma accounted_step:
  assumes "accounted config serve acts s" and "listener_step config serve s act s'"
  shows "accounted config serve (acts @ [act]) s'"
  using assms(2)
proof (cases rule: listener_step.cases)
  case (accepts ev)
  with assms(1) show ?thesis
    by (cases ev) (simp_all add: accounted_def accept_one_def admitted_def rejected_def)
next
  case (finishes i)
  with assms(1) mset_without [OF this(3)] show ?thesis
    by (simp add: accounted_def finish_task_def)
qed

lemma listener_run_accounted: "listener_run config serve acts s \<Longrightarrow> accounted config serve acts s"
proof (induction rule: listener_run.induct)
  case starts
  show ?case by (simp add: accounted_def listener_init_def)
next
  case (continues acts s act s')
  show ?case by (rule accounted_step [OF continues.IH continues.hyps(2)])
qed

text \<open>Every task that was spawned can end, in any state of the loop.\<close>

lemma listener_drains:
  assumes "listener_run config serve acts s"
  shows "\<exists>s'. listener_run config serve (acts @ replicate (length (ls_running s)) (Finish 0)) s' \<and>
    ls_running s' = []"
  using assms
proof (induction "length (ls_running s)" arbitrary: acts s)
  case 0
  then show ?case by auto
next
  case (Suc n)
  let ?s' = "finish_task serve 0 s"
  have "listener_step config serve s (Finish 0) ?s'"
    using Suc.hyps(2) by (intro finishes) linarith
  with Suc.prems have run: "listener_run config serve (acts @ [Finish 0]) ?s'" by (rule continues)
  have len: "n = length (ls_running ?s')"
    using Suc.hyps(2) by (simp add: finish_task_def)
  from Suc.hyps(1) [OF len run] show ?case
    using Suc.hyps(2) [symmetric] len by simp
qed

section \<open>A service with a secret\<close>

text \<open>
  The contract between the loop and the handler: how a refused connection ends does not depend on the
  secret (the CA). It lifts from one connection to all runs of the loop.
\<close>

locale secret_service =
  fixes serve :: "'secret \<Rightarrow> conn \<Rightarrow> outcome"
    and refused :: "conn \<Rightarrow> bool"
  assumes refused_same: "refused c \<Longrightarrow> serve x c = serve y c"
begin

lemma step_same:
  "listener_step config (serve x) s act s' \<Longrightarrow> \<forall>c \<in> set (ls_running s). refused c \<Longrightarrow>
     listener_step config (serve y) s act s'"
proof (cases rule: listener_stepE, assumption)
  fix ev
  assume "act = Accept ev" "s' = accept_one config ev s"
  then show ?thesis by (simp add: accept_step_iff)
next
  fix i
  assume i: "act = Finish i" "s' = finish_task (serve x) i s" "i < length (ls_running s)"
    and "\<forall>c \<in> set (ls_running s). refused c"
  then have "serve x (ls_running s ! i) = serve y (ls_running s ! i)"
    by (intro refused_same) simp
  with i show ?thesis by (simp add: finish_step_iff finish_task_def)
qed

lemma run_same:
  "listener_run config (serve x) acts s \<Longrightarrow> \<forall>c \<in> set (admitted config acts). refused c \<Longrightarrow>
     listener_run config (serve y) acts s"
proof (induction rule: listener_run.induct)
  case starts
  show ?case by (rule listener_run.starts)
next
  case (continues acts s act s')
  then have refused: "\<forall>c \<in> set (admitted config acts). refused c" by simp
  have "set (ls_running s) \<subseteq> set (admitted config acts)"
    using listener_run_accounted [OF continues.hyps(1)] unfolding accounted_def
    by (metis set_mset_mset set_mset_union sup_ge1)
  with refused have "\<forall>c \<in> set (ls_running s). refused c" by blast
  with continues.hyps(2) have "listener_step config (serve y) s act s'" by (rule step_same)
  with continues.IH [OF refused] show ?case by (rule listener_run.continues)
qed

end

text \<open>The handler provides the contract: the secret is the CA with the cryptographic libraries.\<close>

definition unauthorised_conn ::
  "CertRequest serde \<Rightarrow> HostConfig \<Rightarrow> conn \<Rightarrow> bool" where
  "unauthorised_conn Jq config c \<longleftrightarrow>
     (case recv_json Jq (cn_stream c) of
        (Ok req, _) \<Rightarrow> refusal config (cn_cid c) req \<noteq> None
      | _ \<Rightarrow> True)"

lemma unauthorised_connD:
  "unauthorised_conn Jq config c \<Longrightarrow> recv_json Jq (cn_stream c) = (Ok req, st') \<Longrightarrow>
     \<not> (\<exists>d. authorised config (cn_cid c) req d)"
  using refusal_None_iff [of config "cn_cid c" req] by (simp add: unauthorised_conn_def)

interpretation ca_service: secret_service
  "\<lambda>(L, R, ca). serve_conn \<lparr>se_request_json = Jq, se_response_json = Jr, se_jwt = L, se_rcgen = R\<rparr> cfg ca"
  "unauthorised_conn Jq cfg"
proof (unfold_locales, clarsimp)
  fix c L R ca L' R' ca'
  assume "unauthorised_conn Jq cfg c"
  then show "serve_conn \<lparr>se_request_json = Jq, se_response_json = Jr, se_jwt = L, se_rcgen = R\<rparr> cfg ca c =
      serve_conn \<lparr>se_request_json = Jq, se_response_json = Jr, se_jwt = L', se_rcgen = R'\<rparr> cfg ca' c"
    unfolding serve_conn_def by (intro unauthorised_connection_same) (simp_all add: unauthorised_connD)
qed


section \<open>Concrete runs for the witnesses\<close>

definition sample_conn :: "u32 \<Rightarrow> u32 \<Rightarrow> conn" where
  "sample_conn cid p = \<lparr>cn_cid = cid, cn_port = p, cn_env = sample_env, cn_stream = request_stream\<rparr>"

definition sample_actions :: "action list" where
  "sample_actions = [Accept (Accepted (sample_conn 10 901)), Accept (Accepted (sample_conn 10 5000)),
     Accept (AcceptFailed ''EMFILE''), Accept (Accepted (sample_conn 11 901)), Finish 1]"

definition sample_listener :: "(conn \<Rightarrow> outcome) \<Rightarrow> listener_state" where
  "sample_listener serve = \<lparr>ls_running = [sample_conn 10 901],
     ls_finished = [(sample_conn 11 901, serve (sample_conn 11 901))],
     ls_dropped = [sample_conn 10 5000], ls_errors = [''EMFILE'']\<rparr>"

lemma run_Accept:
  "listener_run config serve acts s \<Longrightarrow> s' = accept_one config ev s \<Longrightarrow> acts' = acts @ [Accept ev] \<Longrightarrow>
     listener_run config serve acts' s'"
  by (simp add: listener_run.continues accepts)

lemma run_Finish:
  "listener_run config serve acts s \<Longrightarrow> i < length (ls_running s) \<Longrightarrow> s' = finish_task serve i s \<Longrightarrow>
     acts' = acts @ [Finish i] \<Longrightarrow> listener_run config serve acts' s'"
  by (simp add: listener_run.continues finishes)

lemma sample_run: "listener_run sample_host_config serve sample_actions (sample_listener serve)"
proof -
  have conn: "cn_port (sample_conn cid p) = p" for cid p by (simp add: sample_conn_def)
  have config: "hc_peer_port sample_host_config = 901" by (simp add: sample_host_config_def)
  show ?thesis
    unfolding sample_actions_def sample_listener_def
    by (rule run_Finish [OF run_Accept [OF run_Accept [OF run_Accept [OF run_Accept
            [OF listener_run.starts refl refl] refl refl] refl refl] refl refl]])
      (simp_all add: accept_one_def finish_task_def listener_init_def conn config)
qed

lemma sample_run_refused:
  "listener_run sample_host_config serve [Accept (Accepted (sample_conn 11 901)), Finish 0]
     (listener_init\<lparr>ls_finished := [(sample_conn 11 901, serve (sample_conn 11 901))]\<rparr>)"
  by (rule run_Finish [OF run_Accept [OF listener_run.starts refl refl]])
    (simp_all add: accept_one_def finish_task_def listener_init_def sample_conn_def sample_host_config_def)

section \<open>Properties\<close>

text \<open>In every run, whatever the interleaving of accepts and tasks, each connection from the agent's
  port is served exactly once, as if it were alone, also when other tasks panic; every other
  connection is dropped and its stream is untouched.\<close>

theorem listener_serves_once:
  assumes "listener_run config (serve_conn E config ca) acts s"
  shows "mset (admitted config acts) = mset (ls_running s) + mset (map fst (ls_finished s)) \<and>
    ls_finished s = map (\<lambda>c. (c, handle_connection E (cn_env c) (cn_cid c) config ca (cn_stream c)))
      (map fst (ls_finished s)) \<and>
    ls_dropped s = rejected config acts"
  using listener_run_accounted [OF assms] unfolding accounted_def serve_conn_def by simp

theorem listener_serves_once_witness:
  "mset (admitted sample_host_config sample_actions) = {# sample_conn 10 901, sample_conn 11 901 #}"
  using listener_serves_once [OF sample_run, of sample_server_env sample_ca]
  by (simp add: sample_listener_def)

text \<open>The loop can always come to rest: from every state it reaches, the tasks that run can finish
  without another connection, and then the finished connections are exactly the admitted ones with
  the outcome of serving each of them sequentially.\<close>

theorem listener_can_drain:
  assumes "listener_run config (serve_conn E config ca) acts s"
  shows "\<exists>s'. listener_run config (serve_conn E config ca)
      (acts @ replicate (length (ls_running s)) (Finish 0)) s' \<and> ls_running s' = [] \<and>
    mset (ls_finished s') = image_mset (\<lambda>c. (c, serve_conn E config ca c)) (mset (admitted config acts))"
proof -
  let ?acts = "acts @ replicate (length (ls_running s)) (Finish 0)"
  obtain s' where s': "listener_run config (serve_conn E config ca) ?acts s'" "ls_running s' = []"
    using listener_drains [OF assms] by blast
  have "admitted config ?acts = admitted config acts"
    by (simp add: admitted_def)
  with listener_run_accounted [OF s'(1)] s'(2) have
    "mset (admitted config acts) = mset (map fst (ls_finished s'))"
    "ls_finished s' = map (\<lambda>c. (c, serve_conn E config ca c)) (map fst (ls_finished s'))"
    unfolding accounted_def by simp_all
  then have "mset (ls_finished s') = image_mset (\<lambda>c. (c, serve_conn E config ca c)) (mset (admitted config acts))"
    by (metis mset_map)
  with s' show ?thesis by blast
qed

theorem listener_can_drain_witness:
  "\<exists>acts s'. listener_run sample_host_config (serve_conn sample_server_env sample_host_config sample_ca) acts s'
     \<and> ls_running s' = [] \<and> size (ls_finished s') = 2"
proof -
  let ?serve = "serve_conn sample_server_env sample_host_config sample_ca"
  obtain s' where s': "listener_run sample_host_config ?serve
      (sample_actions @ replicate (length (ls_running (sample_listener ?serve))) (Finish 0)) s'"
    "ls_running s' = []"
    "mset (ls_finished s') = image_mset (\<lambda>c. (c, ?serve c)) (mset (admitted sample_host_config sample_actions))"
    using listener_can_drain [OF sample_run] by blast
  have "length (admitted sample_host_config sample_actions) = 2"
    by (simp add: admitted_def sample_actions_def sample_conn_def sample_host_config_def)
  then have "length (ls_finished s') = 2"
    using s'(3) by (metis size_image_mset size_mset)
  with s'(1,2) show ?thesis by auto
qed

text \<open>A run in which no admitted connection is authorised looks the same with any CA, any private key
  and any cryptographic library: the very same states, answers included, are reached.\<close>

theorem listener_hides_ca:
  assumes "listener_run config (serve_conn E config ca) acts s"
    and "\<forall>c \<in> set (admitted config acts). unauthorised_conn (se_request_json E) config c"
  shows "listener_run config (serve_conn (E\<lparr>se_jwt := L', se_rcgen := R'\<rparr>) config ca') acts s"
proof -
  have E: "E = \<lparr>se_request_json = se_request_json E, se_response_json = se_response_json E,
      se_jwt = se_jwt E, se_rcgen = se_rcgen E\<rparr>"
    by simp
  have E': "E\<lparr>se_jwt := L', se_rcgen := R'\<rparr> = \<lparr>se_request_json = se_request_json E,
      se_response_json = se_response_json E, se_jwt = L', se_rcgen = R'\<rparr>"
    by (subst E) simp
  note run = ca_service.run_same [where Jq = "se_request_json E" and Jr = "se_response_json E"
      and cfg = config and config = config and x = "(se_jwt E, se_rcgen E, ca)" and acts = acts and s = s
      and y = "(L', R', ca')"]
  from run show ?thesis
    using assms unfolding E' by (simp add: E [symmetric])
qed

theorem listener_hides_ca_witness:
  "listener_run sample_host_config
     (serve_conn (sample_server_env\<lparr>se_jwt := sample_jwt_lib (sample_claim\<lparr>cl_sub := ''root''\<rparr>),
        se_rcgen := sample_rcgen\<rparr>) sample_host_config (sample_ca\<lparr>ca_cert_pem := ''OTHER''\<rparr>))
     [Accept (Accepted (sample_conn 11 901)), Finish 0]
     (listener_init\<lparr>ls_finished := [(sample_conn 11 901,
        serve_conn sample_server_env sample_host_config sample_ca (sample_conn 11 901))]\<rparr>)"
proof (rule listener_hides_ca [OF sample_run_refused])
  have "refusal sample_host_config 11 sample_cert_request \<noteq> None"
    using sample_wrong_cid by (simp add: refusal_None_iff)
  then show "\<forall>c \<in> set (admitted sample_host_config [Accept (Accepted (sample_conn 11 901)), Finish 0]).
      unauthorised_conn (se_request_json sample_server_env) sample_host_config c"
    by (simp add: admitted_def unauthorised_conn_def sample_conn_def request_stream_recv)
qed

end
