(* ===== verification/Interleaving.thy ===== *)
theory Interleaving
  imports Task Listener
begin

text \<open>
  The accept loop with its tasks at the grain of their await points: accepts, the arrival of bytes on
  any connection and the steps of any task interleave freely. In \<open>Listener\<close> the run of a task is one
  step; the refinement here shows that nothing is lost by that, and the results about runs and tasks
  carry over to this machine.
\<close>

record fine_state =
  fs_tasks :: "(conn \<times> task) list"
  fs_ended :: "(conn \<times> (unit, anyhow) res \<times> stream) list"
  fs_dropped :: "conn list"
  fs_errors :: "string list"

datatype fine_action = FAccept accept_event | FMove nat | FReap nat

definition fine_init :: fine_state where
  "fine_init = \<lparr>fs_tasks = [], fs_ended = [], fs_dropped = [], fs_errors = []\<rparr>"

text \<open>What the spawned task captures.\<close>

definition conn_env ::
  "('k, 'kp, 'cert, 'csr) server_env \<Rightarrow> HostConfig \<Rightarrow> CertificateAuthority \<Rightarrow> conn
     \<Rightarrow> ('k, 'kp, 'cert, 'csr) task_env" where
  "conn_env E config ca c = \<lparr>te_server = E, te_call = cn_env c, te_peer_cid = cn_cid c,
     te_config = config, te_ca = ca\<rparr>"

definition fine_accept :: "HostConfig \<Rightarrow> accept_event \<Rightarrow> fine_state \<Rightarrow> fine_state" where
  "fine_accept config ev s =
     (case ev of
        Accepted c \<Rightarrow>
          if cn_port c \<noteq> hc_peer_port config then s\<lparr>fs_dropped := fs_dropped s @ [c]\<rparr>
          else s\<lparr>fs_tasks := fs_tasks s @ [(c, start_task (cn_stream c))]\<rparr>
      | AcceptFailed e \<Rightarrow> s\<lparr>fs_errors := fs_errors s @ [e]\<rparr>)"

text \<open>The task at one position has moved, or has ended and is gone.\<close>

definition move_task :: "nat \<Rightarrow> task \<Rightarrow> fine_state \<Rightarrow> fine_state" where
  "move_task i t s = s\<lparr>fs_tasks := (fs_tasks s)[i := (fst (fs_tasks s ! i), t)]\<rparr>"

definition reap_task :: "nat \<Rightarrow> (unit, anyhow) res \<Rightarrow> fine_state \<Rightarrow> fine_state" where
  "reap_task i r s =
     s\<lparr>fs_tasks := take i (fs_tasks s) @ drop (Suc i) (fs_tasks s),
       fs_ended := fs_ended s @ [(fst (fs_tasks s ! i), r, whole_stream (snd (fs_tasks s ! i)))]\<rparr>"

inductive fine_step ::
  "('k, 'kp, 'cert, 'csr) server_env \<Rightarrow> HostConfig \<Rightarrow> CertificateAuthority
     \<Rightarrow> fine_state \<Rightarrow> fine_action \<Rightarrow> fine_state \<Rightarrow> bool"
  for E config ca where
  fine_accepts: "fine_step E config ca s (FAccept ev) (fine_accept config ev s)"
| fine_moves: "i < length (fs_tasks s) \<Longrightarrow>
    conn_step (conn_env E config ca (fst (fs_tasks s ! i))) (snd (fs_tasks s ! i)) t \<Longrightarrow>
    fine_step E config ca s (FMove i) (move_task i t s)"
| fine_reaps: "i < length (fs_tasks s) \<Longrightarrow> tk_pc (snd (fs_tasks s ! i)) = Done r \<Longrightarrow>
    fine_step E config ca s (FReap i) (reap_task i r s)"

inductive fine_run ::
  "('k, 'kp, 'cert, 'csr) server_env \<Rightarrow> HostConfig \<Rightarrow> CertificateAuthority
     \<Rightarrow> fine_action list \<Rightarrow> fine_state \<Rightarrow> bool"
  for E config ca where
  fine_starts: "fine_run E config ca [] fine_init"
| fine_continues: "fine_run E config ca acts s \<Longrightarrow> fine_step E config ca s act s' \<Longrightarrow>
    fine_run E config ca (acts @ [act]) s'"

inductive_simps fine_accept_iff: "fine_step E config ca s (FAccept ev) s'"

inductive_cases fine_stepE: "fine_step E config ca s act s'"

section \<open>The refinement\<close>

definition fine_abs :: "fine_state \<Rightarrow> listener_state" where
  "fine_abs s = \<lparr>ls_running = map fst (fs_tasks s), ls_finished = fs_ended s, ls_dropped = fs_dropped s,
     ls_errors = fs_errors s\<rparr>"

fun abs_action :: "fine_action \<Rightarrow> action list" where
  "abs_action (FAccept ev) = [Accept ev]"
| "abs_action (FMove i) = []"
| "abs_action (FReap i) = [Finish i]"

text \<open>Every task is in a state that it reaches on its own: the others have not touched it.\<close>

definition tasks_alone ::
  "('k, 'kp, 'cert, 'csr) server_env \<Rightarrow> HostConfig \<Rightarrow> CertificateAuthority \<Rightarrow> fine_state \<Rightarrow> bool" where
  "tasks_alone E config ca s \<longleftrightarrow>
     (\<forall>(c, t) \<in> set (fs_tasks s). conn_reach (conn_env E config ca c) (cn_stream c) t)"

lemma tasks_aloneD:
  "tasks_alone E config ca s \<Longrightarrow> i < length (fs_tasks s) \<Longrightarrow>
     conn_reach (conn_env E config ca (fst (fs_tasks s ! i))) (cn_stream (fst (fs_tasks s ! i)))
       (snd (fs_tasks s ! i))"
  unfolding tasks_alone_def by (metis case_prod_beta nth_mem)

lemma tasks_alone_step:
  assumes "fine_step E config ca s act s'" and "tasks_alone E config ca s"
  shows "tasks_alone E config ca s'"
  using assms(1)
proof (cases rule: fine_step.cases)
  case (fine_accepts ev)
  with assms(2) show ?thesis
    by (auto simp: fine_accept_def tasks_alone_def intro: begins split: accept_event.splits)
next
  case (fine_moves i t)
  from goes_on [OF tasks_aloneD [OF assms(2) this(3)] this(4)] assms(2) fine_moves(2) show ?thesis
    by (auto simp: tasks_alone_def move_task_def dest!: subsetD [OF set_update_subset_insert])
next
  case (fine_reaps i r)
  with assms(2) show ?thesis
    by (auto simp: tasks_alone_def reap_task_def dest: in_set_takeD in_set_dropD)
qed

lemma fine_run_alone: "fine_run E config ca acts s \<Longrightarrow> tasks_alone E config ca s"
proof (induction rule: fine_run.induct)
  case fine_starts
  show ?case by (simp add: tasks_alone_def fine_init_def)
next
  case (fine_continues acts s act s')
  then show ?case by (blast intro: tasks_alone_step)
qed

lemma reaped_outcome:
  assumes "tasks_alone E config ca s" and "i < length (fs_tasks s)"
    and "tk_pc (snd (fs_tasks s ! i)) = Done r"
  shows "serve_conn E config ca (fst (fs_tasks s ! i)) = (r, whole_stream (snd (fs_tasks s ! i)))"
  using conn_reach_outcome [OF tasks_aloneD [OF assms(1,2)]] assms(3)
  by (simp add: outcome_def conn_env_def serve_conn_def)

text \<open>One step here is one step of the coarse loop, or none.\<close>

lemma fine_step_refines:
  assumes "fine_step E config ca s act s'" and "tasks_alone E config ca s"
    and "listener_run config (serve_conn E config ca) acts (fine_abs s)"
  shows "listener_run config (serve_conn E config ca) (acts @ abs_action act) (fine_abs s')"
  using assms(1)
proof (cases rule: fine_step.cases)
  case (fine_accepts ev)
  have "fine_abs (fine_accept config ev s) = accept_one config ev (fine_abs s)"
    by (simp add: fine_accept_def accept_one_def fine_abs_def split: accept_event.split)
  with fine_accepts assms(3) show ?thesis by (auto intro: listener_run.continues listener_step.accepts)
next
  case (fine_moves i t)
  have "fine_abs (move_task i t s) = fine_abs s"
    using fine_moves(3) list_update_id [of "map fst (fs_tasks s)" i]
    by (simp add: fine_abs_def move_task_def map_update)
  with fine_moves assms(3) show ?thesis by simp
next
  case (fine_reaps i r)
  have "fine_abs (reap_task i r s) = finish_task (serve_conn E config ca) i (fine_abs s)"
    using reaped_outcome [OF assms(2) fine_reaps(3,4)] fine_reaps(3)
    by (simp add: fine_abs_def reap_task_def finish_task_def take_map drop_map)
  moreover have "i < length (ls_running (fine_abs s))" using fine_reaps(3) by (simp add: fine_abs_def)
  ultimately show ?thesis
    using fine_reaps assms(3) by (auto intro: listener_run.continues listener_step.finishes)
qed

lemma fine_run_refines:
  "fine_run E config ca acts s \<Longrightarrow>
     listener_run config (serve_conn E config ca) (concat (map abs_action acts)) (fine_abs s)"
proof (induction rule: fine_run.induct)
  case fine_starts
  have "fine_abs fine_init = listener_init" by (simp add: fine_abs_def fine_init_def listener_init_def)
  then show ?case by (simp add: listener_run.starts)
next
  case (fine_continues acts s act s')
  from fine_step_refines [OF this(2) fine_run_alone [OF this(1)] this(3)] show ?case by simp
qed

text \<open>So a connection that has ended, in whatever interleaving, was served as if it were alone.\<close>

lemma fine_run_ended:
  assumes "fine_run E config ca acts s" and "(c, out) \<in> set (fs_ended s)"
  shows "out = handle_connection E (cn_env c) (cn_cid c) config ca (cn_stream c)"
proof -
  from listener_run_accounted [OF fine_run_refines [OF assms(1)]]
  have "fs_ended s = map (\<lambda>c. (c, serve_conn E config ca c)) (map fst (fs_ended s))"
    by (simp add: accounted_def fine_abs_def)
  with assms(2) have "(c, out) \<in> set (map (\<lambda>c. (c, serve_conn E config ca c)) (map fst (fs_ended s)))"
    by metis
  then show ?thesis by (auto simp: serve_conn_def)
qed

section \<open>Liveness and termination\<close>

lemma move_task_same: "move_task i (snd (fs_tasks s ! i)) s = s"
  by (simp add: move_task_def)

lemma move_task_again: "i < length (fs_tasks s) \<Longrightarrow> move_task i t' (move_task i t s) = move_task i t' s"
  by (simp add: move_task_def)

lemma move_task_simps:
  "length (fs_tasks (move_task i t s)) = length (fs_tasks s)"
  "i < length (fs_tasks s) \<Longrightarrow> fs_tasks (move_task i t s) ! i = (fst (fs_tasks s ! i), t)"
  by (simp_all add: move_task_def)

lemma fine_run_moves:
  assumes "(conn_step (conn_env E config ca (fst (fs_tasks s ! i))))\<^sup>*\<^sup>* (snd (fs_tasks s ! i)) t"
    and "fine_run E config ca acts s" and "i < length (fs_tasks s)"
  shows "\<exists>k. fine_run E config ca (acts @ replicate k (FMove i)) (move_task i t s)"
  using assms(1)
proof (induction rule: rtranclp_induct)
  case base
  from assms(2) have "fine_run E config ca (acts @ replicate 0 (FMove i)) s" by simp
  then show ?case unfolding move_task_same by blast
next
  case (step t t')
  then obtain k where run: "fine_run E config ca (acts @ replicate k (FMove i)) (move_task i t s)" by blast
  have "fine_step E config ca (move_task i t s) (FMove i) (move_task i t' (move_task i t s))"
    using step(2) assms(3) by (intro fine_moves) (simp_all add: move_task_simps)
  with run have "fine_run E config ca ((acts @ replicate k (FMove i)) @ [FMove i]) (move_task i t' s)"
    unfolding move_task_again [OF assms(3)] by (rule fine_continues)
  then have "fine_run E config ca (acts @ replicate (Suc k) (FMove i)) (move_task i t' s)"
    by (simp add: replicate_append_same)
  then show ?case ..
qed

text \<open>One task can be brought to its end while all the others stand still.\<close>

lemma task_ends_alone:
  assumes "fine_run E config ca acts s" and "i < length (fs_tasks s)"
  shows "\<exists>k s'. fine_run E config ca (acts @ replicate k (FMove i) @ [FReap i]) s' \<and>
    fs_tasks s' = take i (fs_tasks s) @ drop (Suc i) (fs_tasks s) \<and>
    fs_ended s' = fs_ended s @ [(fst (fs_tasks s ! i), serve_conn E config ca (fst (fs_tasks s ! i)))]"
proof -
  let ?c = "fst (fs_tasks s ! i)"
  from conn_reach_finishes [OF tasks_aloneD [OF fine_run_alone [OF assms(1)] assms(2)]]
  obtain t r where t: "(conn_step (conn_env E config ca ?c))\<^sup>*\<^sup>* (snd (fs_tasks s ! i)) t" "tk_pc t = Done r"
    by blast
  let ?s = "move_task i t s"
  obtain k where run: "fine_run E config ca (acts @ replicate k (FMove i)) ?s"
    using fine_run_moves [OF t(1) assms] by blast
  have len: "i < length (fs_tasks ?s)" using assms(2) by (simp add: move_task_simps)
  have pc: "tk_pc (snd (fs_tasks ?s ! i)) = Done r" using t(2) assms(2) by (simp add: move_task_simps)
  from fine_continues [OF run fine_reaps [OF len pc]]
  have "fine_run E config ca (acts @ replicate k (FMove i) @ [FReap i]) (reap_task i r ?s)" by simp
  moreover have "serve_conn E config ca ?c = (r, whole_stream t)"
    using reaped_outcome [OF fine_run_alone [OF run] len pc] assms(2) by (simp add: move_task_simps)
  ultimately show ?thesis
    using assms(2) by (intro exI conjI) (assumption, simp_all add: reap_task_def move_task_simps, simp_all add: move_task_def)
qed

text \<open>A family of components in which one has moved down has moved down in the multiset order.\<close>

lemma mult1_update:
  assumes "i < length xs" and "(y, xs ! i) \<in> r"
  shows "(mset (xs[i := y]), mset xs) \<in> mult1 r"
proof (rule mult1I)
  show "mset xs = add_mset (xs ! i) (mset xs - {# xs ! i #})" using assms(1) by simp
  show "mset (xs[i := y]) = (mset xs - {# xs ! i #}) + {#y#}" using assms(1) by (simp add: mset_update)
qed (use assms(2) in auto)

text \<open>Between two accepts the machine cannot run for ever.\<close>

definition work_left :: "fine_state \<Rightarrow> task multiset" where
  "work_left s = mset (map snd (fs_tasks s))"

lemma work_left_decreases:
  assumes "fine_step E config ca s act s'" and "\<And>ev. act \<noteq> FAccept ev"
  shows "(work_left s', work_left s) \<in> mult1 progress_order"
  using assms(1)
proof (cases rule: fine_step.cases)
  case (fine_accepts ev)
  with assms(2) show ?thesis by blast
next
  case (fine_moves i t)
  have "work_left s' = mset ((map snd (fs_tasks s))[i := t])"
    using fine_moves by (simp add: work_left_def move_task_def map_update)
  then show ?thesis
    using mult1_update [of i "map snd (fs_tasks s)" t] conn_step_decreases [OF fine_moves(4)] fine_moves(3)
    by (simp add: work_left_def)
next
  case (fine_reaps i r)
  let ?ts = "map snd (fs_tasks s)"
  have i: "i < length ?ts" using fine_reaps by simp
  have "mset ?ts = mset (take i ?ts @ drop (Suc i) ?ts) + {# ?ts ! i #}" using mset_without [OF i] .
  then have old: "work_left s = add_mset (?ts ! i) (work_left s')"
    using fine_reaps by (simp add: work_left_def reap_task_def take_map drop_map)
  show ?thesis by (rule mult1I [OF old, of _ "{#}"]) simp_all
qed

lemma wf_between_accepts:
  "wf {(s', s). \<exists>act. fine_step E config ca s act s' \<and> (\<forall>ev. act \<noteq> FAccept ev)}"
proof (rule wf_subset [OF wf_inv_image [OF wf_mult1 [OF wf_progress_order], of work_left]])
  show "{(s', s). \<exists>act. fine_step E config ca s act s' \<and> (\<forall>ev. act \<noteq> FAccept ev)} \<subseteq>
      inv_image (mult1 progress_order) work_left"
    by (auto simp: inv_image_def intro: work_left_decreases)
qed

section \<open>A concrete run for the witnesses\<close>

definition sample_fine_actions :: "fine_action list" where
  "sample_fine_actions = [FAccept (Accepted (sample_conn 10 901)), FAccept (Accepted (sample_conn 10 5000)),
     FAccept (Accepted (sample_conn 11 901))]"

definition sample_fine_state :: fine_state where
  "sample_fine_state = \<lparr>
     fs_tasks = [(sample_conn 10 901, start_task request_stream), (sample_conn 11 901, start_task request_stream)],
     fs_ended = [], fs_dropped = [sample_conn 10 5000], fs_errors = []\<rparr>"

lemma run_FAccept:
  "fine_run E config ca acts s \<Longrightarrow> s' = fine_accept config ev s \<Longrightarrow> acts' = acts @ [FAccept ev] \<Longrightarrow>
     fine_run E config ca acts' s'"
  by (simp add: fine_continues fine_accepts)

lemma sample_fine_run: "fine_run E sample_host_config ca sample_fine_actions sample_fine_state"
proof -
  have conn: "cn_port (sample_conn cid p) = p" "cn_stream (sample_conn cid p) = request_stream" for cid p
    by (simp_all add: sample_conn_def)
  have config: "hc_peer_port sample_host_config = 901" by (simp add: sample_host_config_def)
  show ?thesis
    unfolding sample_fine_actions_def sample_fine_state_def
    by (rule run_FAccept [OF run_FAccept [OF run_FAccept [OF fine_run.fine_starts refl refl] refl refl]])
      (simp_all add: fine_accept_def fine_init_def conn config)
qed

section \<open>Properties\<close>

text \<open>C9: the accept loop whose tasks interleave at every await point implements the one whose tasks run in
  one step, and so in every interleaving of accepts, arriving bytes and task steps each connection
  from the agent's port has exactly one task or outcome, the outcome of \<^const>\<open>handle_connection\<close>
  on its own stream, whatever the other peers send and whenever they do; every other connection is
  dropped.\<close>

theorem interleaving_refines_loop:
  assumes "fine_run E config ca acts s"
  shows "listener_run config (serve_conn E config ca) (concat (map abs_action acts)) (fine_abs s) \<and>
    mset (admitted config (concat (map abs_action acts))) =
      mset (map fst (fs_tasks s)) + mset (map fst (fs_ended s)) \<and>
    (\<forall>(c, out) \<in> set (fs_ended s).
      out = handle_connection E (cn_env c) (cn_cid c) config ca (cn_stream c)) \<and>
    fs_dropped s = rejected config (concat (map abs_action acts))"
proof -
  note run = fine_run_refines [OF assms]
  have "mset (admitted config (concat (map abs_action acts))) =
        mset (map fst (fs_tasks s)) + mset (map fst (fs_ended s))"
      "fs_dropped s = rejected config (concat (map abs_action acts))"
    using listener_run_accounted [OF run] by (simp_all add: accounted_def fine_abs_def)
  with run fine_run_ended [OF assms] show ?thesis by blast
qed

theorem interleaving_refines_loop_witness:
  "mset (admitted sample_host_config (concat (map abs_action sample_fine_actions))) =
     {# sample_conn 10 901, sample_conn 11 901 #}"
  using interleaving_refines_loop [OF sample_fine_run, of sample_server_env sample_ca]
  by (simp add: sample_fine_state_def)

text \<open>C16: a slow or silent peer holds up nobody but itself: in every reachable state any one task can be
  brought to its end by its own steps and its own peer, with the outcome of serving it alone, while
  the loop accepts nothing and every other task stands still.\<close>

theorem slow_peer_blocks_nobody:
  assumes "fine_run E config ca acts s" and "i < length (fs_tasks s)"
  shows "\<exists>k s'. fine_run E config ca (acts @ replicate k (FMove i) @ [FReap i]) s' \<and>
    fs_tasks s' = take i (fs_tasks s) @ drop (Suc i) (fs_tasks s) \<and>
    fs_ended s' = fs_ended s @ [(fst (fs_tasks s ! i), serve_conn E config ca (fst (fs_tasks s ! i)))]"
  using assms by (rule task_ends_alone)

theorem slow_peer_blocks_nobody_witness:
  "\<exists>acts s'. fine_run sample_server_env sample_host_config sample_ca acts s' \<and>
     fs_tasks s' = [(sample_conn 10 901, start_task request_stream)] \<and> map fst (fs_ended s') = [sample_conn 11 901]"
proof -
  have "1 < length (fs_tasks sample_fine_state)" by (simp add: sample_fine_state_def)
  from slow_peer_blocks_nobody [OF sample_fine_run this, of sample_server_env sample_ca]
  obtain k s' where "fine_run sample_server_env sample_host_config sample_ca
      (sample_fine_actions @ replicate k (FMove 1) @ [FReap 1]) s'"
    and "fs_tasks s' = [(sample_conn 10 901, start_task request_stream)]"
    and "map fst (fs_ended s') = [sample_conn 11 901]"
    by (auto simp: sample_fine_state_def)
  then show ?thesis by (intro exI conjI)
qed

text \<open>Between two accepts the server terminates: the tasks and the peers together have no infinite run,
  and where they stop every task has ended.\<close>

theorem server_quiesces:
  shows "wf {(s', s). \<exists>act. fine_step E config ca s act s' \<and> (\<forall>ev. act \<noteq> FAccept ev)} \<and>
    (\<forall>acts s. fine_run E config ca acts s \<longrightarrow> fs_tasks s \<noteq> [] \<longrightarrow>
      (\<exists>act s'. fine_step E config ca s act s' \<and> (\<forall>ev. act \<noteq> FAccept ev)))"
proof (intro conjI allI impI)
  fix acts s
  assume run: "fine_run E config ca acts s" and some: "fs_tasks s \<noteq> []"
  let ?t = "snd (fs_tasks s ! 0)"
  from some have len: "0 < length (fs_tasks s)" by simp
  note ok = conn_reach_ok [OF tasks_aloneD [OF fine_run_alone [OF run] len]]
  show "\<exists>act s'. fine_step E config ca s act s' \<and> (\<forall>ev. act \<noteq> FAccept ev)"
  proof (cases "finished ?t")
    case True
    with len show ?thesis unfolding finished_iff by (blast intro: fine_reaps)
  next
    case False
    with task_can_step [OF ok] peer_can_step [OF ok]
    obtain t' where "conn_step (conn_env E config ca (fst (fs_tasks s ! 0))) ?t t'"
      unfolding conn_step_def by (cases "waiting ?t") (auto simp: waiting_def split: pc.splits)
    with len show ?thesis by (blast intro: fine_moves)
  qed
qed (rule wf_between_accepts)

theorem server_quiesces_witness:
  "\<exists>act s'. fine_step sample_server_env sample_host_config sample_ca sample_fine_state act s' \<and>
    (\<forall>ev. act \<noteq> FAccept ev)"
proof -
  have "fs_tasks sample_fine_state \<noteq> []" by (simp add: sample_fine_state_def)
  with server_quiesces [of sample_server_env sample_host_config sample_ca]
    sample_fine_run [of sample_server_env sample_ca] show ?thesis by blast
qed

end
