(* ===== verification/Secrecy.thy ===== *)
theory Secrecy
  imports Interleaving
begin

text \<open>
  Noninterference at the grain of the await points: what the server does for peers that are not
  authorised, every intermediate state included, does not depend on the CA, its key or the
  cryptographic libraries.
\<close>

section \<open>What a reading task has read\<close>

text \<open>The buffer of a reading task is a part of the input, at the place the frame format says.\<close>

definition reads_frame :: "stream \<Rightarrow> task \<Rightarrow> bool" where
  "reads_frame st t \<longleftrightarrow> (case tk_pc t of
     Read Header n buf \<Rightarrow> n = 4 \<and> s_in st = buf @ s_in (whole_stream t)
   | Read Payload n buf \<Rightarrow> (\<exists>hdr. length hdr = 4 \<and> n = unat (u32_from_be_bytes hdr) \<and> n \<le> MAX_MSG_BYTES \<and>
       s_in st = hdr @ buf @ s_in (whole_stream t))
   | _ \<Rightarrow> True)"

definition is_read :: "pc \<Rightarrow> bool" where
  "is_read p \<longleftrightarrow> (case p of Read g n buf \<Rightarrow> True | _ \<Rightarrow> False)"

lemma is_read_simps [simp]:
  "is_read (Read g n buf)" "\<not> is_read (Write best bs rest)" "\<not> is_read (Flush best)" "\<not> is_read (Done r)"
  by (simp_all add: is_read_def)

lemma not_reading: "\<not> is_read (tk_pc t) \<Longrightarrow> reads_frame st t"
  by (auto simp: reads_frame_def split: pc.split goal.split)

lemma never_reads_again [simp]:
  "\<not> is_read (best_effort T e)" "\<not> is_read (fail_task T best e)" "\<not> is_read (after_payload T buf)"
  "\<not> is_read (after_write best rest)" "\<not> is_read (after_flush T best st)"
proof -
  have frame: "\<not> is_read (begin_frame best payload)" for best payload by (simp add: begin_frame_def Let_def)
  show effort: "\<not> is_read (best_effort T e)" for e by (simp add: best_effort_def frame split: res.split)
  show fail: "\<not> is_read (fail_task T best e)" for best e by (simp add: fail_task_def effort)
  have "\<not> is_read (begin_answer T resp)" for resp by (simp add: begin_answer_def frame effort split: res.split)
  then show "\<not> is_read (after_payload T buf)" by (simp add: after_payload_def effort split: res.split)
  show "\<not> is_read (after_write best rest)" by (cases rest) simp_all
  show "\<not> is_read (after_flush T best st)" by (simp add: after_flush_def fail split: option.split)
qed

lemma reads_frame_task_step:
  assumes "task_step T t t'" and "reads_frame st t"
  shows "reads_frame st t'"
  using assms(1)
proof (cases rule: task_step.cases)
  case (reads g n buf xs ys)
  with assms(2) show ?thesis by (cases g) (auto simp: reads_frame_def)
next
  case (filled g n buf)
  show ?thesis
  proof (cases g)
    case Header
    with filled assms(2) have input: "length buf = 4" "s_in st = buf @ s_in (whole_stream t)"
      by (auto simp: reads_frame_def)
    show ?thesis
    proof (cases "unat (u32_from_be_bytes buf) > MAX_MSG_BYTES")
      case True
      with filled Header show ?thesis by (simp add: not_reading after_header_def Let_def)
    next
      case False
      with filled Header input show ?thesis
        by (auto simp: reads_frame_def after_header_def Let_def intro!: exI [of _ buf])
    qed
  next
    case Payload
    with filled show ?thesis by (simp add: not_reading)
  qed
qed (simp_all add: not_reading)

lemma conn_reach_reads_frame: "conn_reach T st t \<Longrightarrow> reads_frame st t"
proof (induction rule: conn_reach.induct)
  case begins
  show ?case by (simp add: reads_frame_def start_task_def whole_stream_def)
next
  case (goes_on t t')
  from goes_on.hyps(2) show ?case
    unfolding conn_step_def
  proof
    assume "task_step T t t'"
    then show ?thesis using goes_on.IH by (rule reads_frame_task_step)
  next
    assume "peer_step t t'"
    then have same: "whole_stream t' = whole_stream t" "tk_pc t' = tk_pc t"
      using whole_stream_peer_step by blast+
    from goes_on.IH show ?thesis unfolding reads_frame_def same .
  qed
qed

text \<open>So a complete payload buffer is what \<open>recv_json\<close> decodes.\<close>

lemma full_payload_recv:
  assumes "conn_reach T st t" and "tk_pc t = Read Payload n buf" and "length buf = n"
  shows "\<exists>st'. recv_json J st = (map_err Msg (from_slice J buf), st')"
proof -
  from conn_reach_reads_frame [OF assms(1)] assms(2) obtain hdr where
    hdr: "length hdr = 4" "n = unat (u32_from_be_bytes hdr)" "n \<le> MAX_MSG_BYTES"
      "s_in st = hdr @ buf @ s_in (whole_stream t)"
    by (auto simp: reads_frame_def)
  then have "lp_unframe get_frame_len (s_in st) = Some (buf, s_in (whole_stream t))"
    using assms(3) by (simp add: lp_unframe_def get_frame_len_def Let_def)
  then show ?thesis using recv_json_unframe by blast
qed

section \<open>Two servers that differ in their secrets\<close>

definition same_public ::
  "('k, 'kp, 'cert, 'csr) task_env \<Rightarrow> ('k2, 'kp2, 'cert2, 'csr2) task_env \<Rightarrow> bool" where
  "same_public T T' \<longleftrightarrow> te_peer_cid T' = te_peer_cid T \<and> te_config T' = te_config T \<and>
     se_request_json (te_server T') = se_request_json (te_server T) \<and>
     se_response_json (te_server T') = se_response_json (te_server T)"

text \<open>The input holds no request that the policy allows.\<close>

definition refused_input :: "('k, 'kp, 'cert, 'csr) task_env \<Rightarrow> stream \<Rightarrow> bool" where
  "refused_input T st \<longleftrightarrow>
     (case recv_json (se_request_json (te_server T)) st of
        (Ok req, _) \<Rightarrow> refusal (te_config T) (te_peer_cid T) req \<noteq> None
      | _ \<Rightarrow> True)"

lemma best_effort_same: "same_public T T' \<Longrightarrow> best_effort T' e = best_effort T e"
  by (simp add: best_effort_def same_public_def)

lemma fail_task_same: "same_public T T' \<Longrightarrow> fail_task T' best e = fail_task T best e"
  by (simp add: fail_task_def best_effort_same)

lemma after_flush_same: "same_public T T' \<Longrightarrow> after_flush T' best st = after_flush T best st"
  by (simp add: after_flush_def fail_task_same split: option.split)

lemma after_header_same: "same_public T T' \<Longrightarrow> after_header T' buf = after_header T buf"
  by (simp add: after_header_def best_effort_same Let_def)

lemma decide_same:
  assumes "same_public T T'"
    and "\<And>req. from_slice (se_request_json (te_server T)) buf = Ok req \<Longrightarrow>
      refusal (te_config T) (te_peer_cid T) req \<noteq> None"
  shows "decide T' buf = decide T buf"
proof (cases "from_slice (se_request_json (te_server T)) buf")
  case (Ok req)
  from assms(2) [OF Ok] show ?thesis
    using assms(1) Ok by (auto simp: decide_def same_public_def refusal_def split: option.splits if_splits)
qed (use assms(1) in \<open>simp_all add: decide_def same_public_def\<close>)

lemma after_payload_same:
  assumes "same_public T T'" and "decide T' buf = decide T buf"
  shows "after_payload T' buf = after_payload T buf"
  using assms best_effort_same [OF assms(1)]
  by (auto simp: after_payload_def begin_answer_def same_public_def split: res.split)

lemma task_step_same:
  assumes "task_step T t t'" and "conn_reach T st t" and "refused_input T st" and "same_public T T'"
  shows "task_step T' t t'"
  using assms(1)
proof (cases rule: task_step.cases)
  case (filled g n buf)
  have "after_read T' g buf = after_read T g buf"
  proof (cases g)
    case Payload
    with filled obtain st' where "recv_json (se_request_json (te_server T)) st =
        (map_err Msg (from_slice (se_request_json (te_server T)) buf), st')"
      using full_payload_recv [OF assms(2)] by blast
    with assms(3) have "refusal (te_config T) (te_peer_cid T) req \<noteq> None"
      if "from_slice (se_request_json (te_server T)) buf = Ok req" for req
      using that by (simp add: refused_input_def)
    from after_payload_same [OF assms(4) decide_same [OF assms(4) this]] Payload show ?thesis by simp
  qed (simp add: after_header_same [OF assms(4)])
  with filled show ?thesis by (metis task_step.filled)
next
  case (early_eof g n buf)
  then show ?thesis
    using task_step.early_eof [of t g n buf T'] by (simp add: fail_task_same [OF assms(4)])
next
  case (write_error best bs rest)
  then show ?thesis
    using task_step.write_error [of t best bs rest T'] by (simp add: fail_task_same [OF assms(4)])
next
  case (flushes best)
  then show ?thesis
    using task_step.flushes [of t best T'] by (simp add: after_flush_same [OF assms(4)])
qed (auto intro: task_step.intros)

lemma conn_step_same:
  "conn_step T t t' \<Longrightarrow> conn_reach T st t \<Longrightarrow> refused_input T st \<Longrightarrow> same_public T T' \<Longrightarrow> conn_step T' t t'"
  unfolding conn_step_def using task_step_same by blast

section \<open>The whole server\<close>

lemma unauthorised_refused:
  "unauthorised_conn (se_request_json E) config c \<Longrightarrow> refused_input (conn_env E config ca c) (cn_stream c)"
  unfolding unauthorised_conn_def refused_input_def conn_env_def task_env.simps .

lemma running_admitted:
  assumes "fine_run E config ca acts s" and "i < length (fs_tasks s)"
  shows "fst (fs_tasks s ! i) \<in> set (admitted config (concat (map abs_action acts)))"
proof -
  have "mset (admitted config (concat (map abs_action acts))) =
      mset (map fst (fs_tasks s)) + mset (map fst (fs_ended s))"
    using listener_run_accounted [OF fine_run_refines [OF assms(1)]] by (simp add: accounted_def fine_abs_def)
  then have "set (map fst (fs_tasks s)) \<subseteq> set (admitted config (concat (map abs_action acts)))"
    by (metis set_mset_mset set_mset_union sup_ge1)
  with assms(2) show ?thesis by auto
qed

lemma fine_step_same:
  assumes "fine_step E config ca s act s'" and "fine_run E config ca acts s"
    and "\<forall>c \<in> set (admitted config (concat (map abs_action acts))). unauthorised_conn (se_request_json E) config c"
    and "se_request_json E' = se_request_json E" "se_response_json E' = se_response_json E"
  shows "fine_step E' config ca' s act s'"
  using assms(1)
proof (cases rule: fine_step.cases)
  case (fine_accepts ev)
  then show ?thesis by (simp add: fine_accept_iff)
next
  case (fine_moves i t)
  let ?c = "fst (fs_tasks s ! i)"
  have "refused_input (conn_env E config ca ?c) (cn_stream ?c)"
    using assms(3) running_admitted [OF assms(2) fine_moves(3)] by (intro unauthorised_refused) blast
  moreover have "same_public (conn_env E config ca ?c) (conn_env E' config ca' ?c)"
    using assms(4,5) by (simp add: same_public_def conn_env_def)
  ultimately have "conn_step (conn_env E' config ca' ?c) (snd (fs_tasks s ! i)) t"
    using conn_step_same [OF fine_moves(4) tasks_aloneD [OF fine_run_alone [OF assms(2)] fine_moves(3)]] by blast
  with fine_moves show ?thesis by (auto intro: fine_step.fine_moves)
next
  case (fine_reaps i r)
  then show ?thesis by (auto intro: fine_step.fine_reaps)
qed

lemma fine_run_same:
  assumes "fine_run E config ca acts s"
    and "\<forall>c \<in> set (admitted config (concat (map abs_action acts))). unauthorised_conn (se_request_json E) config c"
    and "se_request_json E' = se_request_json E" "se_response_json E' = se_response_json E"
  shows "fine_run E' config ca' acts s"
  using assms(1,2)
proof (induction rule: fine_run.induct)
  case fine_starts
  show ?case by (rule fine_run.fine_starts)
next
  case (fine_continues acts s act s')
  have before: "\<forall>c \<in> set (admitted config (concat (map abs_action acts))).
      unauthorised_conn (se_request_json E) config c"
    using fine_continues.prems by (simp add: admitted_def)
  show ?case
    by (rule fine_run.fine_continues [OF fine_continues.IH [OF before]
          fine_step_same [OF fine_continues.hyps(2,1) before assms(3,4)]])
qed

section \<open>Properties\<close>

text \<open>Nothing of the CA reaches a peer that is not authorised, at any moment: a run of the server in which
  no admitted connection is authorised is, state by state, also a run of a server with any other CA,
  key and cryptographic library: the bytes that a peer has received after each step, the
  suspended tasks and the order in which things can happen are the same.\<close>

theorem interleaving_hides_ca:
  assumes "fine_run E config ca acts s"
    and "\<forall>c \<in> set (admitted config (concat (map abs_action acts))). unauthorised_conn (se_request_json E) config c"
    and "se_request_json E' = se_request_json E" "se_response_json E' = se_response_json E"
  shows "fine_run E' config ca' acts s"
  using assms by (rule fine_run_same)

theorem interleaving_hides_ca_witness:
  "\<exists>acts s out. fine_run (sample_server_env\<lparr>se_jwt := sample_jwt_lib (sample_claim\<lparr>cl_sub := ''root''\<rparr>)\<rparr>)
      sample_host_config (sample_ca\<lparr>ca_cert_pem := ''OTHER''\<rparr>) acts s \<and> fs_ended s = [(sample_conn 11 901, out)]"
proof -
  let ?s = "fine_init\<lparr>fs_tasks := [(sample_conn 11 901, start_task request_stream)]\<rparr>"
  have "fine_run sample_server_env sample_host_config sample_ca [FAccept (Accepted (sample_conn 11 901))] ?s"
    by (rule run_FAccept [OF fine_run.fine_starts, where ev = "Accepted (sample_conn 11 901)"])
      (simp_all add: fine_accept_def fine_init_def sample_conn_def sample_host_config_def)
  from task_ends_alone [OF this, of 0] obtain k s' where
    run: "fine_run sample_server_env sample_host_config sample_ca
      ([FAccept (Accepted (sample_conn 11 901))] @ replicate k (FMove 0) @ [FReap 0]) s'"
    and ended: "map fst (fs_ended s') = [sample_conn 11 901]"
    by (auto simp: fine_init_def)
  have "refusal sample_host_config 11 sample_cert_request \<noteq> None"
    using sample_wrong_cid by (simp add: refusal_None_iff)
  then have "\<forall>c \<in> set (admitted sample_host_config (concat (map abs_action
        ([FAccept (Accepted (sample_conn 11 901))] @ replicate k (FMove 0) @ [FReap 0])))).
      unauthorised_conn (se_request_json sample_server_env) sample_host_config c"
    by (auto simp: admitted_def unauthorised_conn_def sample_conn_def request_stream_recv)
  from interleaving_hides_ca [OF run this] ended show ?thesis by force
qed

end
