(* ===== verification/Isolation.thy ===== *)
theory Isolation
  imports Secrecy
begin

text \<open>
  What a group of peers can see of a server that serves others at the same time: it is what they see
  of a server that serves only them. With the noninterference of \<open>Secrecy\<close>, the peers that are not
  authorised learn nothing of the CA from a server that issues certificates to others.
\<close>

section \<open>A part of the connections\<close>

text \<open>What some of the peers can see of the server.\<close>

definition restrict :: "(conn \<Rightarrow> bool) \<Rightarrow> fine_state \<Rightarrow> fine_state" where
  "restrict P s = s\<lparr>fs_tasks := filter (P \<circ> fst) (fs_tasks s), fs_ended := filter (P \<circ> fst) (fs_ended s)\<rparr>"

definition position :: "('a \<Rightarrow> bool) \<Rightarrow> 'a list \<Rightarrow> nat \<Rightarrow> nat" where
  "position P xs i = length (filter P (take i xs))"

lemma filter_at:
  assumes "i < length xs"
  shows "filter P xs = filter P (take i xs) @ (if P (xs ! i) then [xs ! i] else []) @ filter P (drop (Suc i) xs)"
  using arg_cong [OF id_take_nth_drop [OF assms], of "filter P"] by simp

lemma position_nth:
  assumes "i < length xs" and "P (xs ! i)"
  shows "position P xs i < length (filter P xs)" and "filter P xs ! position P xs i = xs ! i"
    and "take (position P xs i) (filter P xs) = filter P (take i xs)"
    and "drop (Suc (position P xs i)) (filter P xs) = filter P (drop (Suc i) xs)"
  using filter_at [OF assms(1), of P] assms(2) by (simp_all add: position_def nth_append)

lemma filter_update_in:
  assumes "i < length xs" and "P (xs ! i)" and "P y"
  shows "filter P (xs[i := y]) = (filter P xs)[position P xs i := y]"
  using assms position_nth [of i xs P, OF assms(1,2)] by (simp add: upd_conv_take_nth_drop)

lemma filter_update_out:
  assumes "i < length xs" and "\<not> P (xs ! i)" and "\<not> P y"
  shows "filter P (xs[i := y]) = filter P xs"
  using assms filter_at [OF assms(1), of P] by (simp add: upd_conv_take_nth_drop)

lemma restrict_init: "restrict P fine_init = fine_init"
  by (simp add: restrict_def fine_init_def)

lemma admitted_moves [simp]:
  "admitted config (abs_action (FMove i)) = []" "admitted config (abs_action (FReap i)) = []"
  by (simp_all add: admitted_def)

lemma restrict_simps [simp]:
  "fs_tasks (restrict P s) = filter (P \<circ> fst) (fs_tasks s)" "fs_ended (restrict P s) = filter (P \<circ> fst) (fs_ended s)"
  by (simp_all add: restrict_def)

text \<open>A move or the end of a task is one here too, at the position among these peers.\<close>

lemma restrict_move:
  assumes "i < length (fs_tasks s)"
  shows "restrict P (move_task i t s) =
    (if P (fst (fs_tasks s ! i)) then move_task (position (P \<circ> fst) (fs_tasks s) i) t (restrict P s) else restrict P s)"
  using assms position_nth [of i "fs_tasks s" "P \<circ> fst"]
  by (simp add: restrict_def move_task_def filter_update_in filter_update_out)

lemma restrict_reap:
  assumes "i < length (fs_tasks s)"
  shows "restrict P (reap_task i r s) =
    (if P (fst (fs_tasks s ! i)) then reap_task (position (P \<circ> fst) (fs_tasks s) i) r (restrict P s) else restrict P s)"
  using assms position_nth [of i "fs_tasks s" "P \<circ> fst"] filter_at [of i "fs_tasks s" "P \<circ> fst"]
  by (simp add: restrict_def reap_task_def)

lemma restrict_accept:
  "restrict P (fine_accept config ev s) = fine_accept config ev (restrict P s) \<and>
     admitted config (abs_action (FAccept ev)) = filter P (admitted config (abs_action (FAccept ev))) \<or>
   restrict P (fine_accept config ev s) = restrict P s \<and> filter P (admitted config (abs_action (FAccept ev))) = []"
  by (cases ev) (auto simp: restrict_def fine_accept_def admitted_def)

text \<open>A step is, for these peers, a step of a server that accepts only them, or nothing.\<close>

lemma fine_step_restrict:
  assumes "fine_step E config ca s act s'"
  shows "(restrict P s' = restrict P s \<and> filter P (admitted config (abs_action act)) = []) \<or>
    (\<exists>act'. fine_step E config ca (restrict P s) act' (restrict P s') \<and>
      admitted config (abs_action act') = filter P (admitted config (abs_action act)))"
  using assms
proof (cases rule: fine_step.cases)
  case (fine_accepts ev)
  with restrict_accept [of P config ev s] fine_step.fine_accepts show ?thesis by metis
next
  case (fine_moves i t)
  note at = position_nth [of i "fs_tasks s" "P \<circ> fst"]
  show ?thesis
  proof (cases "P (fst (fs_tasks s ! i))")
    case True
    with fine_moves at have "fine_step E config ca (restrict P s) (FMove (position (P \<circ> fst) (fs_tasks s) i)) (restrict P s')"
      by (simp add: restrict_move) (rule fine_step.fine_moves, simp_all)
    with fine_moves(1) show ?thesis by (intro disjI2 exI conjI) (assumption, simp del: abs_action.simps)
  qed (use fine_moves in \<open>simp add: restrict_move del: abs_action.simps\<close>)
next
  case (fine_reaps i r)
  note at = position_nth [of i "fs_tasks s" "P \<circ> fst"]
  show ?thesis
  proof (cases "P (fst (fs_tasks s ! i))")
    case True
    with fine_reaps at have "fine_step E config ca (restrict P s) (FReap (position (P \<circ> fst) (fs_tasks s) i)) (restrict P s')"
      by (simp add: restrict_reap) (rule fine_step.fine_reaps, simp_all)
    with fine_reaps(1) show ?thesis by (intro disjI2 exI conjI) (assumption, simp del: abs_action.simps)
  qed (use fine_reaps in \<open>simp add: restrict_reap del: abs_action.simps\<close>)
qed

lemma admitted_append [simp]: "admitted config (xs @ ys) = admitted config xs @ admitted config ys"
  by (simp add: admitted_def)

lemma fine_run_restrict:
  assumes "fine_run E config ca acts s"
  shows "\<exists>acts'. fine_run E config ca acts' (restrict P s) \<and>
    admitted config (concat (map abs_action acts')) = filter P (admitted config (concat (map abs_action acts)))"
  using assms
proof (induction rule: fine_run.induct)
  case fine_starts
  show ?case by (intro exI [of _ "[]"]) (simp add: restrict_init fine_run.fine_starts admitted_def)
next
  case (fine_continues acts s act s')
  then obtain acts' where acts': "fine_run E config ca acts' (restrict P s)"
      "admitted config (concat (map abs_action acts')) = filter P (admitted config (concat (map abs_action acts)))"
    by blast
  from fine_step_restrict [OF fine_continues(2), of P] show ?case
  proof (elim disjE exE conjE)
    assume "restrict P s' = restrict P s" and "filter P (admitted config (abs_action act)) = []"
    with acts' show ?thesis by (intro exI [of _ acts']) (simp del: abs_action.simps)
  next
    fix act'
    assume "fine_step E config ca (restrict P s) act' (restrict P s')"
      and "admitted config (abs_action act') = filter P (admitted config (abs_action act))"
    with acts' show ?thesis
      by (intro exI [of _ "acts' @ [act']"]) (simp add: fine_run.fine_continues del: abs_action.simps)
  qed
qed

section \<open>Properties\<close>

text \<open>C8: nothing of the CA reaches the peers that are not authorised, also while the server issues certificates
  to others: all that they see of a run together, every intermediate state of their tasks and every
  byte written to them, is a run of a server with any other CA, key and cryptographic library that
  serves only them.\<close>

theorem mixed_traffic_hides_ca:
  assumes "fine_run E config ca acts s"
    and "se_request_json E' = se_request_json E" "se_response_json E' = se_response_json E"
  shows "\<exists>acts'. fine_run E' config ca' acts' (restrict (unauthorised_conn (se_request_json E) config) s) \<and>
    admitted config (concat (map abs_action acts')) =
      filter (unauthorised_conn (se_request_json E) config) (admitted config (concat (map abs_action acts)))"
proof -
  from fine_run_restrict [OF assms(1)] obtain acts' where
    run: "fine_run E config ca acts' (restrict (unauthorised_conn (se_request_json E) config) s)"
    and only: "admitted config (concat (map abs_action acts')) =
      filter (unauthorised_conn (se_request_json E) config) (admitted config (concat (map abs_action acts)))"
    by blast
  from fine_run_same [OF run _ assms(2,3)] only show ?thesis by auto
qed

theorem mixed_traffic_hides_ca_witness:
  "\<exists>acts s. fine_run (sample_server_env\<lparr>se_jwt := sample_jwt_lib (sample_claim\<lparr>cl_sub := ''root''\<rparr>)\<rparr>)
      sample_host_config (sample_ca\<lparr>ca_cert_pem := ''OTHER''\<rparr>) acts s \<and>
    fs_tasks s = [] \<and> map fst (fs_ended s) = [sample_conn 11 901]"
proof -
  have "1 < length (fs_tasks sample_fine_state)" by (simp add: sample_fine_state_def)
  from task_ends_alone [OF sample_fine_run this, of sample_server_env sample_ca] obtain acts s where
    run: "fine_run sample_server_env sample_host_config sample_ca acts s"
    and tasks: "fs_tasks s = [(sample_conn 10 901, start_task request_stream)]"
    and ended: "map fst (fs_ended s) = [sample_conn 11 901]"
    by (auto simp: sample_fine_state_def)
  have "refusal sample_host_config 10 sample_cert_request = None"
    using sample_authorised by (auto simp: refusal_None_iff)
  then have served: "\<not> unauthorised_conn request_serde sample_host_config (sample_conn 10 901)"
    by (simp add: unauthorised_conn_def sample_conn_def request_stream_recv)
  have "refusal sample_host_config 11 sample_cert_request \<noteq> None"
    using sample_wrong_cid by (simp add: refusal_None_iff)
  then have refused: "unauthorised_conn request_serde sample_host_config (sample_conn 11 901)"
    by (simp add: unauthorised_conn_def sample_conn_def request_stream_recv)
  let ?E = "sample_server_env\<lparr>se_jwt := sample_jwt_lib (sample_claim\<lparr>cl_sub := ''root''\<rparr>)\<rparr>"
  from mixed_traffic_hides_ca [OF run, of ?E "sample_ca\<lparr>ca_cert_pem := ''OTHER''\<rparr>"] obtain acts' where
    "fine_run ?E sample_host_config (sample_ca\<lparr>ca_cert_pem := ''OTHER''\<rparr>) acts'
      (restrict (unauthorised_conn request_serde sample_host_config) s)"
    by auto
  moreover have "fs_tasks (restrict (unauthorised_conn request_serde sample_host_config) s) = []"
    using tasks served by simp
  moreover have "map fst (fs_ended (restrict (unauthorised_conn request_serde sample_host_config) s)) = [sample_conn 11 901]"
    using ended refused by (auto simp: map_eq_Cons_conv)
  ultimately show ?thesis by (intro exI conjI)
qed

end
