(* ===== verification/Backpressure.thy ===== *)
theory Backpressure
  imports Task
begin

text \<open>
  Flow control on the connection of a task. \<open>Task\<close> lets the transport take a part of every write; a
  real one has a buffer, and a peer that stops reading makes the writes of \<open>codec.rs\<close> wait. Here the
  transport holds at most \<open>W\<close> bytes that the peer has not read, and the peer reads when it likes. Every
  run with flow control is a run of \<open>Task\<close>, so what is proved there holds; this theory says what flow
  control adds: when a write is blocked, and that nothing but the peer can leave a task waiting.
\<close>

section \<open>The bounded transport\<close>

text \<open>\<open>fl_read\<close> counts the bytes of the task's output that the peer has taken out of the transport.\<close>

record flow =
  fl_task :: task
  fl_read :: nat

abbreviation sent :: "task \<Rightarrow> nat" where
  "sent t \<equiv> length (s_out (tk_stream t))"

text \<open>
  A step of the task has to leave the buffer within its capacity: a write takes at most as many bytes
  as there is room for, and none when the buffer is full. The peer's bytes arrive as before, and the
  peer reads some of what was sent.
\<close>

inductive flow_step ::
  "nat \<Rightarrow> ('k, 'kp, 'cert, 'csr) task_env \<Rightarrow> flow \<Rightarrow> flow \<Rightarrow> bool" for W T where
  flow_task: "task_step T (fl_task f) t' \<Longrightarrow> sent t' \<le> W + fl_read f \<Longrightarrow>
    flow_step W T f (f\<lparr>fl_task := t'\<rparr>)"
| flow_peer: "peer_step (fl_task f) t' \<Longrightarrow> flow_step W T f (f\<lparr>fl_task := t'\<rparr>)"
| flow_reads: "0 < k \<Longrightarrow> fl_read f + k \<le> sent (fl_task f) \<Longrightarrow>
    flow_step W T f (f\<lparr>fl_read := fl_read f + k\<rparr>)"

definition flow_start :: "stream \<Rightarrow> flow" where
  "flow_start st = \<lparr>fl_task = start_task st, fl_read = length (s_out st)\<rparr>"

inductive flow_reach ::
  "nat \<Rightarrow> ('k, 'kp, 'cert, 'csr) task_env \<Rightarrow> stream \<Rightarrow> flow \<Rightarrow> bool" for W T st where
  flow_begins: "flow_reach W T st (flow_start st)"
| flow_goes_on: "flow_reach W T st f \<Longrightarrow> flow_step W T f f' \<Longrightarrow> flow_reach W T st f'"

text \<open>A write is blocked: there is something to write, the transport works, and its buffer is full.\<close>

definition blocked :: "nat \<Rightarrow> flow \<Rightarrow> bool" where
  "blocked W f \<longleftrightarrow> (case tk_pc (fl_task f) of
     Write best bs rest \<Rightarrow> bs \<noteq> [] \<and> s_room (tk_stream (fl_task f)) \<noteq> Some 0 \<and>
       sent (fl_task f) = W + fl_read f
   | _ \<Rightarrow> False)"

section \<open>Erasing the flow control\<close>

lemma flow_step_erase:
  "flow_step W T f f' \<Longrightarrow> fl_task f' = fl_task f \<or> conn_step T (fl_task f) (fl_task f')"
  by (induction rule: flow_step.induct) (auto simp: conn_step_def)

lemma flow_reach_erase: "flow_reach W T st f \<Longrightarrow> conn_reach T st (fl_task f)"
proof (induction rule: flow_reach.induct)
  case flow_begins
  show ?case by (simp add: flow_start_def begins)
next
  case (flow_goes_on f f')
  from flow_step_erase [OF flow_goes_on.hyps(2)] flow_goes_on.IH show ?case by (auto intro: goes_on)
qed

text \<open>Only a write adds to the output.\<close>

lemma task_step_sent:
  assumes "task_step T t t'"
  obtains (quiet) "sent t' = sent t"
    | (wrote) best xs ys rest where "tk_pc t = Write best (xs @ ys) rest" "xs \<noteq> []" "has_room xs (tk_stream t)"
      "sent t' = sent t + length xs"
  using assms by (cases rule: task_step.cases) (simp_all add: takes_def)

lemma peer_step_sent: "peer_step t t' \<Longrightarrow> sent t' = sent t"
  by (induction rule: peer_step.induct) simp_all

text \<open>The transport never holds more than its capacity.\<close>

lemma flow_step_bounds:
  assumes "flow_step W T f f'" and "fl_read f \<le> sent (fl_task f)" "sent (fl_task f) \<le> W + fl_read f"
  shows "fl_read f' \<le> sent (fl_task f') \<and> sent (fl_task f') \<le> W + fl_read f'"
  using assms(1)
proof (cases rule: flow_step.cases)
  case (flow_task t')
  from flow_task(2) have "sent (fl_task f) \<le> sent t'" by (cases rule: task_step_sent) simp_all
  with flow_task assms(2) show ?thesis by simp
qed (use assms(2,3) in \<open>simp_all add: peer_step_sent\<close>)

lemma flow_reach_bounds:
  "flow_reach W T st f \<Longrightarrow> fl_read f \<le> sent (fl_task f) \<and> sent (fl_task f) \<le> W + fl_read f"
proof (induction rule: flow_reach.induct)
  case flow_begins
  show ?case by (simp add: flow_start_def start_task_def)
next
  case (flow_goes_on f f')
  then show ?case using flow_step_bounds by blast
qed

section \<open>When the task can go on\<close>

lemma blocked_no_step:
  assumes "blocked W f" and "task_step T (fl_task f) t'"
  shows "\<not> sent t' \<le> W + fl_read f"
  using assms(2,1) by (cases rule: task_step.cases) (auto simp: blocked_def takes_def)

lemma room_to_write:
  assumes "tk_pc t = Write best (x # xs) rest" and "s_room (tk_stream t) \<noteq> Some 0"
  shows "\<exists>t'. task_step T t t' \<and> sent t' = Suc (sent t)"
proof -
  have "has_room [x] (tk_stream t)" using assms(2) by (auto simp: has_room_def split: option.split)
  with assms(1) have "task_step T t (t\<lparr>tk_pc := Write best xs rest, tk_stream := takes [x] (tk_stream t)\<rparr>)"
    by (intro writes) simp_all
  moreover have "sent (t\<lparr>tk_pc := Write best xs rest, tk_stream := takes [x] (tk_stream t)\<rparr>) = Suc (sent t)"
    by (simp add: takes_def)
  ultimately show ?thesis by blast
qed

lemma flow_can_step:
  assumes "flow_reach W T st f" and "\<not> finished (fl_task f)" "\<not> waiting (fl_task f)" "\<not> blocked W f"
  shows "\<exists>t'. task_step T (fl_task f) t' \<and> sent t' \<le> W + fl_read f"
proof -
  note bound = conjunct2 [OF flow_reach_bounds [OF assms(1)]]
  obtain t' where step: "task_step T (fl_task f) t'"
    using task_can_step [OF conn_reach_ok [OF flow_reach_erase [OF assms(1)]] assms(2,3)] by blast
  then show ?thesis
  proof (cases rule: task_step_sent)
    case quiet
    with step bound show ?thesis by auto
  next
    case (wrote best xs ys rest)
    then obtain x zs where pc: "tk_pc (fl_task f) = Write best (x # zs) rest" by (cases xs) auto
    have room: "s_room (tk_stream (fl_task f)) \<noteq> Some 0"
      using wrote(2,3) by (auto simp: has_room_def)
    with assms(4) pc bound have "Suc (sent (fl_task f)) \<le> W + fl_read f" by (simp add: blocked_def)
    with room_to_write [OF pc room] show ?thesis by metis
  qed
qed

text \<open>A peer that reads unblocks the task.\<close>

lemma blocked_peer_can_read:
  assumes "0 < W" and "blocked W f"
  shows "\<exists>f'. flow_step W T f f' \<and> \<not> blocked W f'"
proof -
  have "fl_read f + 1 \<le> sent (fl_task f)"
    using assms by (auto simp: blocked_def split: pc.splits)
  then have "flow_step W T f (f\<lparr>fl_read := fl_read f + 1\<rparr>)" by (intro flow_reads) simp_all
  moreover have "\<not> blocked W (f\<lparr>fl_read := fl_read f + 1\<rparr>)"
    using assms(2) by (auto simp: blocked_def split: pc.splits)
  ultimately show ?thesis by blast
qed

section \<open>Termination\<close>

definition flow_order :: "(flow \<times> flow) set" where
  "flow_order = inv_image (progress_order <*lex*> less_than) (\<lambda>f. (fl_task f, sent (fl_task f) - fl_read f))"

lemma wf_flow_order: "wf flow_order"
  by (simp add: flow_order_def wf_progress_order wf_lex_prod)

lemma flow_step_decreases: "flow_step W T f f' \<Longrightarrow> (f', f) \<in> flow_order"
  by (induction rule: flow_step.induct)
    (auto simp: flow_order_def task_step_decreases peer_step_decreases)

lemma flow_reach_finishes:
  assumes "flow_reach W T st f" and "0 < W"
  shows "\<exists>f'. (flow_step W T)\<^sup>*\<^sup>* f f' \<and> flow_reach W T st f' \<and> finished (fl_task f')"
  using assms(1)
proof (induction f rule: wf_induct_rule [OF wf_flow_order])
  case (1 f)
  show ?case
  proof (cases "finished (fl_task f)")
    case False
    have "\<exists>f'. flow_step W T f f'"
    proof (cases "waiting (fl_task f) \<or> blocked W f")
      case True
      have "\<exists>f'. flow_step W T f f'" if "waiting (fl_task f)"
        using that peer_can_step [OF conn_reach_ok [OF flow_reach_erase [OF 1(2)]]]
        by (auto simp: waiting_def intro: flow_peer split: pc.splits)
      with True blocked_peer_can_read [OF assms(2)] show ?thesis by blast
    qed (use flow_can_step [OF 1(2) False] in \<open>blast intro: flow_task\<close>)
    then obtain f' where step: "flow_step W T f f'" ..
    from 1(1) [OF flow_step_decreases [OF step] flow_goes_on [OF 1(2) step]] step show ?thesis
      by (meson converse_rtranclp_into_rtranclp)
  qed (use 1(2) in blast)
qed

text \<open>A run in which the peer sends all it has but never reads comes to an end or to a blocked write.\<close>

lemma without_reading:
  assumes "flow_reach W T st f"
  shows "\<exists>f'. flow_reach W T st f' \<and> fl_read f' = fl_read f \<and> (finished (fl_task f') \<or> blocked W f')"
  using assms
proof (induction f rule: wf_induct_rule [OF wf_inv_image [OF wf_progress_order, of fl_task]])
  case (1 f)
  show ?case
  proof (cases "finished (fl_task f) \<or> blocked W f")
    case False
    have "\<exists>t'. conn_step T (fl_task f) t' \<and> (task_step T (fl_task f) t' \<longrightarrow> sent t' \<le> W + fl_read f)"
    proof (cases "waiting (fl_task f)")
      case True
      with peer_can_step [OF conn_reach_ok [OF flow_reach_erase [OF 1(2)]]] no_step_waiting [OF True]
      show ?thesis by (auto simp: waiting_def conn_step_def split: pc.splits)
    qed (use flow_can_step [OF 1(2)] False in \<open>auto simp: conn_step_def\<close>)
    then obtain t' where step: "conn_step T (fl_task f) t'" "task_step T (fl_task f) t' \<longrightarrow> sent t' \<le> W + fl_read f"
      by blast
    then have "flow_step W T f (f\<lparr>fl_task := t'\<rparr>)"
      unfolding conn_step_def using flow_task flow_peer by blast
    from flow_goes_on [OF 1(2) this] 1(1) [of "f\<lparr>fl_task := t'\<rparr>"] conn_step_decreases [OF step(1)]
    show ?thesis by simp
  qed (use 1(2) in blast)
qed

section \<open>Properties\<close>

text \<open>With flow control a task can be waiting for its peer in one more way: it can go on unless it has
  ended, has read all that arrived of an unfinished message, or has filled the transport's buffer
  with an answer that the peer does not read. Nothing else makes it wait, and no timeout ends the
  wait; the transport never holds more than its capacity.\<close>

theorem flow_control_sound:
  assumes "flow_reach W T st f"
  shows "sent (fl_task f) - fl_read f \<le> W \<and>
    ((\<exists>t'. task_step T (fl_task f) t' \<and> sent t' \<le> W + fl_read f) \<longleftrightarrow>
       \<not> finished (fl_task f) \<and> \<not> waiting (fl_task f) \<and> \<not> blocked W f)"
proof
  show "sent (fl_task f) - fl_read f \<le> W" using flow_reach_bounds [OF assms] by linarith
  show "(\<exists>t'. task_step T (fl_task f) t' \<and> sent t' \<le> W + fl_read f) \<longleftrightarrow>
      \<not> finished (fl_task f) \<and> \<not> waiting (fl_task f) \<and> \<not> blocked W f"
    using flow_can_step [OF assms] blocked_no_step no_step_waiting no_step_done unfolding finished_iff by blast
qed

theorem flow_control_sound_witness:
  "\<not> (\<exists>t'. task_step sample_task_env (start_task request_stream) t' \<and> sent t' \<le> 1 + length (s_out request_stream))"
  using flow_control_sound [OF flow_begins [of 1 sample_task_env request_stream]]
  by (simp add: flow_start_def waiting_def start_task_def)

text \<open>And a write does block: when the transport is too small for the answer and the peer never reads, the
  task gets to a state in which the buffer is full, and stays there.\<close>

theorem silent_peer_blocks_task:
  assumes "W + length (s_out st) < length (s_out (snd (handle_connection (te_server T) (te_call T)
    (te_peer_cid T) (te_config T) (te_ca T) st)))"
  shows "\<exists>f. flow_reach W T st f \<and> blocked W f \<and> (\<forall>t'. task_step T (fl_task f) t' \<longrightarrow> \<not> sent t' \<le> W + fl_read f)"
proof -
  obtain f where f: "flow_reach W T st f" "fl_read f = length (s_out st)" "finished (fl_task f) \<or> blocked W f"
    using without_reading [OF flow_begins [of W T st]] by (auto simp: flow_start_def)
  have "\<not> finished (fl_task f)"
  proof
    assume "finished (fl_task f)"
    then obtain r where "tk_pc (fl_task f) = Done r" by (auto simp: finished_iff)
    with conn_reach_outcome [OF flow_reach_erase [OF f(1)]] have
      "handle_connection (te_server T) (te_call T) (te_peer_cid T) (te_config T) (te_ca T) st =
        (r, whole_stream (fl_task f))"
      by (simp add: outcome_def)
    with assms flow_reach_bounds [OF f(1)] f(2) show False by simp
  qed
  with f blocked_no_step [of W f T] show ?thesis by blast
qed

theorem silent_peer_blocks_task_witness:
  "\<exists>f. flow_reach 3 sample_task_env request_stream f \<and> blocked 3 f"
proof -
  have "s_out request_stream = []" by (simp add: request_stream_def empty_stream_def)
  then have "3 + length (s_out request_stream) < length (s_out (snd (handle_connection (te_server sample_task_env)
      (te_call sample_task_env) (te_peer_cid sample_task_env) (te_config sample_task_env) (te_ca sample_task_env)
      request_stream)))"
    by (simp add: sample_handled lp_frame_def put_frame_len_def u32_to_be_bytes_def encode_response_def)
  from silent_peer_blocks_task [OF this] show ?thesis by blast
qed

text \<open>With any capacity but zero a connection still terminates, however small the buffer is and however
  the peer's reads are cut: task, peer and transport together have no infinite run, and from every
  state they reach they can come to the end of the task, with the outcome of
  \<^const>\<open>handle_connection\<close>.\<close>

theorem flow_control_terminates:
  assumes "flow_reach W T st f" and "0 < W"
  shows "wf {(f', f). flow_step W T f f'} \<and>
    (\<exists>f' r. (flow_step W T)\<^sup>*\<^sup>* f f' \<and> tk_pc (fl_task f') = Done r \<and>
      handle_connection (te_server T) (te_call T) (te_peer_cid T) (te_config T) (te_ca T) st =
        (r, whole_stream (fl_task f')))"
proof -
  have "{(f', f). flow_step W T f f'} \<subseteq> flow_order" using flow_step_decreases by auto
  with wf_flow_order have "wf {(f', f). flow_step W T f f'}" by (rule wf_subset)
  moreover obtain f' r where f': "(flow_step W T)\<^sup>*\<^sup>* f f'" "flow_reach W T st f'" "tk_pc (fl_task f') = Done r"
    using flow_reach_finishes [OF assms] unfolding finished_iff by blast
  moreover from conn_reach_outcome [OF flow_reach_erase [OF f'(2)]] f'(3) have
    "handle_connection (te_server T) (te_call T) (te_peer_cid T) (te_config T) (te_ca T) st =
      (r, whole_stream (fl_task f'))"
    by (simp add: outcome_def)
  ultimately show ?thesis by blast
qed

theorem flow_control_terminates_witness:
  "\<exists>f' r. (flow_step 1 sample_task_env)\<^sup>*\<^sup>* (flow_start request_stream) f' \<and>
     tk_pc (fl_task f') = Done r \<and> r = Ok ()"
  using flow_control_terminates [OF flow_begins [of 1 sample_task_env request_stream]] sample_handled by auto

end
