(* ===== verification/Agent_Config.thy ===== *)
theory Agent_Config
  imports Config_Load
begin

text \<open>The agent's configuration (\<open>config.rs\<close> of \<open>auth-scope-agent\<close>) and its loader.\<close>

record EntityEntry =
  en_name :: string
  en_cert_path :: path
  en_key_path :: path
  en_ca_path :: path
  en_owner_uid :: u32
  en_owner_gid :: u32
  en_cert_mode :: string
  en_key_mode :: string

record AgentConfig =
  ag_vm_name :: string
  ag_server_port :: u32
  ag_entities :: "EntityEntry list"
  ag_client_port :: u32

definition agent_default_server_port :: u32 where
  "agent_default_server_port = 900"

definition default_client_port :: u32 where
  "default_client_port = 901"

definition default_cert_mode :: string where
  "default_cert_mode = ''0640''"

definition default_key_mode :: string where
  "default_key_mode = ''0600''"

section \<open>Reading the JSON fields\<close>

record EntityEntry_json =
  ej_name :: "string option"
  ej_cert_path :: "path option"
  ej_key_path :: "path option"
  ej_ca_path :: "path option"
  ej_owner_uid :: "u32 option"
  ej_owner_gid :: "u32 option"
  ej_cert_mode :: "string option"
  ej_key_mode :: "string option"

record AgentConfig_json =
  aj_vm_name :: "string option"
  aj_server_port :: "u32 option"
  aj_entities :: "EntityEntry_json list option"
  aj_client_port :: "u32 option"

definition EntityEntry_of_json :: "(string \<Rightarrow> string) \<Rightarrow> EntityEntry_json \<Rightarrow> (EntityEntry, string) res" where
  "EntityEntry_of_json missing j =
     rbind (required missing ''name'' (ej_name j)) (\<lambda>name.
     rbind (required missing ''cert_path'' (ej_cert_path j)) (\<lambda>cert_path.
     rbind (required missing ''key_path'' (ej_key_path j)) (\<lambda>key_path.
     rbind (required missing ''ca_path'' (ej_ca_path j)) (\<lambda>ca_path.
     rbind (required missing ''owner_uid'' (ej_owner_uid j)) (\<lambda>uid.
     rbind (required missing ''owner_gid'' (ej_owner_gid j)) (\<lambda>gid.
     rbind (defaulted default_cert_mode (ej_cert_mode j)) (\<lambda>cert_mode.
     rbind (defaulted default_key_mode (ej_key_mode j)) (\<lambda>key_mode.
       Ok \<lparr>en_name = name, en_cert_path = cert_path, en_key_path = key_path, en_ca_path = ca_path,
           en_owner_uid = uid, en_owner_gid = gid, en_cert_mode = cert_mode, en_key_mode = key_mode\<rparr>))))))))"

text \<open>The elements of \<open>entities\<close> are read before the missing fields of the outer struct are noticed.\<close>

definition AgentConfig_of_json :: "(string \<Rightarrow> string) \<Rightarrow> AgentConfig_json \<Rightarrow> (AgentConfig, string) res" where
  "AgentConfig_of_json missing j =
     rbind (case aj_entities j of
              None \<Rightarrow> Ok None
            | Some es \<Rightarrow> rbind (map_res (EntityEntry_of_json missing) es) (\<lambda>xs. Ok (Some xs))) (\<lambda>es.
     rbind (required missing ''vm_name'' (aj_vm_name j)) (\<lambda>vm_name.
     rbind (defaulted agent_default_server_port (aj_server_port j)) (\<lambda>server_port.
     rbind (required missing ''entities'' es) (\<lambda>entities.
     rbind (defaulted default_client_port (aj_client_port j)) (\<lambda>client_port.
       Ok \<lparr>ag_vm_name = vm_name, ag_server_port = server_port, ag_entities = entities,
           ag_client_port = client_port\<rparr>)))))"

definition AgentConfig_from_file ::
  "AgentConfig_json json_text \<Rightarrow> path \<Rightarrow> (fs, AgentConfig, anyhow) io" where
  "AgentConfig_from_file J p =
     io_bind (io_map_err Msg (read_to_string p)) (\<lambda>data.
     io_bind (io_lift (map_err Msg (rbind (parse_text J data)
         (AgentConfig_of_json (missing_field_msg J data))))) (\<lambda>cfg.
       if ag_server_port cfg \<ge> 1000 then io_lift (Err (Msg (server_port_msg (ag_server_port cfg))))
       else io_ret cfg))"

interpretation agent_loader: port_checked_loader "AgentConfig_from_file J" ag_server_port
  by unfold_locales
    (auto simp: AgentConfig_from_file_def io_inv res_simps dest: read_to_string_again
      intro!: stays split: if_splits)

section \<open>Which configurations are accepted\<close>

text \<open>The specification of the loader, as for the server: the required fields, and the values.\<close>

definition entity_complete :: "EntityEntry_json \<Rightarrow> bool" where
  "entity_complete j \<longleftrightarrow> ej_name j \<noteq> None \<and> ej_cert_path j \<noteq> None \<and> ej_key_path j \<noteq> None \<and>
     ej_ca_path j \<noteq> None \<and> ej_owner_uid j \<noteq> None \<and> ej_owner_gid j \<noteq> None"

definition entity_value :: "EntityEntry_json \<Rightarrow> EntityEntry" where
  "entity_value j = \<lparr>en_name = the (ej_name j), en_cert_path = the (ej_cert_path j),
     en_key_path = the (ej_key_path j), en_ca_path = the (ej_ca_path j),
     en_owner_uid = the (ej_owner_uid j), en_owner_gid = the (ej_owner_gid j),
     en_cert_mode = (case ej_cert_mode j of None \<Rightarrow> ''0640'' | Some m \<Rightarrow> m),
     en_key_mode = (case ej_key_mode j of None \<Rightarrow> ''0600'' | Some m \<Rightarrow> m)\<rparr>"

definition agent_complete :: "AgentConfig_json \<Rightarrow> bool" where
  "agent_complete j \<longleftrightarrow> aj_vm_name j \<noteq> None \<and> aj_entities j \<noteq> None \<and>
     list_all entity_complete (the (aj_entities j))"

definition agent_value :: "AgentConfig_json \<Rightarrow> AgentConfig" where
  "agent_value j = \<lparr>ag_vm_name = the (aj_vm_name j),
     ag_server_port = (case aj_server_port j of None \<Rightarrow> 900 | Some n \<Rightarrow> n),
     ag_entities = map entity_value (the (aj_entities j)),
     ag_client_port = (case aj_client_port j of None \<Rightarrow> 901 | Some n \<Rightarrow> n)\<rparr>"

lemma entity_reads: "reads_complete entity_complete entity_value (EntityEntry_of_json missing)"
  unfolding reads_complete_def
proof
  fix j
  show "if entity_complete j then EntityEntry_of_json missing j = Ok (entity_value j)
    else (\<exists>e. EntityEntry_of_json missing j = Err e)"
    by (cases "ej_name j"; cases "ej_cert_path j"; cases "ej_key_path j"; cases "ej_ca_path j";
        cases "ej_owner_uid j"; cases "ej_owner_gid j")
      (simp_all add: entity_complete_def entity_value_def EntityEntry_of_json_def required_def defaulted_def
        default_cert_mode_def default_key_mode_def)
qed

lemma agent_reads: "reads_complete agent_complete agent_value (AgentConfig_of_json missing)"
  unfolding reads_complete_def
proof
  fix j
  note entries = map_res_complete [OF entity_reads [of missing]]
  note defs = agent_complete_def agent_value_def AgentConfig_of_json_def required_def defaulted_def
    agent_default_server_port_def default_client_port_def
  show "if agent_complete j then AgentConfig_of_json missing j = Ok (agent_value j)
    else (\<exists>e. AgentConfig_of_json missing j = Err e)"
  proof (cases "aj_entities j")
    case None
    then show ?thesis by (cases "aj_vm_name j") (simp_all add: defs)
  next
    case (Some es)
    show ?thesis
    proof (cases "list_all entity_complete es")
      case True
      with Some entries(1) [OF True] show ?thesis by (cases "aj_vm_name j") (simp_all add: defs)
    next
      case False
      with Some entries(2) [OF False] show ?thesis by (auto simp: agent_complete_def AgentConfig_of_json_def)
    qed
  qed
qed

section \<open>Properties\<close>

text \<open>The agent accepts a configuration file exactly when no required field is missing, the owner of every
  entity's files included, and the server port is below 1000; then every field has the value in the
  file or its declared default, and the entities keep their order.\<close>

theorem agent_config_loads:
  assumes "read_to_string p s = (Ok data, s')" and "parse_text J data = Ok j"
  shows "if agent_complete j \<and> unat (ag_server_port (agent_value j)) < 1000
    then AgentConfig_from_file J p s = (Ok (agent_value j), s')
    else (\<exists>e. AgentConfig_from_file J p s = (Err e, s'))"
proof (cases "agent_complete j")
  case True
  with reads_completeD(1) [OF agent_reads] have
    "AgentConfig_of_json (missing_field_msg J data) j = Ok (agent_value j)" by blast
  with assms True show ?thesis
    by (simp add: AgentConfig_from_file_def res_simps word_le_nat_alt)
next
  case False
  with reads_completeD(2) [OF agent_reads] obtain e where
    "AgentConfig_of_json (missing_field_msg J data) j = Err e" by blast
  with assms False show ?thesis by (simp add: AgentConfig_from_file_def res_simps)
qed

definition sample_agent_json :: "u32 option \<Rightarrow> AgentConfig_json json_text" where
  "sample_agent_json uid = \<lparr>parse_text = (\<lambda>_. Ok \<lparr>aj_vm_name = Some ''vm'', aj_server_port = None,
     aj_entities = Some [\<lparr>ej_name = Some ''e'', ej_cert_path = Some [''c''], ej_key_path = Some [''k''],
       ej_ca_path = Some [''a''], ej_owner_uid = uid, ej_owner_gid = Some 0, ej_cert_mode = None,
       ej_key_mode = None\<rparr>], aj_client_port = None\<rparr>), missing_field_msg = (\<lambda>_ n. n)\<rparr>"

definition sample_config_disk :: fs where
  "sample_config_disk = \<lparr>fs_nodes = [[''f''] \<mapsto> Reg \<lparr>f_data = [], f_mode = 0, f_uid = 0, f_gid = 0\<rparr>],
     fs_umask = 0, fs_faults = []\<rparr>"

theorem agent_config_loads_witness:
  "(\<exists>e s'. AgentConfig_from_file (sample_agent_json None) [''f''] sample_config_disk = (Err e, s')) \<and>
    (\<exists>cfg s'. AgentConfig_from_file (sample_agent_json (Some 7)) [''f''] sample_config_disk = (Ok cfg, s') \<and>
       map en_key_mode (ag_entities cfg) = [''0600''])"
proof -
  have read: "read_to_string [''f''] sample_config_disk = (Ok [], sample_config_disk)"
    by (rule read_to_string_runs [where f = "\<lparr>f_data = [], f_mode = 0, f_uid = 0, f_gid = 0\<rparr>"])
      (simp_all add: sample_config_disk_def no_faults_def from_utf8_ascii [of "[]", simplified])
  have "\<exists>e s'. AgentConfig_from_file (sample_agent_json None) [''f''] sample_config_disk = (Err e, s')"
    using agent_config_loads [OF read, of "sample_agent_json None"]
    by (auto simp: sample_agent_json_def agent_complete_def entity_complete_def)
  moreover have "\<exists>cfg s'. AgentConfig_from_file (sample_agent_json (Some 7)) [''f''] sample_config_disk = (Ok cfg, s') \<and>
       map en_key_mode (ag_entities cfg) = [''0600'']"
    using agent_config_loads [OF read, of "sample_agent_json (Some 7)"]
    by (auto simp: sample_agent_json_def agent_complete_def entity_complete_def agent_value_def entity_value_def)
  ultimately show ?thesis by blast
qed

end
