(* ===== verification/Store.thy ===== *)
theory Store
  imports Agent_Config
begin

text \<open>
  How the agent writes an entity's certificate, key and CA certificate (\<open>store.rs\<close>): the parent
  directory is made, the file written, and only then its mode parsed and set and its owner changed.
\<close>

definition parse_octal_mode :: "string \<Rightarrow> (u32, anyhow) res" where
  "parse_octal_mode s =
     (let trimmed = trim_start_matches CHR ''0'' s;
          trimmed = (if trimmed = [] then ''0'' else trimmed)
      in map_err (\<lambda>e. Context (squote @ s @ squote @ '' is not a valid octal mode'')
                        (Msg (int_error_to_string e)))
           (u32_from_str_radix trimmed 8))"

definition write_file :: "path \<Rightarrow> bytes \<Rightarrow> string \<Rightarrow> u32 \<Rightarrow> u32 \<Rightarrow> (fs, unit, anyhow) io" where
  "write_file path data mode_str uid gid =
     io_bind (case path_parent path of
                Some parent \<Rightarrow>
                  io_map_err (\<lambda>e. Context (''creating directory '' @ path_display parent) (Msg e))
                    (create_dir_all parent)
              | None \<Rightarrow> io_ret ()) (\<lambda>_.
     io_bind (io_map_err (\<lambda>e. Context (''writing '' @ path_display path) (Msg e))
                (fs_write path data)) (\<lambda>_.
     io_bind (io_lift (map_err (Context (''parsing mode '' @ squote @ mode_str @ squote))
                (parse_octal_mode mode_str))) (\<lambda>mode.
     io_bind (io_map_err (\<lambda>e. Context (''setting permissions on '' @ path_display path) (Msg e))
                (set_permissions path mode)) (\<lambda>_.
     io_map_err (\<lambda>e. Context (''chown '' @ show_u32 uid @ '':'' @ show_u32 gid @ '' on '' @ path_display path)
                       (Msg e))
       (fs_chown path uid gid)))))"

definition store_entity_credentials ::
  "EntityEntry \<Rightarrow> string \<Rightarrow> string \<Rightarrow> string \<Rightarrow> (fs, unit, anyhow) io" where
  "store_entity_credentials entity cert_pem key_pem ca_pem =
     io_bind (io_map_err (Context (''writing cert to '' @ path_display (en_cert_path entity)))
       (write_file (en_cert_path entity) (as_bytes cert_pem) (en_cert_mode entity)
          (en_owner_uid entity) (en_owner_gid entity))) (\<lambda>_.
     io_bind (io_map_err (Context (''writing key to '' @ path_display (en_key_path entity)))
       (write_file (en_key_path entity) (as_bytes key_pem) (en_key_mode entity)
          (en_owner_uid entity) (en_owner_gid entity))) (\<lambda>_.
     io_map_err (Context (''writing CA cert to '' @ path_display (en_ca_path entity)))
       (write_file (en_ca_path entity) (as_bytes ca_pem) (en_cert_mode entity)
          (en_owner_uid entity) (en_owner_gid entity))))"

section \<open>Octal modes\<close>

lemma digits_value_trim: "digits_value 8 0 (trim_start_matches CHR ''0'' s) = digits_value 8 0 s"
  by (induction s) (simp_all add: trim_start_matches_def digits_value_def)

lemma all_digits_trim: "all_digits 8 s \<Longrightarrow> all_digits 8 (trim_start_matches CHR ''0'' s)"
  unfolding all_digits_def trim_start_matches_def list_all_iff
  by (auto dest: set_dropWhileD)

text \<open>The digit loop on octal digits fails on overflow only.\<close>

lemma radix_loop_overflow:
  assumes "1 \<le> r"
  shows "all_digits r s \<Longrightarrow> acc < 2 ^ 32 \<Longrightarrow> \<not> digits_value r acc s < 2 ^ 32 \<Longrightarrow>
    radix_loop r acc s = Err PosOverflow"
proof (induction s arbitrary: acc)
  case Nil
  then show ?case by (simp add: digits_value_def)
next
  case (Cons c s)
  then obtain d where d: "to_digit r c = Some d" and rest: "all_digits r s"
    by (auto simp: all_digits_def)
  then have "digits_value r acc (c # s) = digits_value r (acc * r + d) s"
    by (auto simp: digits_value_def to_digit_def Let_def split: if_splits)
  with Cons rest d show ?case by simp
qed

lemma parse_octal_digits:
  assumes "all_digits 8 s"
  shows "parse_octal_mode s =
    (if digits_value 8 0 s < 2 ^ 32 then Ok (of_nat (digits_value 8 0 s))
     else Err (Context (squote @ s @ squote @ '' is not a valid octal mode'')
            (Msg (int_error_to_string PosOverflow))))"
proof -
  define t where "t = trim_start_matches CHR ''0'' s"
  have t: "all_digits 8 t" "digits_value 8 0 t = digits_value 8 0 s"
    using assms by (simp_all add: t_def all_digits_trim digits_value_trim)
  show ?thesis
  proof (cases t)
    case Nil
    with t(2) have "digits_value 8 0 s = 0" by (simp add: digits_value_def)
    with Nil show ?thesis
      by (simp add: parse_octal_mode_def u32_from_str_radix_def to_digit_def flip: t_def)
  next
    case (Cons c cs)
    with t(1) have sign: "c \<noteq> CHR ''+''" "c \<noteq> CHR ''-''"
      by (auto simp: all_digits_def to_digit_def)
    show ?thesis
    proof (cases "digits_value 8 0 s < 2 ^ 32")
      case True
      with t Cons show ?thesis
        by (simp add: parse_octal_mode_def u32_from_str_radix_digits flip: t_def)
    next
      case False
      with t have "radix_loop 8 0 t = Err PosOverflow" by (simp add: radix_loop_overflow)
      with Cons sign False show ?thesis
        by (simp add: parse_octal_mode_def u32_from_str_radix_def flip: t_def)
    qed
  qed
qed

lemma bit_small_word:
  fixes m :: u32
  assumes "unat m < 2 ^ k" and "bit m n"
  shows "n < k"
proof (rule ccontr)
  assume "\<not> n < k"
  then have "(2::nat) ^ k \<le> 2 ^ n" by simp
  with assms(1) have "unat m < 2 ^ n" by linarith
  then have "unat m div 2 ^ n = 0" by simp
  moreover from assms(2) have "bit (unat m) n" by (simp add: bit_unsigned_iff)
  ultimately show False by (simp add: bit_iff_odd)
qed

text \<open>Plain permission bits (up to 0777) survive \<open>chmod\<close> and \<open>chown\<close> as they are.\<close>

lemma chown_mode_plain:
  assumes "unat m < 512"
  shows "chown_mode (m AND 0xFFF) = m"
proof -
  have "take_bit 9 m = m"
    using bit_small_word [of m 9] assms by (intro bit_word_eqI) (auto simp: bit_take_bit_iff)
  then have m: "m = m AND 0x1FF"
    by (simp add: take_bit_eq_mask mask_eq_exp_minus_1)
  have "chown_mode ((m AND 0x1FF) AND 0xFFF) = m AND 0x1FF"
    by (auto simp: chown_mode_def and.assoc)
  with m show ?thesis by simp
qed

section \<open>What a stored file looks like\<close>

text \<open>The inode a successful \<^const>\<open>write_file\<close> leaves behind.\<close>

definition stored_inode :: "bytes \<Rightarrow> u32 \<Rightarrow> u32 \<Rightarrow> u32 \<Rightarrow> inode" where
  "stored_inode data mode uid gid =
     \<lparr>f_data = data, f_mode = chown_mode (mode AND 0xFFF), f_uid = uid, f_gid = gid\<rparr>"

lemma stays_in_write_file [stays]:
  assumes "path \<noteq> []" and "set (prefixes_of path) \<subseteq> P"
  shows "stays_in P (write_file path data m u g)"
proof -
  have "path \<in> P" using assms(2) self_in_prefixes by blast
  then show ?thesis
    using assms prefixes_of_butlast [of path] unfolding write_file_def path_parent_def
    by (auto intro!: stays)
qed

text \<open>The first part of \<^const>\<open>write_file\<close>: the parent directory and the data.\<close>

lemma write_file_Ok:
  assumes "write_file path data mode_str uid gid s = (Ok x, s')" and "path \<noteq> []"
  obtains mode where "parse_octal_mode mode_str = Ok mode"
    and "fs_nodes s' path = Some (Reg (stored_inode data mode uid gid))"
    and "fs_umask s' = fs_umask s"
proof -
  from assms obtain s1 s2 mode s3 where
    "create_dir_all (butlast path) s = (Ok (), s1)"
    and w: "fs_write path data s1 = (Ok (), s2)"
    and mode: "parse_octal_mode mode_str = Ok mode"
    and c: "set_permissions path mode s2 = (Ok (), s3)"
    and o: "fs_chown path uid gid s3 = (Ok (), s')"
    by (auto simp: write_file_def path_parent_def io_inv)
  then have umask: "fs_umask s1 = fs_umask s"
    by (auto dest: create_dir_all_Ok simp: same_but_nodes_def)
  let ?f = "written_inode s1 path data"
  from fs_write_Ok [OF w] have s2: "fs_nodes s2 path = Some (Reg ?f)" "fs_umask s2 = fs_umask s1"
    by (simp_all add: same_but_nodes_def)
  from set_permissions_Ok [OF c s2(1)] have
    s3: "fs_nodes s3 path = Some (Reg (?f\<lparr>f_mode := mode AND 0xFFF\<rparr>))" "fs_umask s3 = fs_umask s2"
    by (simp_all add: same_but_nodes_def)
  from fs_chown_Ok [OF o s3(1)] have
    "fs_nodes s' path = Some (Reg (stored_inode data mode uid gid))" "fs_umask s' = fs_umask s3"
    by (auto simp: same_but_nodes_def stored_inode_def written_inode_def
        split: option.split node.split)
  with mode s3(2) s2(2) umask show thesis by (intro that) simp_all
qed

text \<open>It runs when nothing fails and no regular file stands where a directory is needed.\<close>

definition writable :: "fs \<Rightarrow> path \<Rightarrow> bool" where
  "writable s path \<longleftrightarrow> path \<noteq> [] \<and> fs_nodes s path \<noteq> Some Dir \<and>
     list_all (\<lambda>q. case fs_nodes s q of Some (Reg _) \<Rightarrow> False | _ \<Rightarrow> True) (prefixes_of (butlast path))"

definition after_mkdir :: "fs \<Rightarrow> path \<Rightarrow> fs" where
  "after_mkdir s path = s\<lparr>fs_nodes := (\<lambda>q. if q \<in> set (prefixes_of (butlast path)) then Some Dir
     else fs_nodes s q)\<rparr>"

lemma writable_steps:
  assumes "no_faults s" and "writable s path"
  shows "create_dir_all (butlast path) s = (Ok (), after_mkdir s path)"
    and "fs_write path data (after_mkdir s path) = (Ok (), (after_mkdir s path)
      \<lparr>fs_nodes := (fs_nodes (after_mkdir s path))(path \<mapsto> Reg (written_inode s path data))\<rparr>)"
proof -
  have dirs: "\<forall>q \<in> set (prefixes_of (butlast path)). \<forall>f. fs_nodes s q \<noteq> Some (Reg f)"
    using assms(2) by (auto simp: writable_def list_all_iff split: option.splits node.splits)
  with assms(1) show "create_dir_all (butlast path) s = (Ok (), after_mkdir s path)"
    by (simp add: create_dir_all_runs after_mkdir_def)
  have same: "fs_nodes (after_mkdir s path) path = fs_nodes s path"
    using assms(2) path_not_prefix_of_parent [of path] by (simp add: after_mkdir_def writable_def)
  then have "written_inode (after_mkdir s path) path data = written_inode s path data"
    by (auto simp: written_inode_def after_mkdir_def split: option.splits node.splits if_splits)
  with same assms show "fs_write path data (after_mkdir s path) = (Ok (), (after_mkdir s path)
      \<lparr>fs_nodes := (fs_nodes (after_mkdir s path))(path \<mapsto> Reg (written_inode s path data))\<rparr>)"
    by (subst fs_write_runs) (simp_all add: writable_def, simp_all add: after_mkdir_def)
qed

definition after_store :: "fs \<Rightarrow> path \<Rightarrow> inode \<Rightarrow> fs" where
  "after_store s path f =
     (after_mkdir s path)\<lparr>fs_nodes := (fs_nodes (after_mkdir s path))(path \<mapsto> Reg f)\<rparr>"

lemma write_file_runs:
  assumes "no_faults s" and "writable s path" and "parse_octal_mode mode_str = Ok mode"
  shows "write_file path data mode_str uid gid s =
    (Ok (), after_store s path (stored_inode data mode uid gid))"
proof -
  have nf: "no_faults (after_mkdir s path)" using assms(1) by (simp add: after_mkdir_def)
  have data: "(written_inode s path data)\<lparr>f_uid := uid, f_gid := gid, f_mode := m\<rparr> =
      \<lparr>f_data = data, f_mode = m, f_uid = uid, f_gid = gid\<rparr>" for m
    by (auto simp: written_inode_def split: option.split node.split)
  have "path \<noteq> []" using assms(2) by (simp add: writable_def)
  then show ?thesis
    using assms(3) nf writable_steps [OF assms(1,2)]
    by (simp add: write_file_def path_parent_def res_simps set_permissions_runs io_map_err_def
        fs_chown_runs after_store_def stored_inode_def data)
qed

lemma after_store_nodes:
  "fs_nodes (after_store s path f) q =
     (if q = path then Some (Reg f) else if q \<in> set (prefixes_of (butlast path)) then Some Dir
      else fs_nodes s q)"
  by (simp add: after_store_def after_mkdir_def)

lemma no_faults_after_store [simp]: "no_faults (after_store s path f) = no_faults s"
  by (simp add: after_store_def after_mkdir_def)

text \<open>Storing one file leaves every unrelated path writable.\<close>

definition unrelated :: "path \<Rightarrow> path \<Rightarrow> bool" where
  "unrelated p q \<longleftrightarrow> p \<notin> set (prefixes_of q) \<and> q \<notin> set (prefixes_of p)"

lemma unrelated_neq: "unrelated p q \<Longrightarrow> p \<noteq> q"
  by (auto simp: unrelated_def)

lemma writable_after_store:
  assumes "writable s q" and "unrelated path q"
  shows "writable (after_store s path f) q"
proof -
  have "q \<notin> set (prefixes_of (butlast path))" "path \<notin> set (prefixes_of (butlast q))"
    using assms(2) prefixes_of_butlast unfolding unrelated_def by blast+
  with assms unrelated_neq [OF assms(2)] show ?thesis
    by (auto simp: writable_def after_store_nodes list_all_iff)
qed

lemma kept_after_store:
  "fs_nodes s q = Some (Reg g) \<Longrightarrow> unrelated path q \<Longrightarrow>
     fs_nodes (after_store s path f) q = Some (Reg g)"
  using prefixes_of_butlast [of path] by (auto simp: after_store_nodes unrelated_def)

lemma write_file_bad_mode:
  assumes "no_faults s" and "writable s path" and "parse_octal_mode mode_str = Err e"
  shows "write_file path data mode_str uid gid s =
    (Err (Context (''parsing mode '' @ squote @ mode_str @ squote) e),
     (after_mkdir s path)\<lparr>fs_nodes := (fs_nodes (after_mkdir s path))
        (path \<mapsto> Reg (written_inode s path data))\<rparr>)"
  using assms writable_steps(1) [OF assms(1,2)] writable_steps(2) [OF assms(1,2), of data]
  by (simp add: write_file_def path_parent_def writable_def res_simps)

section \<open>Files already stored are kept\<close>

definition keeps :: "path \<Rightarrow> inode \<Rightarrow> (fs, 'a, 'e) io \<Rightarrow> bool" where
  "keeps q f m \<longleftrightarrow>
     (\<forall>s. fs_nodes s q = Some (Reg f) \<longrightarrow> fs_nodes (snd (m s)) q = Some (Reg f))"

lemma keeps_stays: "stays_in P m \<Longrightarrow> q \<notin> P \<Longrightarrow> keeps q f m"
  by (simp add: keeps_def stays_in_def)

lemma keeps_bind:
  assumes "keeps q f m" and "\<And>x. keeps q f (g x)"
  shows "keeps q f (io_bind m g)"
  unfolding keeps_def
proof (intro allI impI)
  fix s :: fs assume "fs_nodes s q = Some (Reg f)"
  moreover obtain r s1 where m: "m s = (r, s1)" by (cases "m s")
  ultimately have "fs_nodes s1 q = Some (Reg f)"
    using assms(1) unfolding keeps_def by (metis snd_conv)
  with assms(2) m show "fs_nodes (snd (io_bind m g s)) q = Some (Reg f)"
    by (cases r) (simp_all add: io_bind_def keeps_def)
qed

lemma keeps_map_err: "keeps q f m \<Longrightarrow> keeps q f (io_map_err g m)"
  by (simp add: keeps_def)

lemma keeps_create_dir_all: "keeps q f (create_dir_all p)"
  unfolding create_dir_all_def guarded_def
  by (rule keeps_bind, rule keeps_stays [OF stays_in_pure(3) [of "{}"]])
    (auto simp: keeps_def io_lift_def Let_def filter_empty_conv split: option.split)

lemma keeps_write_file: "q \<noteq> path \<Longrightarrow> keeps q f (write_file path data m u g)"
  unfolding write_file_def
  by (intro keeps_bind keeps_map_err)
    (auto intro!: keeps_map_err keeps_create_dir_all stays keeps_stays [where P = "{path}"]
      split: option.split)

definition entity_paths :: "EntityEntry \<Rightarrow> path list" where
  "entity_paths e = [en_cert_path e, en_key_path e, en_ca_path e]"

lemma keeps_store:
  assumes "q \<notin> set (entity_paths e)"
  shows "keeps q f (store_entity_credentials e cert key ca)"
  using assms unfolding store_entity_credentials_def entity_paths_def
  by (intro keeps_bind keeps_map_err keeps_write_file) simp_all

text \<open>The three files of an entity are in place, with its modes and its owner.\<close>

definition has_credentials :: "fs \<Rightarrow> EntityEntry \<Rightarrow> string \<Rightarrow> string \<Rightarrow> string \<Rightarrow> bool" where
  "has_credentials s e cert key ca \<longleftrightarrow>
     (\<exists>cm km. parse_octal_mode (en_cert_mode e) = Ok cm \<and> parse_octal_mode (en_key_mode e) = Ok km \<and>
        fs_nodes s (en_cert_path e) = Some (Reg (stored_inode (as_bytes cert) cm (en_owner_uid e) (en_owner_gid e))) \<and>
        fs_nodes s (en_key_path e) = Some (Reg (stored_inode (as_bytes key) km (en_owner_uid e) (en_owner_gid e))) \<and>
        fs_nodes s (en_ca_path e) = Some (Reg (stored_inode (as_bytes ca) cm (en_owner_uid e) (en_owner_gid e))))"

lemma has_credentials_kept:
  assumes "has_credentials s e cert key ca"
    and kept: "\<And>q f. q \<in> set (entity_paths e) \<Longrightarrow> fs_nodes s q = Some (Reg f) \<Longrightarrow> fs_nodes s' q = Some (Reg f)"
  shows "has_credentials s' e cert key ca"
proof -
  from assms(1) obtain cm km where
    modes: "parse_octal_mode (en_cert_mode e) = Ok cm" "parse_octal_mode (en_key_mode e) = Ok km"
    and files: "fs_nodes s (en_cert_path e) = Some (Reg (stored_inode (as_bytes cert) cm (en_owner_uid e) (en_owner_gid e)))"
      "fs_nodes s (en_key_path e) = Some (Reg (stored_inode (as_bytes key) km (en_owner_uid e) (en_owner_gid e)))"
      "fs_nodes s (en_ca_path e) = Some (Reg (stored_inode (as_bytes ca) cm (en_owner_uid e) (en_owner_gid e)))"
    unfolding has_credentials_def by blast
  have "en_cert_path e \<in> set (entity_paths e)" "en_key_path e \<in> set (entity_paths e)"
    "en_ca_path e \<in> set (entity_paths e)"
    by (simp_all add: entity_paths_def)
  with modes kept [OF _ files(1)] kept [OF _ files(2)] kept [OF _ files(3)] show ?thesis
    unfolding has_credentials_def by blast
qed

lemmas store_simps = store_entity_credentials_def io_inv

text \<open>What is on disk after all three files were stored.\<close>

lemma store_entity_credentials_Ok:
  assumes "store_entity_credentials e cert key ca s = (Ok x, s')"
    and "distinct [en_cert_path e, en_key_path e, en_ca_path e]"
    and "en_cert_path e \<noteq> []" "en_key_path e \<noteq> []" "en_ca_path e \<noteq> []"
  obtains cm km where "parse_octal_mode (en_cert_mode e) = Ok cm"
    and "parse_octal_mode (en_key_mode e) = Ok km"
    and "fs_nodes s' (en_cert_path e) =
           Some (Reg (stored_inode (as_bytes cert) cm (en_owner_uid e) (en_owner_gid e)))"
    and "fs_nodes s' (en_key_path e) =
           Some (Reg (stored_inode (as_bytes key) km (en_owner_uid e) (en_owner_gid e)))"
    and "fs_nodes s' (en_ca_path e) =
           Some (Reg (stored_inode (as_bytes ca) cm (en_owner_uid e) (en_owner_gid e)))"
proof -
  let ?w = "\<lambda>p d m. write_file p d m (en_owner_uid e) (en_owner_gid e)"
  from assms(1) obtain s1 s2 where
    w1: "?w (en_cert_path e) (as_bytes cert) (en_cert_mode e) s = (Ok (), s1)" and
    w2: "?w (en_key_path e) (as_bytes key) (en_key_mode e) s1 = (Ok (), s2)" and
    w3: "?w (en_ca_path e) (as_bytes ca) (en_cert_mode e) s2 = (Ok (), s')"
    by (auto simp: store_simps)
  have keep2: "fs_nodes s1 q = Some (Reg f) \<Longrightarrow> q \<noteq> en_key_path e \<Longrightarrow> fs_nodes s2 q = Some (Reg f)" for q f
    using keeps_write_file [of q "en_key_path e" f] w2 unfolding keeps_def by (metis snd_conv)
  have keep3: "fs_nodes s2 q = Some (Reg f) \<Longrightarrow> q \<noteq> en_ca_path e \<Longrightarrow> fs_nodes s' q = Some (Reg f)" for q f
    using keeps_write_file [of q "en_ca_path e" f] w3 unfolding keeps_def by (metis snd_conv)
  from write_file_Ok [OF w1 assms(3)] obtain cm where
    1: "parse_octal_mode (en_cert_mode e) = Ok cm"
      "fs_nodes s1 (en_cert_path e) =
         Some (Reg (stored_inode (as_bytes cert) cm (en_owner_uid e) (en_owner_gid e)))" .
  from write_file_Ok [OF w2 assms(4)] obtain km where
    2: "parse_octal_mode (en_key_mode e) = Ok km"
      "fs_nodes s2 (en_key_path e) =
         Some (Reg (stored_inode (as_bytes key) km (en_owner_uid e) (en_owner_gid e)))" .
  from write_file_Ok [OF w3 assms(5)] obtain cm' where
    3: "parse_octal_mode (en_cert_mode e) = Ok cm'"
      "fs_nodes s' (en_ca_path e) =
         Some (Reg (stored_inode (as_bytes ca) cm' (en_owner_uid e) (en_owner_gid e)))" .
  from 1 2 3 keep2 keep3 assms(2) show thesis by (intro that [of cm km]) auto
qed

section \<open>Properties\<close>

definition sample_fs :: fs where
  "sample_fs = \<lparr>fs_nodes = (\<lambda>p. if p = [] then Some Dir else None), fs_umask = 0x12, fs_faults = []\<rparr>"

definition sample_entity :: EntityEntry where
  "sample_entity = \<lparr>en_name = ''service-a'', en_cert_path = [''a'', ''cert.pem''],
     en_key_path = [''a'', ''key.pem''], en_ca_path = [''a'', ''ca.pem''],
     en_owner_uid = 1001, en_owner_gid = 1002, en_cert_mode = ''0644'', en_key_mode = ''0600''\<rparr>"

lemma sample_fs_simps [simp]:
  "no_faults sample_fs" "fs_nodes sample_fs p = (if p = [] then Some Dir else None)"
  "fs_umask sample_fs = 0x12"
  by (simp_all add: sample_fs_def no_faults_def)

lemma sample_fs_writable [simp]: "p \<noteq> [] \<Longrightarrow> writable sample_fs p"
  by (simp add: writable_def list_all_iff)

lemma sample_modes [simp]:
  "parse_octal_mode ''0644'' = Ok 420" "parse_octal_mode ''0600'' = Ok 384"
  by (simp_all add: parse_octal_digits all_digits_def to_digit_def digits_value_def)

lemma store_entity_credentials_runs:
  assumes "no_faults s"
    and "writable s (en_cert_path e)" "writable s (en_key_path e)" "writable s (en_ca_path e)"
    and "unrelated (en_cert_path e) (en_key_path e)" "unrelated (en_cert_path e) (en_ca_path e)"
      "unrelated (en_key_path e) (en_ca_path e)"
    and "parse_octal_mode (en_cert_mode e) = Ok cm" "parse_octal_mode (en_key_mode e) = Ok km"
  shows "\<exists>s'. store_entity_credentials e cert key ca s = (Ok (), s')"
  using assms by (simp add: store_entity_credentials_def res_simps write_file_runs
      writable_after_store io_map_err_def)

lemma sample_store:
  "\<exists>s'. store_entity_credentials sample_entity cert key ca sample_fs = (Ok (), s')"
  by (rule store_entity_credentials_runs [where cm = 420 and km = 384])
    (simp_all add: sample_entity_def unrelated_def prefixes_of_def upt_rec)

text \<open>A string of octal digits parses to its value, with any leading zeros and with the empty
  string as 0, if the value fits 32 bits, and is an overflow error otherwise.\<close>

theorem parse_octal_mode_digits:
  assumes "all_digits 8 s"
  shows "parse_octal_mode s =
    (if digits_value 8 0 s < 2 ^ 32 then Ok (of_nat (digits_value 8 0 s))
     else Err (Context (squote @ s @ squote @ '' is not a valid octal mode'')
            (Msg (int_error_to_string PosOverflow))))"
  using assms by (rule parse_octal_digits)

theorem parse_octal_mode_digits_witness:
  "all_digits 8 ''0640'' \<and> parse_octal_mode ''0640'' = Ok 416 \<and> parse_octal_mode [] = Ok 0"
  using parse_octal_mode_digits [of "''0640''"] parse_octal_mode_digits [of "[]"]
  by (simp add: all_digits_def to_digit_def digits_value_def)

text \<open>Every mode word is recovered from its octal digits, with any number of leading zeros.\<close>

theorem parse_octal_mode_show:
  "parse_octal_mode (replicate k CHR ''0'' @ show_radix 8 (unat m)) = Ok m"
proof -
  let ?s = "replicate k CHR ''0'' @ show_radix 8 (unat m)"
  have bound: "unat m < 2 ^ 32"
    using unsigned_less [of m, where 'a = nat] by simp
  have "all_digits 8 ?s"
    using show_radix_digits [of 8 "unat m"]
    by (simp add: all_digits_def list_all_append) (simp add: list_all_iff to_digit_def)
  moreover have "digits_value 8 0 ?s = unat m"
    using bound by (simp add: digits_value_zeros digits_value_show)
  ultimately show ?thesis
    using bound by (simp add: parse_octal_digits)
qed

text \<open>When nothing fails, \<open>write_file\<close> creates the file with exactly the data, the permission bits
  and the owner it was asked for, and every other regular file keeps its contents, mode and owner.\<close>

theorem write_file_correct:
  assumes "no_faults s" and "writable s path"
    and "parse_octal_mode mode_str = Ok mode" and "unat mode < 512"
  shows "\<exists>s'. write_file path data mode_str uid gid s = (Ok (), s') \<and>
    fs_nodes s' path = Some (Reg \<lparr>f_data = data, f_mode = mode, f_uid = uid, f_gid = gid\<rparr>) \<and>
    (\<forall>q f. q \<noteq> path \<longrightarrow> fs_nodes s q = Some (Reg f) \<longrightarrow> fs_nodes s' q = Some (Reg f))"
proof -
  have "q \<in> set (prefixes_of (butlast path)) \<Longrightarrow> fs_nodes s q \<noteq> Some (Reg f)" for q f
    using assms(2) by (auto simp: writable_def list_all_iff split: option.splits node.splits)
  with assms show ?thesis
    by (auto simp: write_file_runs after_store_nodes stored_inode_def chown_mode_plain)
qed

theorem write_file_correct_witness:
  "\<exists>s'. write_file [''a'', ''key.pem''] [1, 2] ''0600'' 1001 1002 sample_fs = (Ok (), s') \<and>
    fs_nodes s' [''a'', ''key.pem''] =
      Some (Reg \<lparr>f_data = [1, 2], f_mode = 384, f_uid = 1001, f_gid = 1002\<rparr>)"
  using write_file_correct [of sample_fs "[''a'', ''key.pem'']" "''0600''" 384 "[1, 2]" 1001 1002]
  by auto

text \<open>C40: a file is given its mode only after its contents are on disk: with a mode string that does not
  parse the call fails, and leaves a new file, a private key for instance, with all of its data under
  the default mode of the umask and owned by root.\<close>

theorem write_file_bad_mode_leaves_data:
  assumes "no_faults s" and "writable s path" and "fs_nodes s path = None"
    and "parse_octal_mode mode_str = Err e"
  shows "\<exists>s'. write_file path data mode_str uid gid s =
      (Err (Context (''parsing mode '' @ squote @ mode_str @ squote) e), s') \<and>
    fs_nodes s' path =
      Some (Reg \<lparr>f_data = data, f_mode = 0x1B6 AND NOT (fs_umask s), f_uid = 0, f_gid = 0\<rparr>)"
  using write_file_bad_mode [OF assms(1,2,4), of data uid gid] assms(3)
  by (simp add: written_inode_def)

lemma sample_bad_mode:
  "parse_octal_mode ''0o600'' =
    Err (Context (squote @ ''0o600'' @ squote @ '' is not a valid octal mode'')
      (Msg (int_error_to_string InvalidDigit)))"
  by (simp add: parse_octal_mode_def trim_start_matches_def u32_from_str_radix_def to_digit_def)

theorem write_file_bad_mode_leaves_data_witness:
  "\<exists>s' e. write_file [''a'', ''key.pem''] [1, 2] ''0o600'' 1001 1002 sample_fs = (Err e, s') \<and>
    fs_nodes s' [''a'', ''key.pem''] =
      Some (Reg \<lparr>f_data = [1, 2], f_mode = 420, f_uid = 0, f_gid = 0\<rparr>)"
  using write_file_bad_mode_leaves_data [OF _ _ _ sample_bad_mode,
      of sample_fs "[''a'', ''key.pem'']" "[1, 2]" 1001 1002]
  by auto

text \<open>C39: when nothing fails, the three paths are unrelated and the modes below 01000, storing an entity's credentials succeeds
  and leaves the certificate, the key and the CA certificate each with its own data, the configured
  mode (the CA file shares the certificate's) and the configured owner.\<close>

theorem store_entity_credentials_correct:
  assumes "no_faults s"
    and "writable s (en_cert_path e)" "writable s (en_key_path e)" "writable s (en_ca_path e)"
    and "unrelated (en_cert_path e) (en_key_path e)" "unrelated (en_cert_path e) (en_ca_path e)"
      "unrelated (en_key_path e) (en_ca_path e)"
    and "parse_octal_mode (en_cert_mode e) = Ok cm" "parse_octal_mode (en_key_mode e) = Ok km"
    and "unat cm < 512" "unat km < 512"
  shows "\<exists>s'. store_entity_credentials e cert key ca s = (Ok (), s') \<and>
    fs_nodes s' (en_cert_path e) = Some (Reg \<lparr>f_data = as_bytes cert, f_mode = cm,
      f_uid = en_owner_uid e, f_gid = en_owner_gid e\<rparr>) \<and>
    fs_nodes s' (en_key_path e) = Some (Reg \<lparr>f_data = as_bytes key, f_mode = km,
      f_uid = en_owner_uid e, f_gid = en_owner_gid e\<rparr>) \<and>
    fs_nodes s' (en_ca_path e) = Some (Reg \<lparr>f_data = as_bytes ca, f_mode = cm,
      f_uid = en_owner_uid e, f_gid = en_owner_gid e\<rparr>)"
proof -
  let ?f = "\<lambda>d m. stored_inode (as_bytes d) m (en_owner_uid e) (en_owner_gid e)"
  let ?s1 = "after_store s (en_cert_path e) (?f cert cm)"
  let ?s2 = "after_store ?s1 (en_key_path e) (?f key km)"
  let ?s3 = "after_store ?s2 (en_ca_path e) (?f ca cm)"
  have sym: "unrelated (en_key_path e) (en_cert_path e)" "unrelated (en_ca_path e) (en_cert_path e)"
    "unrelated (en_ca_path e) (en_key_path e)"
    using assms(5-7) by (simp_all add: unrelated_def)
  have "store_entity_credentials e cert key ca s = (Ok (), ?s3)"
    using assms by (simp add: store_entity_credentials_def res_simps write_file_runs
        writable_after_store io_map_err_def)
  moreover have "fs_nodes ?s3 (en_cert_path e) = Some (Reg (?f cert cm))"
    by (rule kept_after_store, rule kept_after_store) (simp_all add: after_store_nodes sym)
  moreover have "fs_nodes ?s3 (en_key_path e) = Some (Reg (?f key km))"
    by (rule kept_after_store) (simp_all add: after_store_nodes sym)
  moreover have "fs_nodes ?s3 (en_ca_path e) = Some (Reg (?f ca cm))"
    by (simp add: after_store_nodes)
  ultimately show ?thesis
    using assms(10,11) by (simp add: stored_inode_def chown_mode_plain)
qed

theorem store_entity_credentials_correct_witness:
  "\<exists>s'. store_entity_credentials sample_entity ''C'' ''K'' ''R'' sample_fs = (Ok (), s') \<and>
    fs_nodes s' [''a'', ''key.pem''] =
      Some (Reg \<lparr>f_data = as_bytes ''K'', f_mode = 384, f_uid = 1001, f_gid = 1002\<rparr>)"
  using store_entity_credentials_correct [of sample_fs sample_entity 420 384 "''C''" "''K''" "''R''"]
  by (auto simp: sample_entity_def unrelated_def prefixes_of_def upt_rec)

text \<open>The three files are not written as a unit: if the key cannot be written, the call fails with
  the new certificate already in place and the old CA certificate still there.\<close>

theorem store_entity_credentials_partial:
  assumes "write_file (en_cert_path e) (as_bytes cert) (en_cert_mode e)
      (en_owner_uid e) (en_owner_gid e) s = (Ok (), s1)"
    and "write_file (en_key_path e) (as_bytes key) (en_key_mode e)
      (en_owner_uid e) (en_owner_gid e) s1 = (Err err, s2)"
    and "parse_octal_mode (en_cert_mode e) = Ok cm"
    and "en_cert_path e \<noteq> []" and "distinct [en_cert_path e, en_key_path e, en_ca_path e]"
    and "fs_nodes s (en_ca_path e) = Some (Reg old)"
  shows "store_entity_credentials e cert key ca s =
      (Err (Context (''writing key to '' @ path_display (en_key_path e)) err), s2) \<and>
    fs_nodes s2 (en_cert_path e) =
      Some (Reg (stored_inode (as_bytes cert) cm (en_owner_uid e) (en_owner_gid e))) \<and>
    fs_nodes s2 (en_ca_path e) = Some (Reg old)"
proof -
  have keep: "fs_nodes t' q = Some (Reg f)"
    if "write_file p d m u g t = (r, t')" "fs_nodes t q = Some (Reg f)" "q \<noteq> p"
    for q f p d m u g r t t'
    using keeps_write_file [of q p f d m u g] that unfolding keeps_def by (metis snd_conv)
  from write_file_Ok [OF assms(1,4)] assms(3) have
    "fs_nodes s1 (en_cert_path e) =
      Some (Reg (stored_inode (as_bytes cert) cm (en_owner_uid e) (en_owner_gid e)))" by auto
  with keep [OF assms(2)] assms(5) have cert: "fs_nodes s2 (en_cert_path e) =
      Some (Reg (stored_inode (as_bytes cert) cm (en_owner_uid e) (en_owner_gid e)))" by auto
  from keep [OF assms(1,6)] assms(5) have "fs_nodes s1 (en_ca_path e) = Some (Reg old)" by auto
  with keep [OF assms(2)] assms(5) have "fs_nodes s2 (en_ca_path e) = Some (Reg old)" by auto
  with cert show ?thesis
    using assms(1,2) by (simp add: store_entity_credentials_def io_bind_def io_map_err_def)
qed

theorem store_entity_credentials_partial_witness:
  "\<exists>s s2 err. store_entity_credentials (sample_entity\<lparr>en_key_mode := ''0o600''\<rparr>) ''C'' ''K'' ''R'' s
      = (Err err, s2) \<and>
    data_at s2 [''a'', ''cert.pem''] = Some (as_bytes ''C'') \<and> data_at s2 [''a'', ''ca.pem''] = Some [0]"
proof -
  let ?e = "sample_entity\<lparr>en_key_mode := ''0o600''\<rparr>"
  let ?s = "after_store sample_fs [''a'', ''ca.pem''] (stored_inode [0] 420 0 0)"
  let ?s1 = "after_store ?s [''a'', ''cert.pem''] (stored_inode (as_bytes ''C'') 420 1001 1002)"
  have un: "unrelated [''a'', ''ca.pem''] [''a'', ''cert.pem'']"
    "unrelated [''a'', ''ca.pem''] [''a'', ''key.pem'']"
    "unrelated [''a'', ''cert.pem''] [''a'', ''key.pem'']"
    by (simp_all add: unrelated_def prefixes_of_def upt_rec)
  have w1: "write_file [''a'', ''cert.pem''] (as_bytes ''C'') ''0644'' 1001 1002 ?s = (Ok (), ?s1)"
    by (rule write_file_runs) (simp_all only: no_faults_after_store sample_fs_simps sample_modes
        writable_after_store un sample_fs_writable list.distinct not_False_eq_True)
  have "no_faults ?s1" "writable ?s1 [''a'', ''key.pem'']"
    by (simp_all only: no_faults_after_store sample_fs_simps
        writable_after_store un sample_fs_writable list.distinct not_False_eq_True)
  from write_file_bad_mode [OF this sample_bad_mode, of "as_bytes ''K''" 1001 1002]
  obtain s2 err where
    w2: "write_file [''a'', ''key.pem''] (as_bytes ''K'') ''0o600'' 1001 1002 ?s1 = (Err err, s2)"
    by blast
  have "fs_nodes ?s [''a'', ''ca.pem''] = Some (Reg (stored_inode [0] 420 0 0))"
    by (simp add: after_store_nodes)
  with store_entity_credentials_partial [of ?e "''C''" ?s ?s1 "''K''" err s2 420 "stored_inode [0] 420 0 0" "''R''"]
    w1 w2
  have "store_entity_credentials ?e ''C'' ''K'' ''R'' ?s =
      (Err (Context (''writing key to '' @ path_display [''a'', ''key.pem'']) err), s2)"
    "fs_nodes s2 [''a'', ''cert.pem''] = Some (Reg (stored_inode (as_bytes ''C'') 420 1001 1002))"
    "fs_nodes s2 [''a'', ''ca.pem''] = Some (Reg (stored_inode [0] 420 0 0))"
    by (simp_all add: sample_entity_def)
  then show ?thesis
    by (intro exI conjI) (assumption, simp_all add: data_at_def stored_inode_def)
qed

end
