(* ===== verification/Csr.thy ===== *)
theory Csr
  imports Rcgen
begin

text \<open>Key pair and certificate request of one entity (\<open>csr.rs\<close>).\<close>

record GeneratedCsr =
  gc_key_pem :: string
  gc_csr_pem :: string

definition csr_params_for :: "('kp, 'cert, 'csr) rcgen_lib \<Rightarrow> string \<Rightarrow> CertificateParams" where
  "csr_params_for R entity_name = (rg_default_params R)\<lparr>cp_distinguished_name :=
     [(CommonName, entity_name), (OrganizationName, ''auth-scope'')]\<rparr>"

definition generate_csr ::
  "('kp, 'cert, 'csr) rcgen_lib \<Rightarrow> nat \<Rightarrow> string \<Rightarrow> (GeneratedCsr, anyhow) res" where
  "generate_csr R rng entity_name =
     rbind (map_err Msg (rg_generate_for_p256 R rng)) (\<lambda>key.
     rbind (map_err Msg (rg_serialize_request R (csr_params_for R entity_name) key rng)) (\<lambda>csr.
     rbind (map_err Msg (rg_csr_pem R csr)) (\<lambda>csr_pem.
     Ok \<lparr>gc_key_pem = rg_serialize_pem R key, gc_csr_pem = csr_pem\<rparr>)))"

lemma generate_csr_Ok_iff:
  "generate_csr R rng name = Ok g \<longleftrightarrow>
     (\<exists>key csr csr_pem. rg_generate_for_p256 R rng = Ok key
        \<and> rg_serialize_request R (csr_params_for R name) key rng = Ok csr
        \<and> rg_csr_pem R csr = Ok csr_pem
        \<and> g = \<lparr>gc_key_pem = rg_serialize_pem R key, gc_csr_pem = csr_pem\<rparr>)"
  by (auto simp: generate_csr_def rbind_Ok_iff)

end
