(* ===== verification/Retry.thy ===== *)
theory Retry
  imports Prelude
begin

text \<open>
  The contract of the agent's two retry loops: an attempt ends the loop with a result or asks for
  another try; after ten retries the error of the last attempt is final. \<open>tries\<close> counts attempts.
\<close>

locale retry_loop =
  fixes attempt :: "'s \<Rightarrow> (('a, 'e) res + 'x) \<times> 's"
    and pause :: "'s \<Rightarrow> 's"
    and give_up :: "'x \<Rightarrow> ('a, 'e) res"
    and loop :: "nat \<Rightarrow> 's \<Rightarrow> ('a, 'e) res \<times> 's"
    and tries :: "'s \<Rightarrow> nat"
  assumes loop_step: "loop n s = (case attempt s of
        (Inl r, s') \<Rightarrow> (r, s')
      | (Inr e, s') \<Rightarrow> if n < 10 then loop (Suc n) (pause s') else (give_up e, s'))"
    and attempt_counts: "tries (snd (attempt s)) = Suc (tries s)"
    and pause_counts: "tries (pause s) = tries s"
begin

lemma loop_done: "attempt s = (Inl r, s') \<Longrightarrow> loop n s = (r, s')"
  by (subst loop_step) simp

lemma loop_again: "attempt s = (Inr e, s') \<Longrightarrow> n < 10 \<Longrightarrow> loop n s = loop (Suc n) (pause s')"
  by (subst loop_step) simp

lemma loop_gives_up: "attempt s = (Inr e, s') \<Longrightarrow> \<not> n < 10 \<Longrightarrow> loop n s = (give_up e, s')"
  by (subst loop_step) simp

text \<open>An invariant of the states between attempts gives a property of the result.\<close>

lemma loop_invariant:
  assumes "I s" and again: "\<And>s e s'. I s \<Longrightarrow> attempt s = (Inr e, s') \<Longrightarrow> I (pause s') \<and> Q (give_up e) s'"
    and finish: "\<And>s r s'. I s \<Longrightarrow> attempt s = (Inl r, s') \<Longrightarrow> Q r s'"
  shows "Q (fst (loop n s)) (snd (loop n s))"
  using assms(1)
proof (induction "10 - n" arbitrary: n s)
  case 0
  then show ?case
    by (cases "attempt s"; cases "fst (attempt s)")
      (auto simp: loop_done loop_gives_up dest: again finish)
next
  case (Suc k)
  show ?case
  proof (cases "fst (attempt s)")
    case (Inl r)
    then show ?thesis
      using Suc.prems by (cases "attempt s") (auto simp: loop_done dest: finish)
  next
    case (Inr e)
    then obtain s' where s': "attempt s = (Inr e, s')" by (cases "attempt s") auto
    have "k = 10 - Suc n" "n < 10" using Suc.hyps(2) by simp_all
    with Suc.hyps(1) [of "Suc n" "pause s'"] again [OF Suc.prems s'] s' show ?thesis
      by (simp add: loop_again)
  qed
qed

lemma bounded_tries: "n \<le> 10 \<Longrightarrow> tries (snd (loop n s)) \<le> tries s + (11 - n)"
proof (induction "10 - n" arbitrary: n s)
  case 0
  then show ?case
    using attempt_counts [of s]
    by (cases "attempt s"; cases "fst (attempt s)") (auto simp: loop_done loop_gives_up)
next
  case (Suc k)
  show ?case
  proof (cases "fst (attempt s)")
    case (Inl r)
    then show ?thesis
      using attempt_counts [of s] Suc.prems by (cases "attempt s") (auto simp: loop_done)
  next
    case (Inr e)
    then obtain s' where s': "attempt s = (Inr e, s')" by (cases "attempt s") auto
    have n: "k = 10 - Suc n" "Suc n \<le> 10" "n < 10" using Suc.hyps(2) by simp_all
    have "tries (pause s') = Suc (tries s)" using attempt_counts [of s] s' by (simp add: pause_counts)
    with Suc.hyps(1) [OF n(1,2), of "pause s'"] s' n(3) show ?thesis
      by (simp add: loop_again)
  qed
qed

text \<open>The state after some transient failures, and the result once an attempt settles.\<close>

definition after :: "nat \<Rightarrow> 's \<Rightarrow> 's" where
  "after k s = ((\<lambda>t. pause (snd (attempt t))) ^^ k) s"

lemma after_simps [simp]: "after 0 s = s" "after (Suc k) s = after k (pause (snd (attempt s)))"
  unfolding after_def by (simp, simp only: funpow_Suc_right o_apply)

lemma settles:
  assumes "\<And>j. j < k \<Longrightarrow> \<exists>e. fst (attempt (after j s)) = Inr e"
    and "attempt (after k s) = (Inl r, s')" and "n + k \<le> 10"
  shows "loop n s = (r, s')"
  using assms
proof (induction k arbitrary: n s)
  case 0
  then show ?case by (simp add: loop_done)
next
  case (Suc k)
  obtain e t where t: "attempt s = (Inr e, t)"
    using Suc.prems(1) [of 0] by (cases "attempt s") auto
  have "loop (Suc n) (pause t) = (r, s')"
  proof (rule Suc.IH)
    show "\<exists>e. fst (attempt (after j (pause t))) = Inr e" if "j < k" for j
      using Suc.prems(1) [of "Suc j"] that t by simp
    show "attempt (after k (pause t)) = (Inl r, s')" "Suc n + k \<le> 10"
      using Suc.prems(2,3) t by simp_all
  qed
  with t Suc.prems(3) show ?case by (simp add: loop_again)
qed

end

end
