(* ===== verification/Client.thy ===== *)
theory Client
  imports Agent_Config Store Csr Codec Retry "HOL-Library.Multiset"
begin

text \<open>
  The agent's client (\<open>client.rs\<close>): connecting from a fixed local port, requesting and storing one
  certificate, and the run over all entities. The kernel's answers to the system calls are functions
  of the attempt's number; the calls the code makes are logged.
\<close>

record io_error =
  ie_addr_in_use :: bool
  ie_msg :: string

record vsock_kernel =
  vk_socket :: "nat \<Rightarrow> string + nat"
  vk_bind :: "nat \<Rightarrow> io_error option"
  vk_connect :: "nat \<Rightarrow> string option"
  vk_stream :: "nat \<Rightarrow> string + stream"
  vk_listen :: "nat \<Rightarrow> string + nat"

datatype sys_event =
    Socket nat
  | SetReuse nat
  | Bind nat u32
  | Connect nat u32 u32
  | Close nat
  | Sleep nat
  | Listen u32
  | Listening nat

record net =
  nt_attempt :: nat
  nt_log :: "sys_event list"

definition calls :: "sys_event list \<Rightarrow> net \<Rightarrow> net" where
  "calls evs s = s\<lparr>nt_log := nt_log s @ evs\<rparr>"

section \<open>Connecting\<close>

definition connect_failed :: "string \<Rightarrow> anyhow" where
  "connect_failed e = Msg (''vsock connect failed: '' @ e)"

definition bind_failed :: "u32 \<Rightarrow> io_error \<Rightarrow> anyhow" where
  "bind_failed local_port err =
     Msg (''bind to client port '' @ show_u32 local_port @ '' failed: '' @ ie_msg err)"

text \<open>
  The loop of \<open>connect_with_local_port\<close>. The descriptor is closed on every failure; a stream object
  that cannot be made drops it, which closes it too.
\<close>

function connect_loop ::
  "vsock_kernel \<Rightarrow> u32 \<Rightarrow> u32 \<Rightarrow> u32 \<Rightarrow> nat \<Rightarrow> net \<Rightarrow> (nat \<times> stream, anyhow) res \<times> net" where
  "connect_loop K host_cid port local_port attempts s =
     (let i = nt_attempt s; s0 = s\<lparr>nt_attempt := Suc i\<rparr> in
      case vk_socket K i of
        Inl e \<Rightarrow> (Err (Msg e), s0)
      | Inr socket \<Rightarrow>
          (let s1 = calls [Socket socket, SetReuse socket, Bind socket local_port] s0 in
           case vk_bind K i of
             None \<Rightarrow>
               (let s2 = calls [Connect socket host_cid port] s1 in
                case vk_connect K i of
                  None \<Rightarrow>
                    (case vk_stream K i of
                       Inr st \<Rightarrow> (Ok (socket, st), s2)
                     | Inl e \<Rightarrow> (Err (Msg e), calls [Close socket] s2))
                | Some conn_err \<Rightarrow> (Err (connect_failed conn_err), calls [Close socket] s2))
           | Some err \<Rightarrow>
               (let s2 = calls [Close socket] s1 in
                if ie_addr_in_use err \<and> attempts < 10
                then connect_loop K host_cid port local_port (Suc attempts) (calls [Sleep 100] s2)
                else (Err (bind_failed local_port err), s2))))"
  by pat_completeness auto
termination
  by (relation "measure (\<lambda>(_, _, _, _, attempts, _). 10 - attempts)") auto

declare connect_loop.simps [simp del]

definition connect_with_local_port ::
  "vsock_kernel \<Rightarrow> u32 \<Rightarrow> u32 \<Rightarrow> u32 \<Rightarrow> (net, nat \<times> stream, anyhow) io" where
  "connect_with_local_port K host_cid port local_port = connect_loop K host_cid port local_port 0"

section \<open>The persistent listener\<close>

text \<open>
  \<open>VsockListener::bind\<close> makes a socket of its own; when it succeeds the listener is the owner of that
  descriptor, logged as \<open>Listening\<close>.
\<close>

function listen_loop :: "vsock_kernel \<Rightarrow> u32 \<Rightarrow> nat \<Rightarrow> net \<Rightarrow> (nat, anyhow) res \<times> net" where
  "listen_loop K client_port attempts s =
     (let i = nt_attempt s; s1 = calls [Listen client_port] (s\<lparr>nt_attempt := Suc i\<rparr>) in
      case vk_listen K i of
        Inr l \<Rightarrow> (Ok l, calls [Listening l] s1)
      | Inl e \<Rightarrow>
          if attempts < 10 then listen_loop K client_port (Suc attempts) (calls [Sleep 100] s1)
          else (Err (Context (''binding persistent listener to client port '' @ show_u32 client_port @
                  '' to secure it'') (Msg e)), s1))"
  by pat_completeness auto
termination
  by (relation "measure (\<lambda>(_, _, attempts, _). 10 - attempts)") auto

declare listen_loop.simps [simp del]

section \<open>One request\<close>

record ('kp, 'cert, 'csr) agent_env =
  ae_request_json :: "CertRequest serde"
  ae_response_json :: "CertResponse serde"
  ae_rcgen :: "('kp, 'cert, 'csr) rcgen_lib"
  ae_kernel :: vsock_kernel
  ae_host_cid_var :: "string option"

record world =
  aw_fs :: fs
  aw_net :: net
  aw_rng :: nat
  aw_results :: "(string \<times> (unit, anyhow) res) list"

definition on_fs :: "(fs, 'a, 'e) io \<Rightarrow> (world, 'a, 'e) io" where
  "on_fs m w = (case m (aw_fs w) of (r, f) \<Rightarrow> (r, w\<lparr>aw_fs := f\<rparr>))"

definition on_net :: "(net, 'a, 'e) io \<Rightarrow> (world, 'a, 'e) io" where
  "on_net m w = (case m (aw_net w) of (r, n) \<Rightarrow> (r, w\<lparr>aw_net := n\<rparr>))"

text \<open>\<open>VSOCK_HOST_CID\<close>, or \<open>VMADDR_CID_HOST\<close> when it is not set or no number.\<close>

definition host_cid_of :: "string option \<Rightarrow> u32" where
  "host_cid_of v = (case v of
       None \<Rightarrow> 2
     | Some s \<Rightarrow> (case u32_from_str_radix s 10 of Ok n \<Rightarrow> n | _ \<Rightarrow> 2))"

definition cert_request :: "AgentConfig \<Rightarrow> EntityEntry \<Rightarrow> string \<Rightarrow> CertRequest" where
  "cert_request config entity csr_pem = \<lparr>rq_version = PROTOCOL_VERSION, rq_vm_name = ag_vm_name config,
     rq_entity = en_name entity, rq_csr_pem = csr_pem\<rparr>"

text \<open>The exchange on the open stream: the request is sent, the response read.\<close>

definition exchange ::
  "CertRequest serde \<Rightarrow> CertResponse serde \<Rightarrow> CertRequest \<Rightarrow> (stream, CertResponse, anyhow) io" where
  "exchange Jq Jr req =
     io_bind (io_map_err (Context ''sending CertRequest'') (send_json Jq req)) (\<lambda>_.
     io_map_err (Context ''receiving CertResponse'') (recv_json Jr))"

definition rejected_msg :: "string \<Rightarrow> string \<Rightarrow> anyhow" where
  "rejected_msg name message =
     Msg (''Server rejected request for '' @ squote @ name @ squote @ '': '' @ message)"

text \<open>The stream is dropped, and its descriptor closed, at the end of the function, however it ends.\<close>

definition request_cert ::
  "('kp, 'cert, 'csr) agent_env \<Rightarrow> AgentConfig \<Rightarrow> EntityEntry \<Rightarrow> (world, unit, anyhow) io" where
  "request_cert A config entity w =
     (let rng = aw_rng w in
      io_bind (io_lift (map_err (Context (''CSR generation for entity '' @ squote @ en_name entity @ squote))
          (generate_csr (ae_rcgen A) rng (en_name entity)))) (\<lambda>generated.
      io_bind (io_map_err (Context ''vsock connect with local port failed'')
          (on_net (connect_with_local_port (ae_kernel A) (host_cid_of (ae_host_cid_var A))
            (ag_server_port config) (ag_client_port config)))) (\<lambda>(socket, stream) w1.
      (case io_bind
          (io_lift (fst (exchange (ae_request_json A) (ae_response_json A)
            (cert_request config entity (gc_csr_pem generated)) stream)))
          (\<lambda>resp. case resp of
             RespOk cert_pem trusted_pem \<Rightarrow>
               on_fs (store_entity_credentials entity cert_pem (gc_key_pem generated) trusted_pem)
           | RespError message \<Rightarrow> io_lift (Err (rejected_msg (en_name entity) message))) w1 of
         (r, w2) \<Rightarrow> (r, w2\<lparr>aw_net := calls [Close socket] (aw_net w2)\<rparr>)))) (w\<lparr>aw_rng := Suc rng\<rparr>))"

section \<open>All entities\<close>

text \<open>A failed request is logged and the next entity is taken; a panic ends the process.\<close>

primrec run_entities ::
  "('kp, 'cert, 'csr) agent_env \<Rightarrow> AgentConfig \<Rightarrow> EntityEntry list \<Rightarrow> (world, unit, anyhow) io" where
  "run_entities A config [] w = (Ok (), w)"
| "run_entities A config (entity # entities) w =
     (case request_cert A config entity w of
        (Panic, w') \<Rightarrow> (Panic, w')
      | (r, w') \<Rightarrow> run_entities A config entities
          (w'\<lparr>aw_results := aw_results w' @ [(en_name entity, r)]\<rparr>))"

text \<open>\<open>Ok ()\<close> is the point after which the agent sleeps for ever with the listener, and so the port, held.\<close>

definition run_agent :: "('kp, 'cert, 'csr) agent_env \<Rightarrow> AgentConfig \<Rightarrow> (world, unit, anyhow) io" where
  "run_agent A config =
     io_bind (run_entities A config (ag_entities config)) (\<lambda>_.
     io_bind (on_net (listen_loop (ae_kernel A) (ag_client_port config) 0)) (\<lambda>listener.
     io_ret ()))"


section \<open>The two loops as retry loops\<close>

text \<open>One turn of each loop: \<open>Inr\<close> is the error that a retry may cure.\<close>

definition connect_attempt ::
  "vsock_kernel \<Rightarrow> u32 \<Rightarrow> u32 \<Rightarrow> u32 \<Rightarrow> net \<Rightarrow> ((nat \<times> stream, anyhow) res + io_error) \<times> net" where
  "connect_attempt K host_cid port local_port s =
     (let i = nt_attempt s; s0 = s\<lparr>nt_attempt := Suc i\<rparr> in
      case vk_socket K i of
        Inl e \<Rightarrow> (Inl (Err (Msg e)), s0)
      | Inr fd \<Rightarrow>
          (let s1 = calls [Socket fd, SetReuse fd, Bind fd local_port] s0 in
           case vk_bind K i of
             None \<Rightarrow>
               (let s2 = calls [Connect fd host_cid port] s1 in
                case vk_connect K i of
                  None \<Rightarrow> (case vk_stream K i of
                       Inr st \<Rightarrow> (Inl (Ok (fd, st)), s2)
                     | Inl e \<Rightarrow> (Inl (Err (Msg e)), calls [Close fd] s2))
                | Some e \<Rightarrow> (Inl (Err (connect_failed e)), calls [Close fd] s2))
           | Some err \<Rightarrow>
               (if ie_addr_in_use err then Inr err else Inl (Err (bind_failed local_port err)),
                calls [Close fd] s1)))"

definition listen_attempt :: "vsock_kernel \<Rightarrow> u32 \<Rightarrow> net \<Rightarrow> ((nat, anyhow) res + string) \<times> net" where
  "listen_attempt K client_port s =
     (let i = nt_attempt s; s1 = calls [Listen client_port] (s\<lparr>nt_attempt := Suc i\<rparr>) in
      case vk_listen K i of Inr l \<Rightarrow> (Inl (Ok l), calls [Listening l] s1) | Inl e \<Rightarrow> (Inr e, s1))"

lemma calls_simps [simp]:
  "nt_attempt (calls evs s) = nt_attempt s" "nt_log (calls evs s) = nt_log s @ evs"
  by (simp_all add: calls_def)

interpretation connect_retry: retry_loop "connect_attempt K host_cid port local_port" "calls [Sleep 100]"
  "\<lambda>err. Err (bind_failed local_port err)" "connect_loop K host_cid port local_port" nt_attempt
proof unfold_locales
  fix n s
  show "connect_loop K host_cid port local_port n s = (case connect_attempt K host_cid port local_port s of
      (Inl r, s') \<Rightarrow> (r, s')
    | (Inr err, s') \<Rightarrow> if n < 10 then connect_loop K host_cid port local_port (Suc n) (calls [Sleep 100] s')
        else (Err (bind_failed local_port err), s'))"
    by (subst connect_loop.simps)
      (simp add: connect_attempt_def Let_def split: sum.split option.split)
  show "nt_attempt (snd (connect_attempt K host_cid port local_port s)) = Suc (nt_attempt s)"
    by (simp add: connect_attempt_def Let_def split: sum.split option.split)
qed simp

interpretation listen_retry: retry_loop "listen_attempt K client_port" "calls [Sleep 100]"
  "\<lambda>e. Err (Context (''binding persistent listener to client port '' @ show_u32 client_port @
     '' to secure it'') (Msg e))" "listen_loop K client_port" nt_attempt
proof unfold_locales
  fix n s
  show "listen_loop K client_port n s = (case listen_attempt K client_port s of
      (Inl r, s') \<Rightarrow> (r, s')
    | (Inr e, s') \<Rightarrow> if n < 10 then listen_loop K client_port (Suc n) (calls [Sleep 100] s')
        else (Err (Context (''binding persistent listener to client port '' @ show_u32 client_port @
          '' to secure it'') (Msg e)), s'))"
    by (subst listen_loop.simps) (simp add: listen_attempt_def Let_def split: sum.split)
  show "nt_attempt (snd (listen_attempt K client_port s)) = Suc (nt_attempt s)"
    by (simp add: listen_attempt_def Let_def split: sum.split)
qed simp

section \<open>Descriptors\<close>

text \<open>
  The descriptors that a sequence of calls has opened, the sockets of the connections and that of the
  persistent listener, and those it has closed.
\<close>

fun opened :: "sys_event list \<Rightarrow> nat list" where
  "opened [] = []"
| "opened (Socket fd # evs) = fd # opened evs"
| "opened (Listening fd # evs) = fd # opened evs"
| "opened (_ # evs) = opened evs"

fun closed :: "sys_event list \<Rightarrow> nat list" where
  "closed [] = []"
| "closed (Close fd # evs) = fd # closed evs"
| "closed (_ # evs) = closed evs"

lemma opened_append [simp]: "opened (xs @ ys) = opened xs @ opened ys"
  by (induction xs rule: opened.induct) simp_all

lemma closed_append [simp]: "closed (xs @ ys) = closed xs @ closed ys"
  by (induction xs rule: closed.induct) simp_all

text \<open>The calls between two states, and that none of them left a descriptor open.\<close>

definition calls_between :: "net \<Rightarrow> net \<Rightarrow> sys_event list \<Rightarrow> bool" where
  "calls_between s s' evs \<longleftrightarrow> nt_log s' = nt_log s @ evs"

definition balanced :: "sys_event list \<Rightarrow> bool" where
  "balanced evs \<longleftrightarrow> mset (opened evs) = mset (closed evs)"

lemma balanced_append: "balanced xs \<Longrightarrow> balanced ys \<Longrightarrow> balanced (xs @ ys)"
  by (simp add: balanced_def)

text \<open>What the connect loop did: the attempts before the last left nothing open.\<close>

definition connected_calls :: "u32 \<Rightarrow> u32 \<Rightarrow> u32 \<Rightarrow> (nat \<times> stream, anyhow) res \<Rightarrow> sys_event list \<Rightarrow> bool" where
  "connected_calls host_cid port local_port r evs \<longleftrightarrow>
     (case r of
        Ok (fd, _) \<Rightarrow> \<exists>before. balanced before \<and>
          evs = before @ [Socket fd, SetReuse fd, Bind fd local_port, Connect fd host_cid port]
      | _ \<Rightarrow> balanced evs)"

lemma connect_loop_calls:
  "\<exists>evs. calls_between s (snd (connect_loop K host_cid port local_port n s)) evs \<and>
     connected_calls host_cid port local_port (fst (connect_loop K host_cid port local_port n s)) evs"
proof (rule connect_retry.loop_invariant
    [where I = "\<lambda>t. \<exists>evs. calls_between s t evs \<and> balanced evs"
      and Q = "\<lambda>r t. \<exists>evs. calls_between s t evs \<and> connected_calls host_cid port local_port r evs"])
  show "\<exists>evs. calls_between s s evs \<and> balanced evs"
    by (simp add: calls_between_def balanced_def)
next
  fix t e t'
  assume "\<exists>evs. calls_between s t evs \<and> balanced evs"
    and "connect_attempt K host_cid port local_port t = (Inr e, t')"
  then show "(\<exists>evs. calls_between s (calls [Sleep 100] t') evs \<and> balanced evs) \<and>
      (\<exists>evs. calls_between s t' evs \<and> connected_calls host_cid port local_port (Err (bind_failed local_port e)) evs)"
    by (auto simp: connect_attempt_def Let_def calls_between_def balanced_def connected_calls_def
        split: sum.splits option.splits if_splits)
next
  fix t r t'
  assume "\<exists>evs. calls_between s t evs \<and> balanced evs"
    and "connect_attempt K host_cid port local_port t = (Inl r, t')"
  then show "\<exists>evs. calls_between s t' evs \<and> connected_calls host_cid port local_port r evs"
    by (auto simp: connect_attempt_def Let_def calls_between_def balanced_def connected_calls_def
        split: sum.splits option.splits if_splits)
qed


text \<open>The listen loop opens one descriptor, its last call, when it succeeds, and none when it fails.\<close>

definition listened_calls :: "u32 \<Rightarrow> (nat, anyhow) res \<Rightarrow> sys_event list \<Rightarrow> bool" where
  "listened_calls client_port r evs \<longleftrightarrow>
     (case r of
        Ok l \<Rightarrow> \<exists>before. balanced before \<and> evs = before @ [Listen client_port, Listening l]
      | _ \<Rightarrow> balanced evs)"

lemma listen_loop_calls:
  "\<exists>evs. calls_between s (snd (listen_loop K client_port n s)) evs \<and>
     listened_calls client_port (fst (listen_loop K client_port n s)) evs"
  by (rule listen_retry.loop_invariant
      [where I = "\<lambda>t. \<exists>evs. calls_between s t evs \<and> balanced evs"
        and Q = "\<lambda>r t. \<exists>evs. calls_between s t evs \<and> listened_calls client_port r evs"])
    (auto simp: listen_attempt_def Let_def calls_between_def balanced_def listened_calls_def split: sum.splits)

section \<open>What one request does\<close>

text \<open>The response that a request gets, if it gets that far, with the key it was made for.\<close>

definition served ::
  "('kp, 'cert, 'csr) agent_env \<Rightarrow> AgentConfig \<Rightarrow> EntityEntry \<Rightarrow> world
     \<Rightarrow> (GeneratedCsr \<times> string \<times> string) option" where
  "served A config entity w =
     (case generate_csr (ae_rcgen A) (aw_rng w) (en_name entity) of
        Ok g \<Rightarrow>
          (case fst (connect_with_local_port (ae_kernel A) (host_cid_of (ae_host_cid_var A))
              (ag_server_port config) (ag_client_port config) (aw_net w)) of
             Ok (fd, st) \<Rightarrow>
               (case fst (exchange (ae_request_json A) (ae_response_json A)
                   (cert_request config entity (gc_csr_pem g)) st) of
                  Ok (RespOk cert_pem trusted_pem) \<Rightarrow> Some (g, cert_pem, trusted_pem)
                | _ \<Rightarrow> None)
           | _ \<Rightarrow> None)
      | _ \<Rightarrow> None)"

definition stored :: "EntityEntry \<Rightarrow> (GeneratedCsr \<times> string \<times> string) option \<Rightarrow> (fs, unit, anyhow) io" where
  "stored entity v = (case v of
       None \<Rightarrow> io_ret ()
     | Some (g, cert_pem, trusted_pem) \<Rightarrow>
         store_entity_credentials entity cert_pem (gc_key_pem g) trusted_pem)"

lemma request_cert_served:
  assumes "served A config entity w = Some (g, cert_pem, trusted_pem)"
    and "request_cert A config entity w = (r, w')"
  shows "store_entity_credentials entity cert_pem (gc_key_pem g) trusted_pem (aw_fs w) = (r, aw_fs w')"
  using assms
  by (auto simp: served_def request_cert_def Let_def io_bind_def io_lift_def io_map_err_def on_net_def on_fs_def
      split: res.splits prod.splits CertResponse.splits)

lemma request_cert_not_served:
  assumes "served A config entity w = None" and "request_cert A config entity w = (r, w')"
  shows "aw_fs w' = aw_fs w \<and> (\<forall>u. r \<noteq> Ok u)"
  using assms
  by (auto simp: served_def request_cert_def Let_def io_bind_def io_lift_def io_map_err_def on_net_def on_fs_def
      split: res.splits prod.splits CertResponse.splits)

lemma aw_fs_request_cert:
  "aw_fs (snd (request_cert A config entity w)) = snd (stored entity (served A config entity w) (aw_fs w))"
proof (cases "served A config entity w")
  case None
  with request_cert_not_served [OF None, of "fst (request_cert A config entity w)"] show ?thesis
    by (simp add: stored_def io_ret_def)
next
  case (Some v)
  obtain g c t where v: "v = (g, c, t)" by (cases v)
  have "store_entity_credentials entity c (gc_key_pem g) t (aw_fs w) =
      (fst (request_cert A config entity w), aw_fs (snd (request_cert A config entity w)))"
    by (rule request_cert_served [OF Some [unfolded v]]) simp
  with Some v show ?thesis by (simp add: stored_def)
qed

lemma request_cert_calls:
  "\<exists>evs. calls_between (aw_net w) (aw_net (snd (request_cert A config entity w))) evs \<and> balanced evs"
proof (cases "generate_csr (ae_rcgen A) (aw_rng w) (en_name entity)")
  case (Ok g)
  define conn where "conn = connect_with_local_port (ae_kernel A) (host_cid_of (ae_host_cid_var A))
    (ag_server_port config) (ag_client_port config) (aw_net w)"
  obtain evs where evs: "calls_between (aw_net w) (snd conn) evs"
    "connected_calls (host_cid_of (ae_host_cid_var A)) (ag_server_port config) (ag_client_port config) (fst conn) evs"
    using connect_loop_calls [of "aw_net w" "ae_kernel A"] unfolding conn_def connect_with_local_port_def by blast
  show ?thesis
  proof (cases "fst conn")
    case conn: (Ok p)
    obtain fd st where p: "p = (fd, st)" by (cases p)
    have "aw_net (snd (request_cert A config entity w)) = calls [Close fd] (snd conn)"
      using Ok conn p unfolding conn_def
      by (auto simp: request_cert_def Let_def io_bind_def io_lift_def io_map_err_def on_net_def on_fs_def
          split: res.splits prod.splits CertResponse.splits)
    moreover have "balanced (evs @ [Close fd])"
      using evs(2) conn p by (auto simp: connected_calls_def balanced_def)
    ultimately show ?thesis
      using evs(1) by (intro exI [of _ "evs @ [Close fd]"]) (simp add: calls_between_def)
  next
    case (Err e)
    have "aw_net (snd (request_cert A config entity w)) = snd conn"
      using Ok Err unfolding conn_def
      by (auto simp: request_cert_def Let_def io_bind_def io_lift_def io_map_err_def on_net_def
          split: res.splits prod.splits)
    with evs Err show ?thesis by (auto simp: connected_calls_def)
  next
    case Panic
    have "aw_net (snd (request_cert A config entity w)) = snd conn"
      using Ok Panic unfolding conn_def
      by (auto simp: request_cert_def Let_def io_bind_def io_lift_def io_map_err_def on_net_def
          split: res.splits prod.splits)
    with evs Panic show ?thesis by (auto simp: connected_calls_def)
  qed
qed (auto simp: request_cert_def Let_def io_bind_def io_lift_def calls_between_def balanced_def)

lemma run_entities_calls:
  "\<exists>evs. calls_between (aw_net w) (aw_net (snd (run_entities A config es w))) evs \<and> balanced evs"
proof (induction es arbitrary: w)
  case Nil
  show ?case by (simp add: calls_between_def balanced_def)
next
  case (Cons e es)
  obtain r w1 where req: "request_cert A config e w = (r, w1)" by fastforce
  obtain evs where evs: "calls_between (aw_net w) (aw_net w1) evs" "balanced evs"
    using request_cert_calls [of w A config e] req by auto
  let ?w2 = "w1\<lparr>aw_results := aw_results w1 @ [(en_name e, r)]\<rparr>"
  obtain evs' where evs': "calls_between (aw_net ?w2) (aw_net (snd (run_entities A config es ?w2))) evs'" "balanced evs'"
    using Cons.IH by blast
  show ?case
  proof (cases "r = Panic")
    case True
    with req evs show ?thesis by auto
  next
    case False
    with req have "run_entities A config (e # es) w = run_entities A config es ?w2"
      by (cases r) simp_all
    with evs evs' show ?thesis
      by (intro exI [of _ "evs @ evs'"]) (simp add: calls_between_def balanced_append)
  qed
qed

text \<open>The whole run: what is open at its end is the listener, or nothing when the run failed.\<close>

definition agent_calls :: "u32 \<Rightarrow> (unit, anyhow) res \<Rightarrow> sys_event list \<Rightarrow> bool" where
  "agent_calls client_port r evs \<longleftrightarrow>
     (case r of
        Ok _ \<Rightarrow> \<exists>before l. balanced before \<and> evs = before @ [Listen client_port, Listening l]
      | _ \<Rightarrow> balanced evs)"

lemma agent_calls_simps [simp]:
  "agent_calls p (Ok u) evs \<longleftrightarrow> (\<exists>before l. balanced before \<and> evs = before @ [Listen p, Listening l])"
  "agent_calls p (Err e) evs \<longleftrightarrow> balanced evs" "agent_calls p Panic evs \<longleftrightarrow> balanced evs"
  by (simp_all add: agent_calls_def)

lemma run_agent_calls:
  "\<exists>evs. calls_between (aw_net w) (aw_net (snd (run_agent A config w))) evs \<and>
     agent_calls (ag_client_port config) (fst (run_agent A config w)) evs"
proof -
  obtain r w1 where ents: "run_entities A config (ag_entities config) w = (r, w1)" by fastforce
  obtain evs where evs: "calls_between (aw_net w) (aw_net w1) evs" "balanced evs"
    using run_entities_calls [of w A config "ag_entities config"] ents by auto
  show ?thesis
  proof (cases r)
    case (Ok u)
    obtain q n where listen: "listen_loop (ae_kernel A) (ag_client_port config) 0 (aw_net w1) = (q, n)" by fastforce
    obtain evs' where evs': "calls_between (aw_net w1) n evs'" "listened_calls (ag_client_port config) q evs'"
      using listen_loop_calls [of "aw_net w1" "ae_kernel A" "ag_client_port config" 0] listen by auto
    have all: "calls_between (aw_net w) n (evs @ evs')" using evs(1) evs'(1) by (simp add: calls_between_def)
    have run: "run_agent A config w = (case q of Ok l \<Rightarrow> Ok () | Err e \<Rightarrow> Err e | Panic \<Rightarrow> Panic, w1\<lparr>aw_net := n\<rparr>)"
      using ents Ok listen by (simp add: run_agent_def io_bind_def on_net_def io_ret_def split: res.split)
    have "agent_calls (ag_client_port config) (fst (run_agent A config w)) (evs @ evs')"
    proof (cases q)
      case (Ok l)
      with evs'(2) obtain before where "balanced before" "evs' = before @ [Listen (ag_client_port config), Listening l]"
        by (auto simp: listened_calls_def)
      with evs(2) Ok show ?thesis
        by (auto simp: run intro!: exI [of _ "evs @ before"] balanced_append)
    qed (use evs(2) evs'(2) in \<open>simp_all add: run listened_calls_def balanced_append\<close>)
    with all run show ?thesis by auto
  qed (use ents evs in \<open>auto simp: run_agent_def io_bind_def\<close>)
qed

lemma request_cert_results: "aw_results (snd (request_cert A config e w)) = aw_results w"
  by (auto simp: request_cert_def Let_def io_bind_def io_lift_def io_map_err_def on_net_def on_fs_def
      split: res.splits prod.splits CertResponse.splits)

text \<open>A request leaves files with other names alone, and leaves its own complete when it succeeds.\<close>

lemma request_cert_keeps:
  assumes "fs_nodes (aw_fs w) q = Some (Reg f)" and "q \<notin> set (entity_paths e)"
  shows "fs_nodes (aw_fs (snd (request_cert A config e w))) q = Some (Reg f)"
  using assms keeps_store [OF assms(2)]
  by (auto simp: aw_fs_request_cert stored_def io_ret_def keeps_def split: option.split)

lemma run_entities_keeps:
  "fs_nodes (aw_fs w) q = Some (Reg f) \<Longrightarrow> q \<notin> set (concat (map entity_paths es)) \<Longrightarrow>
     fs_nodes (aw_fs (snd (run_entities A config es w))) q = Some (Reg f)"
proof (induction es arbitrary: w)
  case (Cons e es)
  obtain r w1 where req: "request_cert A config e w = (r, w1)" by fastforce
  have "fs_nodes (aw_fs w1) q = Some (Reg f)"
    using request_cert_keeps [OF Cons.prems(1), of e A config] Cons.prems(2) req by simp
  with Cons.IH [of "w1\<lparr>aw_results := aw_results w1 @ [(en_name e, r)]\<rparr>"] Cons.prems(2) req show ?case
    by (cases r) simp_all
qed simp

text \<open>A key that was made for the entity, and two certificates from a response of the server.\<close>

definition granted :: "('kp, 'cert, 'csr) agent_env \<Rightarrow> EntityEntry \<Rightarrow> string \<Rightarrow> string \<Rightarrow> string \<Rightarrow> bool" where
  "granted A e cert key ca \<longleftrightarrow>
     (\<exists>rng g. generate_csr (ae_rcgen A) rng (en_name e) = Ok g \<and> key = gc_key_pem g) \<and>
     (\<exists>payload. from_slice (ae_response_json A) payload = Ok (RespOk cert ca))"

lemma exchange_Ok:
  assumes "fst (exchange Jq Jr req st) = Ok resp"
  shows "\<exists>payload. from_slice Jr payload = Ok resp"
proof -
  from assms obtain st1 st2 where "recv_json Jr st1 = (Ok resp, st2)"
    by (cases "exchange Jq Jr req st") (auto simp: exchange_def io_inv)
  then show ?thesis by (rule recv_json_Ok_imp_frame) blast
qed

lemma served_granted: "served A config e w = Some (g, cert, ca) \<Longrightarrow> granted A e cert (gc_key_pem g) ca"
  unfolding served_def granted_def
  by (auto split: res.splits prod.splits CertResponse.splits intro: exchange_Ok)

lemma request_cert_credentials:
  assumes "request_cert A config e w = (Ok (), w')" and "distinct (entity_paths e)" "[] \<notin> set (entity_paths e)"
  shows "\<exists>cert key ca. granted A e cert key ca \<and> has_credentials (aw_fs w') e cert key ca"
proof -
  obtain g c t where served: "served A config e w = Some (g, c, t)"
    using request_cert_not_served [OF _ assms(1)] by (cases "served A config e w") auto
  have "has_credentials (aw_fs w') e c (gc_key_pem g) t"
    by (rule store_entity_credentials_Ok [OF request_cert_served [OF served assms(1)]])
      (use assms(2,3) in \<open>auto simp: entity_paths_def has_credentials_def\<close>)
  with served_granted [OF served] show ?thesis by blast
qed

text \<open>What the log says of an entity, and what the disk then holds.\<close>

definition reported ::
  "('kp, 'cert, 'csr) agent_env \<Rightarrow> fs \<Rightarrow> EntityEntry \<Rightarrow> string \<times> (unit, anyhow) res \<Rightarrow> bool" where
  "reported A s e entry \<longleftrightarrow> fst entry = en_name e \<and>
     (snd entry = Ok () \<longrightarrow> (\<exists>cert key ca. granted A e cert key ca \<and> has_credentials s e cert key ca))"

lemma run_entities_reported:
  assumes "run_entities A config es w = (Ok (), w')"
    and "distinct (concat (map entity_paths es))" "[] \<notin> set (concat (map entity_paths es))"
  shows "\<exists>log. aw_results w' = aw_results w @ log \<and> list_all2 (reported A (aw_fs w')) es log"
  using assms
proof (induction es arbitrary: w)
  case (Cons e es)
  obtain r w1 where req: "request_cert A config e w = (r, w1)" by fastforce
  let ?w2 = "w1\<lparr>aw_results := aw_results w1 @ [(en_name e, r)]\<rparr>"
  have run: "run_entities A config es ?w2 = (Ok (), w')"
    using Cons.prems(1) req by (cases r) simp_all
  have "aw_results w1 = aw_results w" using request_cert_results [of A config e w] req by simp
  moreover obtain log where "aw_results w' = aw_results ?w2 @ log" "list_all2 (reported A (aw_fs w')) es log"
    using Cons.IH [OF run] Cons.prems(2,3) by auto
  moreover have "reported A (aw_fs w') e (en_name e, r)"
  proof -
    have kept: "fs_nodes (aw_fs w') q = Some (Reg f)"
      if "q \<in> set (entity_paths e)" "fs_nodes (aw_fs w1) q = Some (Reg f)" for q f
    proof -
      have "q \<notin> set (concat (map entity_paths es))" using Cons.prems(2) that(1) by auto
      with run_entities_keeps [of ?w2 q f es A config] that(2) run show ?thesis by simp
    qed
    have "\<exists>cert key ca. granted A e cert key ca \<and> has_credentials (aw_fs w') e cert key ca" if "r = Ok ()"
    proof -
      have "request_cert A config e w = (Ok (), w1)" "distinct (entity_paths e)" "[] \<notin> set (entity_paths e)"
        using req that Cons.prems(2,3) by simp_all
      from request_cert_credentials [OF this] obtain cert key ca where
        "granted A e cert key ca" "has_credentials (aw_fs w1) e cert key ca"
        by blast
      moreover from this(2) have "has_credentials (aw_fs w') e cert key ca"
        using kept by (rule has_credentials_kept)
      ultimately show ?thesis by blast
    qed
    then show ?thesis by (simp add: reported_def)
  qed
  ultimately show ?case by (intro exI [of _ "(en_name e, r) # log"]) simp
qed simp

section \<open>A concrete kernel and server for the witnesses\<close>

text \<open>The port is busy for two attempts; the stream then holds one ready response.\<close>

definition reply_stream :: "bytes \<Rightarrow> stream" where
  "reply_stream bs = empty_stream\<lparr>s_in := lp_frame put_frame_len bs\<rparr>"

definition sample_kernel :: "stream \<Rightarrow> vsock_kernel" where
  "sample_kernel st = \<lparr>vk_socket = (\<lambda>i. Inr (i + 3)),
     vk_bind = (\<lambda>i. if i < 2 then Some \<lparr>ie_addr_in_use = True, ie_msg = ''busy''\<rparr> else None),
     vk_connect = (\<lambda>_. None), vk_stream = (\<lambda>_. Inr st), vk_listen = (\<lambda>_. Inr 9)\<rparr>"

definition fixed_serde :: "('a, string) res \<Rightarrow> 'a serde" where
  "fixed_serde r = \<lparr>to_vec = (\<lambda>_. Ok [1]), from_slice = (\<lambda>_. r)\<rparr>"

definition sample_agent :: "CertResponse \<Rightarrow> (unit, string, unit) agent_env" where
  "sample_agent resp = \<lparr>ae_request_json = fixed_serde (Err ''not read''),
     ae_response_json = fixed_serde (Ok resp), ae_rcgen = sample_rcgen,
     ae_kernel = sample_kernel (reply_stream [1]), ae_host_cid_var = None\<rparr>"

definition sample_agent_config :: AgentConfig where
  "sample_agent_config = \<lparr>ag_vm_name = ''peer-vm'', ag_server_port = 900, ag_entities = [sample_entity],
     ag_client_port = 901\<rparr>"

definition sample_net :: net where
  "sample_net = \<lparr>nt_attempt = 0, nt_log = []\<rparr>"

definition sample_world :: world where
  "sample_world = \<lparr>aw_fs = sample_fs, aw_net = sample_net, aw_rng = 0, aw_results = []\<rparr>"


lemma sample_net_simps [simp]: "nt_attempt sample_net = 0" "nt_log sample_net = []"
  by (simp_all add: sample_net_def)

lemma sample_kernel_simps [simp]:
  "vk_socket (sample_kernel st) i = Inr (i + 3)"
  "vk_bind (sample_kernel st) i = (if i < 2 then Some \<lparr>ie_addr_in_use = True, ie_msg = ''busy''\<rparr> else None)"
  "vk_connect (sample_kernel st) i = None" "vk_stream (sample_kernel st) i = Inr st"
  "vk_listen (sample_kernel st) i = Inr 9"
  by (simp_all add: sample_kernel_def)

lemma sample_connect:
  "connect_with_local_port (sample_kernel st) cid p lp sample_net =
     (Ok (5, st), \<lparr>nt_attempt = 3, nt_log =
       [Socket 3, SetReuse 3, Bind 3 lp, Close 3, Sleep 100, Socket 4, SetReuse 4, Bind 4 lp, Close 4, Sleep 100,
        Socket 5, SetReuse 5, Bind 5 lp, Connect 5 cid p]\<rparr>)"
  by (simp add: connect_with_local_port_def connect_loop.simps calls_def sample_net_def)

lemma sample_exchange:
  "fst (exchange (fixed_serde r) (fixed_serde (Ok resp)) req (reply_stream [1])) = Ok resp"
proof -
  have healthy: "healthy (reply_stream [1])"
    by (simp add: reply_stream_def healthy_def empty_stream_def)
  have vec: "to_vec (fixed_serde r) req = Ok [1]" by (simp add: fixed_serde_def)
  let ?st = "(reply_stream [1])\<lparr>s_out := s_out (reply_stream [1]) @ lp_frame put_frame_len [1]\<rparr>"
  have "recv_json (fixed_serde (Ok resp)) ?st = (map_err Msg (from_slice (fixed_serde (Ok resp)) [1]), ?st\<lparr>s_in := []\<rparr>)"
    by (rule recv_json_frame) (simp_all add: reply_stream_def MAX_MSG_BYTES_def)
  then show ?thesis
    using send_json_healthy [OF healthy vec]
    by (simp add: exchange_def res_simps) (simp add: fixed_serde_def)
qed

lemma sample_served:
  "served (sample_agent (RespOk ''LEAF'' ''ROOT'')) sample_agent_config sample_entity sample_world =
     Some (\<lparr>gc_key_pem = ''KEY'', gc_csr_pem = ''CSR''\<rparr>, ''LEAF'', ''ROOT'')"
  by (simp add: served_def sample_agent_def sample_world_def sample_agent_config_def generate_csr_def
      sample_connect sample_exchange)

lemma sample_request_cert:
  "\<exists>w'. request_cert (sample_agent (RespOk ''LEAF'' ''ROOT'')) sample_agent_config sample_entity sample_world
     = (Ok (), w')"
proof -
  obtain r w' where w': "request_cert (sample_agent (RespOk ''LEAF'' ''ROOT'')) sample_agent_config
      sample_entity sample_world = (r, w')"
    by fastforce
  from request_cert_served [OF sample_served w'] have "r = Ok ()"
    using sample_store [of "''LEAF''" "''KEY''" "''ROOT''"] by (simp add: sample_world_def)
  with w' show ?thesis by blast
qed


section \<open>Properties\<close>

text \<open>A connection that the agent gets comes from the reserved local port: the last calls bound the
  very descriptor to it and connected it, every earlier descriptor was closed, and there were at
  most eleven attempts.\<close>

theorem connect_uses_reserved_port:
  assumes "connect_with_local_port K host_cid port local_port s = (Ok (fd, st), s')"
  shows "\<exists>before. nt_log s' = nt_log s @ before @
      [Socket fd, SetReuse fd, Bind fd local_port, Connect fd host_cid port] \<and>
    mset (opened before) = mset (closed before) \<and> nt_attempt s' \<le> nt_attempt s + 11"
proof -
  have loop: "connect_loop K host_cid port local_port 0 s = (Ok (fd, st), s')"
    using assms by (simp add: connect_with_local_port_def)
  have "nt_attempt s' \<le> nt_attempt s + 11"
    using connect_retry.bounded_tries [of 0 K host_cid port local_port s] loop by simp
  with connect_loop_calls [of s K host_cid port local_port 0] loop show ?thesis
    by (auto simp: calls_between_def connected_calls_def balanced_def)
qed

theorem connect_uses_reserved_port_witness:
  "\<exists>before s'. connect_with_local_port (sample_kernel empty_stream) 2 900 901 sample_net = (Ok (5, empty_stream), s')
     \<and> nt_log s' = before @ [Socket 5, SetReuse 5, Bind 5 901, Connect 5 2 900]"
  using connect_uses_reserved_port [OF sample_connect] sample_connect by fastforce

text \<open>The agent waits for its port: if it is busy for at most ten attempts and the calls succeed then,
  the connection is made.\<close>

theorem connect_waits_for_port:
  assumes "k \<le> 10" and "\<forall>j < k. \<exists>fd e. vk_socket K (nt_attempt s + j) = Inr fd \<and>
      vk_bind K (nt_attempt s + j) = Some e \<and> ie_addr_in_use e"
    and "vk_socket K (nt_attempt s + k) = Inr fd" "vk_bind K (nt_attempt s + k) = None"
      "vk_connect K (nt_attempt s + k) = None" "vk_stream K (nt_attempt s + k) = Inr st"
  shows "fst (connect_with_local_port K host_cid port local_port s) = Ok (fd, st)"
proof -
  let ?after = "\<lambda>j. connect_retry.after K host_cid port local_port j s"
  have counts: "nt_attempt (connect_retry.after K host_cid port local_port j t) = nt_attempt t + j" for j t
    by (induction j arbitrary: t) (simp_all add: connect_retry.attempt_counts)
  have "\<exists>e. fst (connect_attempt K host_cid port local_port (?after j)) = Inr e" if "j < k" for j
    using assms(2) that counts [of j s] by (auto simp: connect_attempt_def Let_def)
  moreover have "connect_attempt K host_cid port local_port (?after k) =
      (Inl (Ok (fd, st)), snd (connect_attempt K host_cid port local_port (?after k)))"
    using assms(3-6) counts [of k s] by (simp add: connect_attempt_def Let_def)
  ultimately have "connect_loop K host_cid port local_port 0 s =
      (Ok (fd, st), snd (connect_attempt K host_cid port local_port (?after k)))"
    using assms(1) by (intro connect_retry.settles) simp_all
  then show ?thesis by (simp add: connect_with_local_port_def)
qed

theorem connect_waits_for_port_witness:
  "fst (connect_with_local_port (sample_kernel empty_stream) 2 900 901 sample_net) = Ok (5, empty_stream)"
  using connect_waits_for_port [of 2 "sample_kernel empty_stream" sample_net 5 empty_stream] by simp

text \<open>The disk changes only when the server has answered with a certificate, and then only by storing
  that certificate, the server's CA certificate and the key that was made for this request; in
  every other case, errors and refusals included, all files are as before.\<close>

theorem request_changes_disk_only_by_storing:
  "aw_fs (snd (request_cert A config entity w)) =
     (case served A config entity w of
        None \<Rightarrow> aw_fs w
      | Some (g, cert_pem, trusted_pem) \<Rightarrow>
          snd (store_entity_credentials entity cert_pem (gc_key_pem g) trusted_pem (aw_fs w)))"
  unfolding aw_fs_request_cert stored_def by (simp add: io_ret_def split: option.split prod.split)

text \<open>A request that succeeds leaves the entity's three files complete: the certificate and the CA
  certificate of the response, and the private key that belongs to the CSR that was sent.\<close>

theorem request_cert_stores:
  assumes "request_cert A config entity w = (Ok (), w')"
    and "distinct [en_cert_path entity, en_key_path entity, en_ca_path entity]"
    and "en_cert_path entity \<noteq> []" "en_key_path entity \<noteq> []" "en_ca_path entity \<noteq> []"
  shows "\<exists>g cert_pem trusted_pem. served A config entity w = Some (g, cert_pem, trusted_pem) \<and>
    generate_csr (ae_rcgen A) (aw_rng w) (en_name entity) = Ok g \<and>
    data_at (aw_fs w') (en_cert_path entity) = Some (as_bytes cert_pem) \<and>
    data_at (aw_fs w') (en_key_path entity) = Some (as_bytes (gc_key_pem g)) \<and>
    data_at (aw_fs w') (en_ca_path entity) = Some (as_bytes trusted_pem)"
proof -
  obtain g c t where served: "served A config entity w = Some (g, c, t)"
    using request_cert_not_served [OF _ assms(1)] by (cases "served A config entity w") auto
  then have "generate_csr (ae_rcgen A) (aw_rng w) (en_name entity) = Ok g"
    by (auto simp: served_def split: res.splits prod.splits CertResponse.splits)
  moreover have "data_at (aw_fs w') (en_cert_path entity) = Some (as_bytes c) \<and>
      data_at (aw_fs w') (en_key_path entity) = Some (as_bytes (gc_key_pem g)) \<and>
      data_at (aw_fs w') (en_ca_path entity) = Some (as_bytes t)"
    by (rule store_entity_credentials_Ok [OF request_cert_served [OF served assms(1)] assms(2-5)])
      (simp add: data_at_def stored_inode_def)
  ultimately show ?thesis using served by blast
qed

theorem request_cert_stores_witness:
  "\<exists>w'. request_cert (sample_agent (RespOk ''LEAF'' ''ROOT'')) sample_agent_config sample_entity sample_world
      = (Ok (), w') \<and> data_at (aw_fs w') (en_key_path sample_entity) = Some (as_bytes ''KEY'')"
proof -
  obtain w' where w': "request_cert (sample_agent (RespOk ''LEAF'' ''ROOT'')) sample_agent_config
      sample_entity sample_world = (Ok (), w')"
    using sample_request_cert by blast
  have paths: "distinct [en_cert_path sample_entity, en_key_path sample_entity, en_ca_path sample_entity]"
    "en_cert_path sample_entity \<noteq> []" "en_key_path sample_entity \<noteq> []" "en_ca_path sample_entity \<noteq> []"
    by (simp_all add: sample_entity_def)
  from request_cert_stores [OF w' paths] have
    "data_at (aw_fs w') (en_key_path sample_entity) = Some (as_bytes ''KEY'')"
    by (auto simp: sample_served)
  with w' show ?thesis by blast
qed

text \<open>C37: the agent leaks no socket and ends with its port secured: after a whole run, whatever failed in
  it, the socket descriptors it opened are those it closed again and, when the run reached its end, one more:
  the persistent listener on the client port, which was opened last and is held for ever. When the run
  failed, nothing is left open.\<close>

theorem run_agent_holds_only_listener:
  "\<exists>evs. nt_log (aw_net (snd (run_agent A config w))) = nt_log (aw_net w) @ evs \<and>
     (case fst (run_agent A config w) of
        Ok _ \<Rightarrow> \<exists>before listener. evs = before @ [Listen (ag_client_port config), Listening listener] \<and>
          mset (opened evs) = mset (closed evs) + {#listener#}
      | _ \<Rightarrow> mset (opened evs) = mset (closed evs))"
proof -
  obtain evs where evs: "nt_log (aw_net (snd (run_agent A config w))) = nt_log (aw_net w) @ evs"
    "agent_calls (ag_client_port config) (fst (run_agent A config w)) evs"
    using run_agent_calls [of w A config] unfolding calls_between_def by blast
  then show ?thesis
    by (intro exI [of _ evs]) (auto simp: agent_calls_def balanced_def split: res.splits)
qed

text \<open>C38: a whole run does what its log says: when the run reaches its end, every entity of the configuration
  has been tried, once and in order, whatever happened to the others; and when no two files share a
  name, each entity that was reported a success has a key made for it and the two certificates of a
  response on disk at the end, with the configured modes and owner, untouched by later requests.\<close>

theorem run_agent_reports_truly:
  assumes "run_agent A config w = (Ok (), w')"
    and "distinct (concat (map entity_paths (ag_entities config)))"
    and "[] \<notin> set (concat (map entity_paths (ag_entities config)))"
  shows "\<exists>log. aw_results w' = aw_results w @ log \<and>
    list_all2 (\<lambda>e (name, r). name = en_name e \<and>
      (r = Ok () \<longrightarrow> (\<exists>cert key ca. granted A e cert key ca \<and> has_credentials (aw_fs w') e cert key ca)))
      (ag_entities config) log"
proof -
  from assms(1) obtain w1 where ents: "run_entities A config (ag_entities config) w = (Ok (), w1)"
    and held: "\<exists>l. on_net (listen_loop (ae_kernel A) (ag_client_port config) 0) w1 = (Ok l, w')"
    by (auto simp: run_agent_def io_bind_Ok_iff io_ret_def)
  from held have "aw_results w' = aw_results w1" "aw_fs w' = aw_fs w1"
    by (auto simp: on_net_def split: prod.splits)
  with run_entities_reported [OF ents assms(2,3)] show ?thesis
    unfolding reported_def [abs_def] case_prod_unfold by simp
qed

theorem run_agent_reports_truly_witness:
  "\<exists>w' log cert key ca. run_agent (sample_agent (RespOk ''LEAF'' ''ROOT'')) sample_agent_config sample_world = (Ok (), w')
     \<and> aw_results w' = [(''service-a'', Ok ())] \<and> list_all2 (\<lambda>e entry. fst entry = en_name e) [sample_entity] log
     \<and> has_credentials (aw_fs w') sample_entity cert key ca"
proof -
  let ?A = "sample_agent (RespOk ''LEAF'' ''ROOT'')"
  obtain w1 where w1: "request_cert ?A sample_agent_config sample_entity sample_world = (Ok (), w1)"
    using sample_request_cert by blast
  have config: "ag_entities sample_agent_config = [sample_entity]" "ag_client_port sample_agent_config = 901"
    by (simp_all add: sample_agent_config_def)
  have names: "aw_results w1 = []" "en_name sample_entity = ''service-a''"
    using request_cert_results [of ?A sample_agent_config sample_entity sample_world] w1
    by (simp_all add: sample_world_def sample_entity_def)
  let ?w2 = "w1\<lparr>aw_results := [(''service-a'', Ok ())]\<rparr>"
  have "listen_loop (ae_kernel ?A) 901 0 s =
      (Ok 9, calls [Listening 9] (calls [Listen 901] (s\<lparr>nt_attempt := Suc (nt_attempt s)\<rparr>)))" for s
    by (subst listen_loop.simps) (simp add: sample_agent_def Let_def)
  then have run: "run_agent ?A sample_agent_config sample_world =
      (Ok (), ?w2\<lparr>aw_net := calls [Listening 9]
         (calls [Listen 901] ((aw_net w1)\<lparr>nt_attempt := Suc (nt_attempt (aw_net w1))\<rparr>))\<rparr>)"
    by (simp add: run_agent_def io_bind_def io_ret_def config w1 names on_net_def)
  have paths: "distinct (concat (map entity_paths (ag_entities sample_agent_config)))"
    "[] \<notin> set (concat (map entity_paths (ag_entities sample_agent_config)))"
    by (simp_all add: config entity_paths_def sample_entity_def)
  from run_agent_reports_truly [OF run paths] run show ?thesis
    by (auto simp: config sample_world_def list_all2_Cons1)
qed

end
