(* ===== verification/Agent_Task.thy ===== *)
theory Agent_Task
  imports Task Client
begin

text \<open>
  The agent's exchange at the grain of its await points: \<open>request_cert\<close> of \<open>client.rs\<close> between connecting
  and storing, with the functions of \<open>codec.rs\<close> that it awaits. \<^const>\<open>exchange\<close> runs on a stream
  whose whole input is known; here the server's bytes arrive one part after another. The refinement
  shows that the timing cannot be seen in the result, whatever the server sends and however the
  transport fails.
\<close>

section \<open>The agent's side\<close>

datatype apc =
    ASend bytes "bytes list"
  | AFlush
  | ARecv goal nat bytes
  | AEnd "(CertResponse, anyhow) res"

text \<open>
  \<open>s_in\<close> of the stream is what has arrived and was not read, \<open>at_pending\<close> what the server will still
  send, \<open>at_closed\<close> whether the end of the input has arrived.
\<close>

record agent_task =
  at_pc :: apc
  at_stream :: stream
  at_pending :: bytes
  at_closed :: bool

definition agent_start :: "CertRequest serde \<Rightarrow> CertRequest \<Rightarrow> apc" where
  "agent_start Jq req =
     (case to_vec Jq req of
        Ok payload \<Rightarrow> (let len = (of_nat (length payload) :: u32) in ASend (u32_to_be_bytes len) [payload])
      | Err e \<Rightarrow> AEnd (Err (Context ''sending CertRequest'' (Msg e)))
      | Panic \<Rightarrow> AEnd Panic)"

fun agent_after_write :: "bytes list \<Rightarrow> apc" where
  "agent_after_write [] = AFlush"
| "agent_after_write (bs # rest) = ASend bs rest"

definition agent_after_flush :: "stream \<Rightarrow> apc" where
  "agent_after_flush st =
     (case s_flush_err st of
        None \<Rightarrow> ARecv Header 4 []
      | Some m \<Rightarrow> AEnd (Err (Context ''sending CertRequest'' (Msg m))))"

primrec agent_after_read :: "CertResponse serde \<Rightarrow> goal \<Rightarrow> bytes \<Rightarrow> apc" where
  "agent_after_read Jr Header len_buf =
     (let len = unat (u32_from_be_bytes len_buf) in
      if len > MAX_MSG_BYTES then AEnd (Err (Context ''receiving CertResponse'' (Msg (frame_too_large len))))
      else ARecv Payload len [])"
| "agent_after_read Jr Payload buf =
     AEnd (map_err (Context ''receiving CertResponse'') (map_err Msg (from_slice Jr buf)))"

inductive agent_step :: "CertResponse serde \<Rightarrow> agent_task \<Rightarrow> agent_task \<Rightarrow> bool" for Jr where
  a_writes: "at_pc a = ASend (xs @ ys) rest \<Longrightarrow> xs \<noteq> [] \<Longrightarrow> has_room xs (at_stream a) \<Longrightarrow>
    agent_step Jr a (a\<lparr>at_pc := ASend ys rest, at_stream := takes xs (at_stream a)\<rparr>)"
| a_written: "at_pc a = ASend [] rest \<Longrightarrow> agent_step Jr a (a\<lparr>at_pc := agent_after_write rest\<rparr>)"
| a_write_error: "at_pc a = ASend bs rest \<Longrightarrow> bs \<noteq> [] \<Longrightarrow> s_room (at_stream a) = Some 0 \<Longrightarrow>
    agent_step Jr a (a\<lparr>at_pc := AEnd (Err (Context ''sending CertRequest'' (Msg (s_write_msg (at_stream a)))))\<rparr>)"
| a_flushes: "at_pc a = AFlush \<Longrightarrow> agent_step Jr a (a\<lparr>at_pc := agent_after_flush (at_stream a)\<rparr>)"
| a_reads: "at_pc a = ARecv g n buf \<Longrightarrow> s_in (at_stream a) = xs @ ys \<Longrightarrow> xs \<noteq> [] \<Longrightarrow>
    length buf + length xs \<le> n \<Longrightarrow>
    agent_step Jr a (a\<lparr>at_pc := ARecv g n (buf @ xs), at_stream := (at_stream a)\<lparr>s_in := ys\<rparr>\<rparr>)"
| a_filled: "at_pc a = ARecv g n buf \<Longrightarrow> length buf = n \<Longrightarrow>
    agent_step Jr a (a\<lparr>at_pc := agent_after_read Jr g buf\<rparr>)"
| a_early_eof: "at_pc a = ARecv g n buf \<Longrightarrow> length buf < n \<Longrightarrow> s_in (at_stream a) = [] \<Longrightarrow> at_closed a \<Longrightarrow>
    agent_step Jr a (a\<lparr>at_pc := AEnd (Err (Context ''receiving CertResponse'' (Msg (s_eof_msg (at_stream a)))))\<rparr>)"

section \<open>Termination and progress\<close>

primrec arank :: "apc \<Rightarrow> nat" where
  "arank (ASend bs rest) = 4"
| "arank AFlush = 3"
| "arank (ARecv g n buf) = (case g of Header \<Rightarrow> 2 | Payload \<Rightarrow> 1)"
| "arank (AEnd r) = 0"

primrec abuffers_left :: "apc \<Rightarrow> nat" where
  "abuffers_left (ASend bs rest) = length rest"
| "abuffers_left AFlush = 0"
| "abuffers_left (ARecv g n buf) = 0"
| "abuffers_left (AEnd r) = 0"

primrec abytes_left :: "apc \<Rightarrow> nat" where
  "abytes_left (ASend bs rest) = length bs"
| "abytes_left AFlush = 0"
| "abytes_left (ARecv g n buf) = n - length buf"
| "abytes_left (AEnd r) = 0"

definition agent_order :: "(agent_task \<times> agent_task) set" where
  "agent_order = measures [arank \<circ> at_pc, abuffers_left \<circ> at_pc, abytes_left \<circ> at_pc]"

lemma agent_step_decreases: "agent_step Jr a a' \<Longrightarrow> (a', a) \<in> agent_order"
proof (induction rule: agent_step.induct)
  case (a_reads a g n buf xs ys)
  then have "n - (length buf + length xs) < n - length buf" by (cases xs) auto
  with a_reads show ?case by (simp add: agent_order_def)
next
  case (a_filled a g n buf)
  then show ?case by (cases g) (auto simp: agent_order_def Let_def)
next
  case (a_written a rest)
  then show ?case by (cases rest) (auto simp: agent_order_def)
next
  case (a_flushes a)
  then show ?case by (auto simp: agent_order_def agent_after_flush_def split: option.split)
next
  case (a_early_eof a g n buf)
  then show ?case by (cases g) (simp_all add: agent_order_def)
qed (auto simp: agent_order_def)

definition agent_waiting :: "agent_task \<Rightarrow> bool" where
  "agent_waiting a \<longleftrightarrow> (case at_pc a of
     ARecv g n buf \<Rightarrow> length buf < n \<and> s_in (at_stream a) = [] \<and> \<not> at_closed a
   | _ \<Rightarrow> False)"

lemma agent_step_output: "agent_step Jr a a' \<Longrightarrow> \<exists>xs. s_out (at_stream a') = s_out (at_stream a) @ xs"
  by (auto elim!: agent_step.cases simp: takes_def)

lemma agent_can_step:
  assumes "\<And>g n buf. at_pc a = ARecv g n buf \<Longrightarrow> length buf \<le> n"
    and "\<not> (\<exists>res. at_pc a = AEnd res)" and "\<not> agent_waiting a"
  shows "\<exists>a'. agent_step Jr a a'"
proof (cases "at_pc a")
  case (ASend bs rest)
  show ?thesis
  proof (cases bs)
    case (Cons x ys)
    show ?thesis
    proof (cases "s_room (at_stream a) = Some 0")
      case True
      with ASend Cons show ?thesis using a_write_error [of a bs rest Jr] by blast
    next
      case False
      then have "has_room [x] (at_stream a)" by (auto simp: has_room_def split: option.split)
      with ASend Cons show ?thesis using a_writes [of a "[x]" ys rest Jr] by auto
    qed
  qed (use ASend in \<open>blast intro: a_written\<close>)
next
  case (ARecv g n buf)
  show ?thesis
  proof (cases "length buf = n")
    case False
    with assms(1) [OF ARecv] have less: "length buf < n" by simp
    show ?thesis
    proof (cases "s_in (at_stream a)")
      case Nil
      with assms(3) ARecv less show ?thesis by (auto simp: agent_waiting_def intro: a_early_eof)
    next
      case (Cons x ys)
      with ARecv less show ?thesis using a_reads [of a g n buf "[x]" ys Jr] by auto
    qed
  qed (use ARecv in \<open>blast intro: a_filled\<close>)
qed (use assms(2) a_flushes in blast)+

section \<open>The agent and whatever answers it\<close>

text \<open>The peer's steps: some of its bytes arrive; when all have, the end of its input may.\<close>

inductive answer_step :: "agent_task \<Rightarrow> agent_task \<Rightarrow> bool" where
  answer_arrives: "at_pending a = xs @ ys \<Longrightarrow> xs \<noteq> [] \<Longrightarrow>
    answer_step a (a\<lparr>at_stream := (at_stream a)\<lparr>s_in := s_in (at_stream a) @ xs\<rparr>, at_pending := ys\<rparr>)"
| answer_ends: "at_pending a = [] \<Longrightarrow> \<not> at_closed a \<Longrightarrow> answer_step a (a\<lparr>at_closed := True\<rparr>)"

definition agent_begin :: "CertRequest serde \<Rightarrow> CertRequest \<Rightarrow> stream \<Rightarrow> agent_task" where
  "agent_begin Jq req st = \<lparr>at_pc = agent_start Jq req, at_stream = st\<lparr>s_in := []\<rparr>, at_pending = s_in st,
     at_closed = False\<rparr>"

inductive agent_reach ::
  "CertRequest serde \<Rightarrow> CertResponse serde \<Rightarrow> CertRequest \<Rightarrow> stream \<Rightarrow> agent_task \<Rightarrow> bool"
  for Jq Jr req st where
  agent_begins: "agent_reach Jq Jr req st (agent_begin Jq req st)"
| agent_goes_on: "agent_reach Jq Jr req st a \<Longrightarrow> agent_step Jr a a' \<or> answer_step a a' \<Longrightarrow>
    agent_reach Jq Jr req st a'"

text \<open>The stream as if all its input were there, and what a suspended agent will still do with it.\<close>

definition whole_answer :: "agent_task \<Rightarrow> stream" where
  "whole_answer a = (at_stream a)\<lparr>s_in := s_in (at_stream a) @ at_pending a\<rparr>"

definition recv_rest :: "CertResponse serde \<Rightarrow> bytes \<Rightarrow> (stream, CertResponse, anyhow) io" where
  "recv_rest Jr len_buf =
     (let len = unat (u32_from_be_bytes len_buf) in
      if len > MAX_MSG_BYTES then io_lift (Err (Msg (frame_too_large len)))
      else io_bind (read_exact len) (\<lambda>buf. io_lift (map_err Msg (from_slice Jr buf))))"

primrec agent_follow :: "CertResponse serde \<Rightarrow> goal \<Rightarrow> bytes \<Rightarrow> (stream, CertResponse, anyhow) io" where
  "agent_follow Jr Header = recv_rest Jr"
| "agent_follow Jr Payload = (\<lambda>buf. io_lift (map_err Msg (from_slice Jr buf)))"

primrec agent_rest :: "CertResponse serde \<Rightarrow> apc \<Rightarrow> (stream, CertResponse, anyhow) io" where
  "agent_rest Jr (ASend bs rest) =
     io_bind (io_map_err (Context ''sending CertRequest'') (write_queue (bs # rest))) (\<lambda>_.
     io_map_err (Context ''receiving CertResponse'') (recv_json Jr))"
| "agent_rest Jr AFlush =
     io_bind (io_map_err (Context ''sending CertRequest'') flush) (\<lambda>_.
     io_map_err (Context ''receiving CertResponse'') (recv_json Jr))"
| "agent_rest Jr (ARecv g n buf) =
     io_map_err (Context ''receiving CertResponse'')
       (io_bind (read_exact (n - length buf)) (\<lambda>xs. agent_follow Jr g (buf @ xs)))"
| "agent_rest Jr (AEnd r) = io_lift r"

definition agent_outcome :: "CertResponse serde \<Rightarrow> agent_task \<Rightarrow> (CertResponse, anyhow) res \<times> stream" where
  "agent_outcome Jr a = agent_rest Jr (at_pc a) (whole_answer a)"

lemma whole_answer_simps [simp]:
  "s_room (whole_answer a) = s_room (at_stream a)" "s_flush_err (whole_answer a) = s_flush_err (at_stream a)"
  "s_eof_msg (whole_answer a) = s_eof_msg (at_stream a)" "s_write_msg (whole_answer a) = s_write_msg (at_stream a)"
  "s_in (whole_answer a) = s_in (at_stream a) @ at_pending a" "s_out (whole_answer a) = s_out (at_stream a)"
  "whole_answer (a\<lparr>at_pc := p\<rparr>) = whole_answer a" "whole_answer (a\<lparr>at_closed := b\<rparr>) = whole_answer a"
  "whole_answer (a\<lparr>at_pc := p, at_stream := st\<rparr>) = st\<lparr>s_in := s_in st @ at_pending a\<rparr>"
  "(whole_answer a)\<lparr>s_in := zs\<rparr> = (at_stream a)\<lparr>s_in := zs\<rparr>"
  by (simp_all add: whole_answer_def)

lemma has_room_answer [simp]: "has_room xs (whole_answer a) = has_room xs (at_stream a)"
  by (simp add: has_room_def)

text \<open>What is true of every state of the agent.\<close>

definition agent_ok :: "agent_task \<Rightarrow> bool" where
  "agent_ok a \<longleftrightarrow> (at_closed a \<longrightarrow> at_pending a = []) \<and>
     (case at_pc a of ARecv g n buf \<Rightarrow> length buf \<le> n \<and> n \<le> goal_limit g | _ \<Rightarrow> True)"

lemma agent_ok_codes [simp]:
  "agent_ok (a\<lparr>at_pc := agent_after_write rest\<rparr>) \<longleftrightarrow> (at_closed a \<longrightarrow> at_pending a = [])"
  "agent_ok (a\<lparr>at_pc := agent_after_flush st\<rparr>) \<longleftrightarrow> (at_closed a \<longrightarrow> at_pending a = [])"
  "agent_ok (a\<lparr>at_pc := agent_after_read Jr g buf\<rparr>) \<longleftrightarrow> (at_closed a \<longrightarrow> at_pending a = [])"
proof -
  show "agent_ok (a\<lparr>at_pc := agent_after_write rest\<rparr>) \<longleftrightarrow> (at_closed a \<longrightarrow> at_pending a = [])"
    by (cases rest) (simp_all add: agent_ok_def)
  show "agent_ok (a\<lparr>at_pc := agent_after_flush st\<rparr>) \<longleftrightarrow> (at_closed a \<longrightarrow> at_pending a = [])"
    by (simp add: agent_ok_def agent_after_flush_def split: option.split)
  show "agent_ok (a\<lparr>at_pc := agent_after_read Jr g buf\<rparr>) \<longleftrightarrow> (at_closed a \<longrightarrow> at_pending a = [])"
    by (cases g) (auto simp: agent_ok_def Let_def)
qed

lemma agent_ok_step: "agent_step Jr a a' \<Longrightarrow> agent_ok a \<Longrightarrow> agent_ok a'"
  by (induction rule: agent_step.induct) (simp_all, auto simp: agent_ok_def)

lemma agent_ok_answer: "answer_step a a' \<Longrightarrow> agent_ok a \<Longrightarrow> agent_ok a'"
  by (induction rule: answer_step.induct) (auto simp: agent_ok_def)

lemma agent_ok_begin: "agent_ok (agent_begin Jq req st)"
  by (simp add: agent_ok_def agent_begin_def agent_start_def Let_def split: res.split)

lemma agent_reach_ok: "agent_reach Jq Jr req st a \<Longrightarrow> agent_ok a"
  by (induction rule: agent_reach.induct) (auto simp: agent_ok_begin intro: agent_ok_step agent_ok_answer)

section \<open>Every step keeps the outcome\<close>

lemma io_map_err_bind: "io_map_err g (io_bind m f) = io_bind (io_map_err g m) (\<lambda>x. io_map_err g (f x))"
  by (rule ext) (auto simp: io_map_err_def io_bind_def split: prod.splits res.splits)

lemma agent_rest_after_read:
  "agent_rest Jr (agent_after_read Jr g buf) st =
     io_map_err (Context ''receiving CertResponse'') (agent_follow Jr g buf) st"
  by (cases g) (simp_all add: recv_rest_def io_map_err_def io_lift_def Let_def)

lemma agent_rest_after_flush:
  assumes "s_flush_err st' = s_flush_err st"
  shows "agent_rest Jr (agent_after_flush st') st = agent_rest Jr AFlush st"
proof -
  have "agent_rest Jr (ARecv Header 4 []) st = io_map_err (Context ''receiving CertResponse'') (recv_json Jr) st"
    by (simp add: recv_json_def recv_rest_def [abs_def])
  with assms show ?thesis
    by (cases "s_flush_err st") (auto simp: agent_after_flush_def flush_def io_map_err_def io_bind_def io_lift_def
        simp del: agent_rest.simps(3))
qed

lemma agent_rest_after_write:
  "agent_rest Jr (agent_after_write rest) st =
     io_bind (io_map_err (Context ''sending CertRequest'') (write_queue rest)) (\<lambda>_.
     io_map_err (Context ''receiving CertResponse'') (recv_json Jr)) st"
  by (cases rest) simp_all

text \<open>A step under the context that \<open>request_cert\<close> gives to the failures of sending.\<close>

lemma send_part:
  assumes "io_bind (write_all bs) f st = io_bind (write_all bs') f st'"
  shows "io_bind (io_map_err c (io_bind (write_all bs) f)) g st = io_bind (io_map_err c (io_bind (write_all bs') f)) g st'"
  using assms by (simp add: io_bind_def io_map_err_def)

lemma agent_outcome_step:
  assumes "agent_step Jr a a'" and "agent_ok a"
  shows "agent_outcome Jr a' = agent_outcome Jr a"
  using assms(1)
proof (cases rule: agent_step.cases)
  case (a_writes xs ys rest)
  have "whole_answer a' = takes xs (whole_answer a)"
    using a_writes by (simp add: whole_answer_def takes_def)
  with a_writes show ?thesis
    by (simp add: agent_outcome_def) (rule send_part [symmetric], simp add: write_all_part)
next
  case (a_written rest)
  then show ?thesis
    by (simp add: agent_outcome_def agent_rest_after_write io_bind_def io_map_err_def
        write_all_Nil [unfolded io_bind_def])
next
  case (a_write_error bs rest)
  then show ?thesis
    by (simp add: agent_outcome_def write_all_full io_bind_def [of "io_map_err c m" for c m] io_map_err_def io_lift_def)
next
  case a_flushes
  then show ?thesis
    by (simp add: agent_outcome_def agent_rest_after_flush del: agent_rest.simps)
next
  case (a_reads g n buf xs ys)
  have input: "s_in (whole_answer a) = xs @ ys @ at_pending a" using a_reads by simp
  from read_exact_part [OF _ input, of "n - length buf" "\<lambda>xs. agent_follow Jr g (buf @ xs)"] a_reads
  show ?thesis by (simp add: agent_outcome_def io_map_err_def diff_diff_left)
next
  case (a_filled g n buf)
  then show ?thesis by (simp add: agent_outcome_def agent_rest_after_read io_map_err_def read_exact_none)
next
  case (a_early_eof g n buf)
  with assms(2) have "s_in (whole_answer a) = []" by (simp add: agent_ok_def)
  with a_early_eof show ?thesis by (simp add: agent_outcome_def io_map_err_def read_exact_eof io_lift_def)
qed

lemma agent_outcome_answer: "answer_step a a' \<Longrightarrow> agent_outcome Jr a' = agent_outcome Jr a"
  by (auto elim!: answer_step.cases simp: agent_outcome_def whole_answer_def)

lemma agent_outcome_begin: "agent_outcome Jr (agent_begin Jq req st) = exchange Jq Jr req st"
proof -
  have whole: "whole_answer (agent_begin Jq req st) = st" by (cases st) (simp add: whole_answer_def agent_begin_def)
  show ?thesis
  proof (cases "to_vec Jq req")
    case (Ok payload)
    have pc: "at_pc (agent_begin Jq req st) = ASend (u32_to_be_bytes (of_nat (length payload))) [payload]"
      using Ok by (simp add: agent_begin_def agent_start_def Let_def)
    show ?thesis
      unfolding agent_outcome_def whole pc
      by (simp add: exchange_def io_bind_def [of "io_map_err c m" for c m] io_map_err_def send_json_frame [OF Ok]
          del: write_queue.simps)
  qed (simp_all add: agent_outcome_def whole exchange_def send_json_def agent_begin_def agent_start_def
      io_map_err_def io_bind_def io_lift_def)
qed

lemma agent_reach_outcome:
  assumes "agent_reach Jq Jr req st a"
  shows "agent_outcome Jr a = exchange Jq Jr req st"
  using assms
proof induction
  case (agent_goes_on a a')
  then show ?case
    using agent_outcome_step [OF _ agent_reach_ok] agent_outcome_answer by metis
qed (rule agent_outcome_begin)

section \<open>The end of an exchange\<close>

definition answer_left :: "agent_task \<Rightarrow> nat" where
  "answer_left a = length (at_pending a) + (if at_closed a then 0 else 1)"

definition agent_progress :: "(agent_task \<times> agent_task) set" where
  "agent_progress = inv_image (less_than <*lex*> agent_order) (\<lambda>a. (answer_left a, a))"

lemma agent_step_peer: "agent_step Jr a a' \<Longrightarrow> at_pending a' = at_pending a \<and> at_closed a' = at_closed a"
  by (auto elim!: agent_step.cases)

lemma agent_progresses: "agent_step Jr a a' \<or> answer_step a a' \<Longrightarrow> (a', a) \<in> agent_progress"
proof (elim disjE)
  assume step: "agent_step Jr a a'"
  from agent_step_peer [OF step] agent_step_decreases [OF step] show ?thesis
    by (simp add: agent_progress_def answer_left_def)
next
  assume "answer_step a a'"
  then show ?thesis by (auto elim!: answer_step.cases simp: agent_progress_def answer_left_def)
qed

lemma wf_agent_progress: "wf agent_progress"
  unfolding agent_progress_def agent_order_def
  by (intro wf_inv_image wf_lex_prod wf_less_than wf_measures)

lemma agent_moves_or_waits:
  assumes "agent_ok a" and "\<not> (\<exists>r. at_pc a = AEnd r)"
  shows "\<exists>a'. agent_step Jr a a' \<or> answer_step a a'"
proof (cases "agent_waiting a")
  case True
  then have "\<not> at_closed a" by (simp add: agent_waiting_def split: apc.splits)
  then show ?thesis
    using answer_arrives [of a "at_pending a" "[]"] answer_ends [of a] by (cases "at_pending a = []") auto
next
  case False
  from assms(1) have "length buf \<le> n" if "at_pc a = ARecv g n buf" for g n buf
    using that by (simp add: agent_ok_def)
  with agent_can_step [OF _ assms(2) False] show ?thesis by blast
qed

lemma agent_finishes:
  assumes "agent_reach Jq Jr req st a"
  shows "\<exists>a' r. agent_reach Jq Jr req st a' \<and> at_pc a' = AEnd r"
  using assms
proof (induction a rule: wf_induct_rule [OF wf_agent_progress])
  case (1 a)
  show ?case
  proof (cases "\<exists>r. at_pc a = AEnd r")
    case False
    from agent_moves_or_waits [OF agent_reach_ok [OF 1(2)] False]
    obtain a' where step: "agent_step Jr a a' \<or> answer_step a a'" by blast
    from 1(1) [OF agent_progresses [OF step] agent_goes_on [OF 1(2) step]] show ?thesis .
  qed (use 1(2) in blast)
qed

section \<open>Properties\<close>

text \<open>C11: the agent's side of a connection does what \<^const>\<open>exchange\<close> says, whatever the server sends, in
  whatever pieces and whenever it closes, however the agent's own transport fails: a schedule that
  comes to the end has that result and leaves that stream, and no schedule goes on for ever.\<close>

theorem agent_refines_exchange:
  assumes "agent_reach Jq Jr req st a"
  shows "(\<forall>r. at_pc a = AEnd r \<longrightarrow> exchange Jq Jr req st = (r, whole_answer a)) \<and>
    (\<exists>a' r. agent_reach Jq Jr req st a' \<and> at_pc a' = AEnd r) \<and>
    wf {(a', a). agent_step Jr a a' \<or> answer_step a a'}"
proof (intro conjI)
  show "\<forall>r. at_pc a = AEnd r \<longrightarrow> exchange Jq Jr req st = (r, whole_answer a)"
    using agent_reach_outcome [OF assms] by (auto simp: agent_outcome_def io_lift_def)
  show "\<exists>a' r. agent_reach Jq Jr req st a' \<and> at_pc a' = AEnd r" using assms by (rule agent_finishes)
  show "wf {(a', a). agent_step Jr a a' \<or> answer_step a a'}"
    by (rule wf_subset [OF wf_agent_progress]) (use agent_progresses in auto)
qed


theorem agent_refines_exchange_witness:
  "\<exists>a. agent_reach (fixed_serde (Ok sample_cert_request)) (fixed_serde (Ok (RespOk [] []))) sample_cert_request
      empty_stream a \<and>
    at_pc a = AEnd (Err (Context ''receiving CertResponse'' (Msg ''early eof'')))"
proof -
  let ?req = sample_cert_request
  let ?Jq = "fixed_serde (Ok ?req)" and ?Jr = "fixed_serde (Ok (RespOk [] [])) :: CertResponse serde"
  have "to_vec ?Jq ?req = Ok [1]" by (simp add: fixed_serde_def)
  from send_json_healthy [OF empty_stream_simps(1) this] have "fst (exchange ?Jq ?Jr ?req empty_stream) =
      Err (Context ''receiving CertResponse'' (Msg ''early eof''))"
    by (simp add: exchange_def recv_json_def read_exact_def io_bind_def io_map_err_def empty_stream_def)
  moreover obtain a r where a: "agent_reach ?Jq ?Jr ?req empty_stream a" "at_pc a = AEnd r"
    using agent_refines_exchange [OF agent_begins, where Jq = ?Jq and Jr = ?Jr and req = ?req and st = empty_stream]
    by blast
  moreover have "exchange ?Jq ?Jr ?req empty_stream = (r, whole_answer a)"
    using agent_refines_exchange [OF a(1)] a(2) by blast
  ultimately show ?thesis by auto
qed

text \<open>An agent is always in a sound state: it never fills a buffer beyond its size and never makes one
  larger than \<open>MAX_MSG_BYTES\<close>, whatever length the server announces; and it is never stuck: it can go
  on unless it has ended or waits for bytes of a message that the server has not finished.\<close>

theorem agent_sound:
  assumes "agent_reach Jq Jr req st a"
  shows "(case at_pc a of ARecv g n buf \<Rightarrow> length buf \<le> n \<and> n \<le> MAX_MSG_BYTES | _ \<Rightarrow> True) \<and>
    ((\<exists>a'. agent_step Jr a a') \<longleftrightarrow> \<not> (\<exists>r. at_pc a = AEnd r) \<and> \<not> agent_waiting a)"
proof
  note ok = agent_reach_ok [OF assms]
  have "goal_limit g \<le> MAX_MSG_BYTES" for g by (cases g) (simp_all add: MAX_MSG_BYTES_def)
  with ok show "case at_pc a of ARecv g n buf \<Rightarrow> length buf \<le> n \<and> n \<le> MAX_MSG_BYTES | _ \<Rightarrow> True"
    by (auto simp: agent_ok_def intro: le_trans split: apc.split)
  from ok have "length buf \<le> n" if "at_pc a = ARecv g n buf" for g n buf
    using that by (simp add: agent_ok_def)
  moreover have "\<not> agent_step Jr a a'" if "agent_waiting a" for a'
    using that by (auto elim!: agent_step.cases simp: agent_waiting_def)
  moreover have "\<not> agent_step Jr a a'" if "at_pc a = AEnd r" for a' r
    using that by (auto elim!: agent_step.cases)
  ultimately show "(\<exists>a'. agent_step Jr a a') \<longleftrightarrow> \<not> (\<exists>r. at_pc a = AEnd r) \<and> \<not> agent_waiting a"
    using agent_can_step by blast
qed

theorem agent_sound_witness:
  "\<exists>a'. agent_step (fixed_serde (Ok (RespOk [] [])))
    (agent_begin (fixed_serde (Ok sample_cert_request)) sample_cert_request empty_stream) a'"
  using agent_sound [OF agent_begins, where Jq = "fixed_serde (Ok sample_cert_request)"
      and Jr = "fixed_serde (Ok (RespOk [] []))"
      and req = sample_cert_request and st = empty_stream]
  by (simp add: agent_begin_def agent_start_def fixed_serde_def agent_waiting_def Let_def)

end
