(* ===== verification/Session.thy ===== *)
theory Session
  imports Secrecy Agent_Task
begin

text \<open>
  One agent and the task that serves it, joined by two byte channels. Both are state machines at the
  grain of their await points. Bytes that one side has written travel for any time and arrive in
  pieces of any size; a side that ends drops its stream, and the other sees the end of its input once
  everything has arrived.
\<close>

section \<open>The session\<close>

text \<open>\<open>sn_to_server\<close> and \<open>sn_to_agent\<close> are the bytes that were written and have not arrived.\<close>

record session =
  sn_agent :: agent_task
  sn_task :: task
  sn_to_server :: bytes
  sn_to_agent :: bytes

definition session_start :: "CertRequest serde \<Rightarrow> CertRequest \<Rightarrow> stream \<Rightarrow> stream \<Rightarrow> session" where
  "session_start Jq req ast sst = \<lparr>
     sn_agent = \<lparr>at_pc = agent_start Jq req, at_stream = ast\<lparr>s_in := []\<rparr>, at_pending = [], at_closed = False\<rparr>,
     sn_task = start_task (sst\<lparr>s_in := []\<rparr>), sn_to_server = [], sn_to_agent = []\<rparr>"

inductive session_step ::
  "('k, 'kp, 'cert, 'csr) task_env \<Rightarrow> CertResponse serde \<Rightarrow> session \<Rightarrow> session \<Rightarrow> bool" for T Jr where
  agent_moves: "agent_step Jr (sn_agent s) a \<Longrightarrow>
    s_out (at_stream a) = s_out (at_stream (sn_agent s)) @ xs \<Longrightarrow>
    session_step T Jr s (s\<lparr>sn_agent := a, sn_to_server := sn_to_server s @ xs\<rparr>)"
| server_moves: "task_step T (sn_task s) t \<Longrightarrow>
    s_out (tk_stream t) = s_out (tk_stream (sn_task s)) @ xs \<Longrightarrow>
    session_step T Jr s (s\<lparr>sn_task := t, sn_to_agent := sn_to_agent s @ xs\<rparr>)"
| to_server: "sn_to_server s = xs @ ys \<Longrightarrow> xs \<noteq> [] \<Longrightarrow>
    session_step T Jr s (s\<lparr>sn_to_server := ys, sn_task := (sn_task s)\<lparr>tk_stream :=
      (tk_stream (sn_task s))\<lparr>s_in := s_in (tk_stream (sn_task s)) @ xs\<rparr>\<rparr>\<rparr>)"
| to_agent: "sn_to_agent s = xs @ ys \<Longrightarrow> xs \<noteq> [] \<Longrightarrow>
    session_step T Jr s (s\<lparr>sn_to_agent := ys, sn_agent := (sn_agent s)\<lparr>at_stream :=
      (at_stream (sn_agent s))\<lparr>s_in := s_in (at_stream (sn_agent s)) @ xs\<rparr>\<rparr>\<rparr>)"
| agent_gone: "at_pc (sn_agent s) = AEnd r \<Longrightarrow> sn_to_server s = [] \<Longrightarrow> \<not> tk_closed (sn_task s) \<Longrightarrow>
    session_step T Jr s (s\<lparr>sn_task := (sn_task s)\<lparr>tk_closed := True\<rparr>\<rparr>)"
| server_gone: "tk_pc (sn_task s) = Done r \<Longrightarrow> sn_to_agent s = [] \<Longrightarrow> \<not> at_closed (sn_agent s) \<Longrightarrow>
    session_step T Jr s (s\<lparr>sn_agent := (sn_agent s)\<lparr>at_closed := True\<rparr>\<rparr>)"

inductive session_reach ::
  "('k, 'kp, 'cert, 'csr) task_env \<Rightarrow> CertResponse serde \<Rightarrow> session \<Rightarrow> session \<Rightarrow> bool" for T Jr s0 where
  session_begins: "session_reach T Jr s0 s0"
| session_goes_on: "session_reach T Jr s0 s \<Longrightarrow> session_step T Jr s s' \<Longrightarrow> session_reach T Jr s0 s'"

section \<open>Termination\<close>

definition task_order :: "(task \<times> task) set" where
  "task_order = measures [rank \<circ> tk_pc, buffers_left \<circ> tk_pc, bytes_left \<circ> tk_pc]"

definition in_flight :: "session \<Rightarrow> nat" where
  "in_flight s = length (sn_to_server s) + length (sn_to_agent s)"

definition still_open :: "session \<Rightarrow> nat" where
  "still_open s = (if tk_closed (sn_task s) then 0 else 1) + (if at_closed (sn_agent s) then 0 else 1)"

definition session_order :: "(session \<times> session) set" where
  "session_order = measures [arank \<circ> at_pc \<circ> sn_agent, abuffers_left \<circ> at_pc \<circ> sn_agent,
     abytes_left \<circ> at_pc \<circ> sn_agent, rank \<circ> tk_pc \<circ> sn_task, buffers_left \<circ> tk_pc \<circ> sn_task,
     bytes_left \<circ> tk_pc \<circ> sn_task, in_flight, still_open]"

lemma task_step_peer: "task_step T t t' \<Longrightarrow> tk_pending t' = tk_pending t \<and> tk_closed t' = tk_closed t"
  by (auto elim!: task_step.cases)

lemma task_step_order: "task_step T t t' \<Longrightarrow> (t', t) \<in> task_order"
  using task_step_decreases [of T t t'] task_step_peer [of T t t']
  by (simp add: progress_order_def task_order_def peer_left_def)

lemma session_step_decreases:
  assumes "session_step T Jr s s'"
  shows "(s', s) \<in> session_order"
  using assms
proof (cases rule: session_step.cases)
  case (agent_moves a xs)
  with agent_step_decreases [OF this(2)] show ?thesis by (auto simp: session_order_def agent_order_def)
next
  case (server_moves t xs)
  with task_step_order [OF this(2)] show ?thesis by (auto simp: session_order_def task_order_def)
qed (auto simp: session_order_def in_flight_def still_open_def)

lemma wf_session_order: "wf session_order"
  by (simp add: session_order_def)


section \<open>What the two sides rely on\<close>

text \<open>
  Both transports take everything, the two JSON libraries agree on the request and on the response
  that answers it, and both messages are within the limit of the frame format.
\<close>

definition session_ready ::
  "('k, 'kp, 'cert, 'csr) task_env \<Rightarrow> CertRequest serde \<Rightarrow> CertResponse serde \<Rightarrow> stream \<Rightarrow> stream \<Rightarrow>
     CertRequest \<Rightarrow> bytes \<Rightarrow> CertResponse \<Rightarrow> bytes \<Rightarrow> bool" where
  "session_ready T Jq Jr ast sst req q resp r \<longleftrightarrow>
     healthy ast \<and> healthy sst \<and> length q \<le> MAX_MSG_BYTES \<and> length r \<le> MAX_MSG_BYTES \<and>
     to_vec Jq req = Ok q \<and> from_slice (se_request_json (te_server T)) q = Ok req \<and>
     to_vec (se_response_json (te_server T)) resp = Ok r \<and> from_slice Jr r = Ok resp \<and>
     answer (te_server T) (te_call T) (te_peer_cid T) (te_config T) (te_ca T) req = Some resp"

text \<open>The connection as the server's task sees it: what the agent will still write is pending.\<close>

primrec unwritten :: "apc \<Rightarrow> bytes" where
  "unwritten (ASend bs rest) = bs @ concat rest"
| "unwritten AFlush = []"
| "unwritten (ARecv g n buf) = []"
| "unwritten (AEnd r) = []"

definition server_view :: "session \<Rightarrow> task" where
  "server_view s = (sn_task s)\<lparr>tk_pending := sn_to_server s @ unwritten (at_pc (sn_agent s))\<rparr>"

lemma server_view_simps [simp]:
  "tk_pc (server_view s) = tk_pc (sn_task s)" "tk_stream (server_view s) = tk_stream (sn_task s)"
  "tk_closed (server_view s) = tk_closed (sn_task s)"
  "tk_pending (server_view s) = sn_to_server s @ unwritten (at_pc (sn_agent s))"
  by (simp_all add: server_view_def)

text \<open>The agent's half: \<open>written\<close> is what the server has written, and where it is now.\<close>

definition agent_reads_frame :: "bytes \<Rightarrow> session \<Rightarrow> bool" where
  "agent_reads_frame written s \<longleftrightarrow>
     (let coming = s_in (at_stream (sn_agent s)) @ sn_to_agent s in
      case at_pc (sn_agent s) of
        ARecv Header n buf \<Rightarrow> n = 4 \<and> length buf \<le> 4 \<and> written = buf @ coming
      | ARecv Payload n buf \<Rightarrow> (\<exists>hdr. length hdr = 4 \<and> n = unat (u32_from_be_bytes hdr) \<and> length buf \<le> n \<and>
          written = hdr @ buf @ coming)
      | AEnd r \<Rightarrow> True
      | _ \<Rightarrow> written = coming)"

section \<open>Steps of one side\<close>

lemma task_step_pending: "task_step T t t' \<Longrightarrow> task_step T (t\<lparr>tk_pending := p\<rparr>) (t'\<lparr>tk_pending := p\<rparr>)"
proof (induction rule: task_step.induct)
  case (reads t g n buf xs ys)
  then show ?case using task_step.reads [of "t\<lparr>tk_pending := p\<rparr>" g n buf xs ys T] by (cases t) simp
next
  case (filled t g n buf)
  then show ?case using task_step.filled [of "t\<lparr>tk_pending := p\<rparr>" g n buf T] by (cases t) simp
next
  case (early_eof t g n buf)
  then show ?case using task_step.early_eof [of "t\<lparr>tk_pending := p\<rparr>" g n buf T] by (cases t) simp
next
  case (writes t best xs ys rest)
  then show ?case using task_step.writes [of "t\<lparr>tk_pending := p\<rparr>" best xs ys rest T] by (cases t) simp
next
  case (written t best rest)
  then show ?case using task_step.written [of "t\<lparr>tk_pending := p\<rparr>" best rest T] by (cases t) simp
next
  case (write_error t best bs rest)
  then show ?case using task_step.write_error [of "t\<lparr>tk_pending := p\<rparr>" best bs rest T] by (cases t) simp
next
  case (flushes t best)
  then show ?case using task_step.flushes [of "t\<lparr>tk_pending := p\<rparr>" best T] by (cases t) simp
qed

lemma task_step_output: "task_step T t t' \<Longrightarrow> \<exists>xs. s_out (tk_stream t') = s_out (tk_stream t) @ xs"
  by (auto elim!: task_step.cases simp: takes_def)

lemma conn_step_output: "conn_step T t t' \<Longrightarrow> \<exists>xs. s_out (tk_stream t') = s_out (tk_stream t) @ xs"
  unfolding conn_step_def using task_step_output by (fastforce elim: peer_step.cases)

lemma conn_steps_output:
  "(conn_step T)\<^sup>*\<^sup>* t t' \<Longrightarrow> \<exists>xs. s_out (tk_stream t') = s_out (tk_stream t) @ xs"
  by (induction rule: rtranclp_induct) (auto dest!: conn_step_output)

lemma unwritten_codes [simp]:
  "unwritten (agent_after_write rest) = concat rest"
  by (cases rest) simp_all

lemma agent_step_written:
  assumes "agent_step Jr a a'" and "healthy (at_stream a)" and "s_out (at_stream a') = s_out (at_stream a) @ xs"
  shows "xs @ unwritten (at_pc a') = unwritten (at_pc a) \<and> healthy (at_stream a')"
  using assms(1)
proof (cases rule: agent_step.cases)
  case (a_filled g n buf)
  then show ?thesis using assms by (cases g) (auto simp: Let_def)
qed (use assms in \<open>auto simp: takes_def healthy_def agent_after_flush_def split: option.split\<close>)

text \<open>A step of the session is a step of the connection as the server sees it, or is not seen there.\<close>

lemma session_step_view:
  assumes "session_step T Jr s s'" and "healthy (at_stream (sn_agent s))"
  shows "(server_view s' = server_view s \<or> conn_step T (server_view s) (server_view s')) \<and>
    healthy (at_stream (sn_agent s'))"
  using assms(1)
proof (cases rule: session_step.cases)
  case (agent_moves a xs)
  from agent_step_written [OF this(2) assms(2) this(3)] this(1) show ?thesis by (simp add: server_view_def)
next
  case (server_moves t xs)
  then have "task_step T (server_view s) (server_view s')"
    using task_step_pending [OF server_moves(2)] by (simp add: server_view_def)
  then show ?thesis using assms(2) server_moves(1) by (simp add: conn_step_def)
next
  case (to_server xs ys)
  then have "peer_step (server_view s) (server_view s')"
    using arrives [of "server_view s" xs "ys @ unwritten (at_pc (sn_agent s))"]
    by (cases "sn_task s") (simp add: server_view_def)
  then show ?thesis using assms(2) to_server(1) by (simp add: conn_step_def)
next
  case (to_agent xs ys)
  with assms(2) show ?thesis by (simp add: server_view_def)
next
  case (agent_gone res)
  then have "peer_step (server_view s) (server_view s')"
    using closes [of "server_view s"] by (cases "sn_task s") (simp add: server_view_def)
  then show ?thesis using assms(2) agent_gone(1) by (simp add: conn_step_def)
next
  case (server_gone res)
  with assms(2) show ?thesis by (simp add: server_view_def)
qed

lemma session_view_reach:
  "session_step T Jr s s' \<Longrightarrow> healthy (at_stream (sn_agent s)) \<Longrightarrow> conn_reach T st (server_view s) \<Longrightarrow>
     conn_reach T st (server_view s')"
  using session_step_view [of T Jr s s'] by (auto intro: goes_on)

section \<open>The invariant\<close>

definition session_inv ::
  "('k, 'kp, 'cert, 'csr) task_env \<Rightarrow> stream \<Rightarrow> bytes \<Rightarrow> CertResponse \<Rightarrow> bytes \<Rightarrow> session \<Rightarrow> bool" where
  "session_inv T sst q resp r s \<longleftrightarrow>
     conn_reach T (sst\<lparr>s_in := lp_frame put_frame_len q\<rparr>) (server_view s) \<and>
     healthy (at_stream (sn_agent s)) \<and>
     (\<exists>written. s_out (tk_stream (sn_task s)) = s_out sst @ written \<and> agent_reads_frame written s) \<and>
     (at_closed (sn_agent s) \<longrightarrow> finished (sn_task s) \<and> sn_to_agent s = []) \<and>
     (\<forall>res. at_pc (sn_agent s) = AEnd res \<longrightarrow> res = Ok resp)"

lemma ready_handled:
  assumes "session_ready T Jq Jr ast sst req q resp r"
  shows "handle_connection (te_server T) (te_call T) (te_peer_cid T) (te_config T) (te_ca T)
      (sst\<lparr>s_in := lp_frame put_frame_len q\<rparr>) =
    (Ok (), sst\<lparr>s_in := [], s_out := s_out sst @ lp_frame put_frame_len r\<rparr>)"
proof -
  let ?st = "sst\<lparr>s_in := lp_frame put_frame_len q\<rparr>"
  note ready = assms [unfolded session_ready_def]
  have "recv_json (se_request_json (te_server T)) ?st = (Ok req, ?st\<lparr>s_in := []\<rparr>)"
    using recv_json_frame [of ?st q "[]" "se_request_json (te_server T)"] ready by simp
  from handle_connection_answers [OF this] ready show ?thesis by simp
qed

text \<open>What the server has written at any moment is the beginning of the answer's frame; all of it at the end.\<close>

lemma view_output:
  assumes "session_ready T Jq Jr ast sst req q resp r"
    and "conn_reach T (sst\<lparr>s_in := lp_frame put_frame_len q\<rparr>) t"
    and "s_out (tk_stream t) = s_out sst @ written"
  shows "\<exists>more. lp_frame put_frame_len r = written @ more" and "finished t \<Longrightarrow> written = lp_frame put_frame_len r"
    and "tk_pc t = Done res \<Longrightarrow> res = Ok ()"
proof -
  have final: "outcome T t' = (Ok (), sst\<lparr>s_in := [], s_out := s_out sst @ lp_frame put_frame_len r\<rparr>)"
    if "conn_reach T (sst\<lparr>s_in := lp_frame put_frame_len q\<rparr>) t'" for t'
    using conn_reach_outcome [OF that] ready_handled [OF assms(1)] by simp
  have ended: "r' = Ok () \<and> s_out (tk_stream t') = s_out sst @ lp_frame put_frame_len r"
    if "conn_reach T (sst\<lparr>s_in := lp_frame put_frame_len q\<rparr>) t'" "tk_pc t' = Done r'" for t' r'
  proof -
    from final [OF that(1)] that(2) have "(r', whole_stream t') =
        (Ok (), sst\<lparr>s_in := [], s_out := s_out sst @ lp_frame put_frame_len r\<rparr>)"
      by (simp add: outcome_def)
    then have "r' = Ok ()" "s_out (whole_stream t') = s_out sst @ lp_frame put_frame_len r" by auto
    then show ?thesis by simp
  qed
  show "finished t \<Longrightarrow> written = lp_frame put_frame_len r"
    using ended [OF assms(2)] assms(3) by (auto simp: finished_iff)
  show "tk_pc t = Done res \<Longrightarrow> res = Ok ()" using ended [OF assms(2)] by blast
  obtain t' r' where t': "(conn_step T)\<^sup>*\<^sup>* t t'" "tk_pc t' = Done r'"
    using conn_reach_finishes [OF assms(2)] by blast
  with conn_steps_output [OF t'(1)] ended [OF conn_reach_steps [OF t'(1) assms(2)] t'(2)] assms(3)
  show "\<exists>more. lp_frame put_frame_len r = written @ more" by auto
qed


text \<open>Any four bytes at the start of a frame are its header.\<close>

lemma frame_header:
  assumes "lp_frame put_frame_len r = hdr @ later" and "length hdr = 4" and "length r \<le> MAX_MSG_BYTES"
  shows "unat (u32_from_be_bytes hdr) = length r \<and> later = r"
proof -
  have "hdr = u32_to_be_bytes (of_nat (length r)) \<and> later = r"
    using assms(1,2) by (auto simp: lp_frame_def put_frame_len_def append_eq_append_conv)
  then show ?thesis using assms(3) by simp
qed

lemma agent_reads_frame_step:
  assumes "agent_step Jr (sn_agent s) a" and "s_out (at_stream a) = s_out (at_stream (sn_agent s)) @ xs"
    and "agent_reads_frame written s" and "healthy (at_stream (sn_agent s))"
    and "lp_frame put_frame_len r = written @ later" and "length r \<le> MAX_MSG_BYTES"
  shows "agent_reads_frame written (s\<lparr>sn_agent := a, sn_to_server := sn_to_server s @ xs\<rparr>)"
  using assms(1)
proof (cases rule: agent_step.cases)
  case (a_written rest)
  with assms(3) show ?thesis by (cases rest) (simp_all add: agent_reads_frame_def Let_def)
next
  case a_flushes
  with assms(3,4) show ?thesis by (simp add: agent_reads_frame_def agent_after_flush_def healthy_def Let_def)
next
  case (a_reads g n buf ys zs)
  with assms(3) show ?thesis by (cases g) (auto simp: agent_reads_frame_def Let_def)
next
  case (a_filled g n buf)
  show ?thesis
  proof (cases g)
    case Header
    with a_filled assms(3) have buf: "length buf = 4"
        "written = buf @ s_in (at_stream (sn_agent s)) @ sn_to_agent s"
      by (simp_all add: agent_reads_frame_def Let_def)
    with assms(5) have "lp_frame put_frame_len r = buf @ s_in (at_stream (sn_agent s)) @ sn_to_agent s @ later"
      by simp
    from frame_header [OF this buf(1) assms(6)] assms(6) have "\<not> unat (u32_from_be_bytes buf) > MAX_MSG_BYTES"
      by simp
    with a_filled Header buf show ?thesis by (auto simp: agent_reads_frame_def Let_def)
  qed (use a_filled in \<open>simp add: agent_reads_frame_def Let_def\<close>)
qed (use assms(3) in \<open>simp_all add: agent_reads_frame_def takes_def Let_def\<close>)

text \<open>The buffer of a reading agent is a part of the answer's frame.\<close>

lemma agent_reads_answer:
  assumes "agent_reads_frame written s" and "lp_frame put_frame_len r = written @ later"
    and "length r \<le> MAX_MSG_BYTES"
  shows "at_pc (sn_agent s) = ARecv Header n buf \<Longrightarrow>
      n = 4 \<and> lp_frame put_frame_len r = buf @ s_in (at_stream (sn_agent s)) @ sn_to_agent s @ later"
    and "at_pc (sn_agent s) = ARecv Payload n buf \<Longrightarrow>
      n = length r \<and> r = buf @ s_in (at_stream (sn_agent s)) @ sn_to_agent s @ later"
proof -
  let ?coming = "s_in (at_stream (sn_agent s)) @ sn_to_agent s"
  show "n = 4 \<and> lp_frame put_frame_len r = buf @ s_in (at_stream (sn_agent s)) @ sn_to_agent s @ later"
    if "at_pc (sn_agent s) = ARecv Header n buf"
    using assms(1,2) that by (simp add: agent_reads_frame_def Let_def)
  assume "at_pc (sn_agent s) = ARecv Payload n buf"
  with assms(1,2) obtain hdr where hdr: "length hdr = 4" "n = unat (u32_from_be_bytes hdr)"
      "lp_frame put_frame_len r = hdr @ buf @ ?coming @ later"
    by (auto simp: agent_reads_frame_def Let_def)
  from frame_header [OF hdr(3,1) assms(3)] hdr(2)
  show "n = length r \<and> r = buf @ s_in (at_stream (sn_agent s)) @ sn_to_agent s @ later" by simp
qed

text \<open>An agent that ends has decoded the whole answer.\<close>

lemma agent_ends_well:
  assumes "agent_step Jr (sn_agent s) a" and "at_pc a = AEnd res" and "healthy (at_stream (sn_agent s))"
    and "agent_reads_frame written s" and "lp_frame put_frame_len r = written @ later"
    and "at_closed (sn_agent s) \<Longrightarrow> sn_to_agent s = [] \<and> later = []"
    and "length r \<le> MAX_MSG_BYTES" and "from_slice Jr r = Ok resp"
  shows "res = Ok resp"
  using assms(1)
proof (cases rule: agent_step.cases)
  case (a_written rest)
  with assms(2) show ?thesis by (cases rest) simp_all
next
  case (a_write_error bs rest)
  with assms(3) show ?thesis by (simp add: healthy_def)
next
  case a_flushes
  with assms(2,3) show ?thesis by (simp add: healthy_def agent_after_flush_def)
next
  case (a_filled g n buf)
  show ?thesis
  proof (cases g)
    case Header
    from agent_reads_answer(1) [OF assms(4,5,7) a_filled(2) [unfolded Header]] a_filled(3) have "length buf = 4"
        "lp_frame put_frame_len r = buf @ s_in (at_stream (sn_agent s)) @ sn_to_agent s @ later" by blast+
    from frame_header [OF this(2,1) assms(7)] a_filled(1) Header assms(2,7) show ?thesis by (simp add: Let_def)
  next
    case Payload
    from agent_reads_answer(2) [OF assms(4,5,7) a_filled(2) [unfolded Payload]] a_filled(3) have "buf = r"
      by (metis append_Nil2 append_eq_append_conv)
    with a_filled(1) Payload assms(2,8) show ?thesis by simp
  qed
next
  case (a_early_eof g n buf)
  with assms(6) have empty: "s_in (at_stream (sn_agent s)) = []" "sn_to_agent s = []" "later = []" by simp_all
  show ?thesis
  proof (cases g)
    case Header
    from agent_reads_answer(1) [OF assms(4,5,7) a_early_eof(2) [unfolded Header]] empty
    have "length (lp_frame put_frame_len r) = length buf" "n = 4" by simp_all
    with a_early_eof(3) show ?thesis by (simp add: lp_frame_def put_frame_len_def)
  next
    case Payload
    from agent_reads_answer(2) [OF assms(4,5,7) a_early_eof(2) [unfolded Payload]] empty
    have "n = length buf" by simp
    with a_early_eof(3) show ?thesis by simp
  qed
qed (use assms(2) in simp_all)

lemma session_start_inv:
  assumes "session_ready T Jq Jr ast sst req q resp r"
  shows "session_inv T sst q resp r (session_start Jq req ast sst)"
proof -
  let ?s = "session_start Jq req ast sst"
  have "to_vec Jq req = Ok q" using assms by (simp add: session_ready_def)
  then have pc: "at_pc (sn_agent ?s) = ASend (u32_to_be_bytes (of_nat (length q))) [q]"
    by (simp add: session_start_def agent_start_def Let_def)
  then have "server_view ?s = start_task (sst\<lparr>s_in := lp_frame put_frame_len q\<rparr>)"
    by (simp add: server_view_def start_task_def session_start_def lp_frame_def put_frame_len_def)
  with pc show ?thesis
    using assms conn_reach.begins [of T "sst\<lparr>s_in := lp_frame put_frame_len q\<rparr>"]
    by (simp add: session_inv_def session_ready_def agent_reads_frame_def Let_def)
      (simp add: session_start_def start_task_def)
qed

lemma session_step_inv:
  assumes "session_step T Jr s s'" and "session_inv T sst q resp r s"
    and "session_ready T Jq Jr ast sst req q resp r"
  shows "session_inv T sst q resp r s'"
proof -
  let ?st = "sst\<lparr>s_in := lp_frame put_frame_len q\<rparr>"
  from assms(2) obtain written where inv: "conn_reach T ?st (server_view s)" "healthy (at_stream (sn_agent s))"
      "s_out (tk_stream (sn_task s)) = s_out sst @ written" "agent_reads_frame written s"
      "at_closed (sn_agent s) \<Longrightarrow> finished (sn_task s) \<and> sn_to_agent s = []"
      "\<And>res. at_pc (sn_agent s) = AEnd res \<Longrightarrow> res = Ok resp"
    by (auto simp: session_inv_def)
  have fin: "finished (server_view s) = finished (sn_task s)" by (simp add: finished_iff)
  note out = view_output [OF assms(3) inv(1), of written, unfolded server_view_simps fin, OF inv(3)]
  from out(1) obtain later where later: "lp_frame put_frame_len r = written @ later" ..
  note limits = assms(3) [unfolded session_ready_def]
  note view = session_view_reach [OF assms(1) inv(2,1)] conjunct2 [OF session_step_view [OF assms(1) inv(2)]]
  show ?thesis
    using assms(1)
  proof (cases rule: session_step.cases)
    case (agent_moves a xs)
    have "at_closed (sn_agent s) \<Longrightarrow> sn_to_agent s = [] \<and> later = []" using inv(5) out(2) later by auto
    then have ends: "at_pc a = AEnd res \<Longrightarrow> res = Ok resp" for res
      using agent_ends_well [OF agent_moves(2) _ inv(2,4) later] limits by blast
    have "agent_reads_frame written s'"
      using agent_reads_frame_step [OF agent_moves(2,3) inv(4,2) later] limits agent_moves(1) by simp
    moreover have "at_closed a = at_closed (sn_agent s)"
      using agent_moves(2) by (auto elim!: agent_step.cases)
    ultimately show ?thesis using inv view ends agent_moves(1) by (auto simp: session_inv_def)
  next
    case (server_moves t xs)
    have "\<not> finished (sn_task s)" using server_moves(2) no_step_done by (auto simp: finished_iff)
    then have "\<not> at_closed (sn_agent s)" using inv(5) by blast
    moreover have "agent_reads_frame (written @ xs) s'"
      using inv(4) server_moves(1)
      by (auto simp: agent_reads_frame_def Let_def split: apc.splits goal.splits)
    ultimately show ?thesis using inv view server_moves by (auto simp: session_inv_def)
  next
    case (to_server xs ys)
    with inv view show ?thesis
      by (auto simp: session_inv_def agent_reads_frame_def finished_iff)
  next
    case (to_agent xs ys)
    then have "agent_reads_frame written s'" using inv(4) by (simp add: agent_reads_frame_def)
    with inv view to_agent show ?thesis by (auto simp: session_inv_def)
  next
    case (agent_gone res)
    with inv view show ?thesis by (auto simp: session_inv_def agent_reads_frame_def finished_iff)
  next
    case (server_gone res)
    with inv view show ?thesis by (auto simp: session_inv_def agent_reads_frame_def finished_iff)
  qed
qed

lemma session_reach_inv:
  assumes "session_reach T Jr (session_start Jq req ast sst) s"
    and "session_ready T Jq Jr ast sst req q resp r"
  shows "session_inv T sst q resp r s"
  using assms(1) by induction (blast intro: session_start_inv session_step_inv assms(2))+


section \<open>Progress\<close>

definition session_over :: "session \<Rightarrow> bool" where
  "session_over s \<longleftrightarrow> (\<exists>res. at_pc (sn_agent s) = AEnd res) \<and> finished (sn_task s)"

text \<open>
  What is true of every session whose agent's transport is healthy, whether or not the two sides
  understand each other.
\<close>

lemma session_reach_sound:
  assumes "session_reach T Jr (session_start Jq req ast sst) s" and "healthy ast"
  shows "conn_reach T (sst\<lparr>s_in := unwritten (agent_start Jq req)\<rparr>) (server_view s) \<and>
    healthy (at_stream (sn_agent s)) \<and> agent_ok (sn_agent s) \<and> at_pending (sn_agent s) = []"
  using assms(1)
proof induction
  case session_begins
  let ?st = "sst\<lparr>s_in := unwritten (agent_start Jq req)\<rparr>"
  have "server_view (session_start Jq req ast sst) = start_task ?st"
    by (simp add: server_view_def session_start_def start_task_def)
  then have "conn_reach T ?st (server_view (session_start Jq req ast sst))" by (simp add: conn_reach.begins)
  moreover have "agent_ok (sn_agent (session_start Jq req ast sst))"
    using agent_ok_begin [of Jq req "ast\<lparr>s_in := []\<rparr>"] by (simp add: session_start_def agent_begin_def)
  ultimately show ?case using assms(2) by (simp add: session_start_def)
next
  case (session_goes_on s s')
  then have view: "conn_reach T (sst\<lparr>s_in := unwritten (agent_start Jq req)\<rparr>) (server_view s')"
      "healthy (at_stream (sn_agent s'))"
    using session_view_reach session_step_view by blast+
  from session_goes_on.hyps(2) have "agent_ok (sn_agent s') \<and> at_pending (sn_agent s') = []"
  proof (cases rule: session_step.cases)
    case (agent_moves a xs)
    with session_goes_on.IH agent_ok_step agent_step_peer show ?thesis by auto
  qed (use session_goes_on.IH in \<open>auto simp: agent_ok_def\<close>)
  with view show ?case by blast
qed

text \<open>
  With all that the agent writes arrived, the server does not wait: the length in the header is
  never more than what follows.
\<close>

lemma full_request_not_waiting:
  assumes "conn_reach T (sst\<lparr>s_in := lp_frame put_frame_len q\<rparr>) t" and "tk_pending t = []"
  shows "\<not> waiting t"
proof
  assume "waiting t"
  then obtain g n buf where pc: "tk_pc t = Read g n buf" "length buf < n" "s_in (tk_stream t) = []"
    by (auto simp: waiting_def split: pc.splits)
  note reads = conn_reach_reads_frame [OF assms(1), unfolded reads_frame_def]
  show False
  proof (cases g)
    case Header
    with reads pc assms(2) have "lp_frame put_frame_len q = buf" "length buf < 4" by simp_all
    then show False by (auto simp: lp_frame_def put_frame_len_def)
  next
    case Payload
    with reads pc assms(2) obtain hdr where hdr: "length hdr = 4" "n = unat (u32_from_be_bytes hdr)"
        "lp_frame put_frame_len q = hdr @ buf" by auto
    then have "hdr = u32_to_be_bytes (of_nat (length q))" "buf = q"
      by (auto simp: lp_frame_def put_frame_len_def append_eq_append_conv)
    moreover have "unat (of_nat (length q) :: u32) \<le> length q"
      by (simp add: unat_of_nat)
    ultimately show False using hdr(2) pc(2) by simp
  qed
qed

lemma ended_at_once:
  "session_reach T Jr (session_start Jq req ast sst) s \<Longrightarrow> agent_start Jq req = AEnd res \<Longrightarrow>
     at_pc (sn_agent s) = AEnd res"
proof (induction rule: session_reach.induct)
  case (session_goes_on s s')
  have "\<not> agent_step Jr (sn_agent s) a" for a
    using session_goes_on by (auto elim!: agent_step.cases)
  with session_goes_on show ?case by (auto elim!: session_step.cases)
qed (simp add: session_start_def)

lemma session_can_step:
  assumes "session_reach T Jr (session_start Jq req ast sst) s" and "healthy ast" and "\<not> session_over s"
  shows "\<exists>s'. session_step T Jr s s'"
proof (rule ccontr)
  assume stuck: "\<not> (\<exists>s'. session_step T Jr s s')"
  note sound = session_reach_sound [OF assms(1,2)]
  have arrived: "sn_to_server s = []" "sn_to_agent s = []"
    using stuck session_step.to_server [of s "sn_to_server s" "[]" T Jr]
      session_step.to_agent [of s "sn_to_agent s" "[]" T Jr] by auto
  have "length buf \<le> n" if "at_pc (sn_agent s) = ARecv g n buf" for g n buf
    using sound that by (simp add: agent_ok_def)
  moreover have "\<not> agent_step Jr (sn_agent s) a" for a
    using stuck agent_step_output [of Jr "sn_agent s" a] by (blast intro: agent_moves)
  ultimately have agent: "(\<exists>res. at_pc (sn_agent s) = AEnd res) \<or> agent_waiting (sn_agent s)"
    using agent_can_step by blast
  then have written: "unwritten (at_pc (sn_agent s)) = []" by (auto simp: agent_waiting_def split: apc.splits)
  have "\<not> waiting (server_view s)"
  proof (cases "\<exists>res. agent_start Jq req = AEnd res")
    case True
    then have "\<exists>res. at_pc (sn_agent s) = AEnd res" using ended_at_once [OF assms(1)] by blast
    with arrived stuck have "tk_closed (sn_task s)" by (blast intro: agent_gone)
    then show ?thesis by (simp add: waiting_def split: pc.split)
  next
    case False
    then obtain q where "unwritten (agent_start Jq req) = lp_frame put_frame_len q"
      by (cases "to_vec Jq req") (auto simp: agent_start_def lp_frame_def put_frame_len_def Let_def)
    with sound have "conn_reach T (sst\<lparr>s_in := lp_frame put_frame_len q\<rparr>) (server_view s)" by simp
    from full_request_not_waiting [OF this] arrived written show ?thesis by simp
  qed
  moreover have "\<not> task_step T (server_view s) t" for t
  proof
    assume "task_step T (server_view s) t"
    from task_step_pending [OF this, of "tk_pending (sn_task s)"]
    have "task_step T (sn_task s) (t\<lparr>tk_pending := tk_pending (sn_task s)\<rparr>)"
      by (simp add: server_view_def)
    from stuck task_step_output [OF this] server_moves [OF this] show False by blast
  qed
  ultimately have "finished (server_view s)"
    using task_can_step [OF conn_reach_ok [OF conjunct1 [OF sound]]] by blast
  then obtain res where server: "tk_pc (sn_task s) = Done res" by (auto simp: finished_iff)
  with arrived stuck have "at_closed (sn_agent s)" by (blast intro: server_gone)
  with agent have "\<exists>res. at_pc (sn_agent s) = AEnd res"
    by (auto simp: agent_waiting_def split: apc.splits)
  with server assms(3) show False by (auto simp: session_over_def finished_iff)
qed

lemma session_finishes:
  assumes "session_reach T Jr (session_start Jq req ast sst) s" and "healthy ast"
  shows "\<exists>s'. (session_step T Jr)\<^sup>*\<^sup>* s s' \<and> session_over s'"
  using assms(1)
proof (induction s rule: wf_induct_rule [OF wf_session_order])
  case (1 s)
  show ?case
  proof (cases "session_over s")
    case False
    with session_can_step [OF 1(2) assms(2)] obtain s' where step: "session_step T Jr s s'" by blast
    from 1(1) [OF session_step_decreases [OF step] session_goes_on [OF 1(2) step]] step show ?thesis
      by (meson converse_rtranclp_into_rtranclp)
  qed auto
qed

lemma session_reach_steps:
  "(session_step T Jr)\<^sup>*\<^sup>* s s' \<Longrightarrow> session_reach T Jr s0 s \<Longrightarrow> session_reach T Jr s0 s'"
  by (induction rule: rtranclp_induct) (auto intro: session_goes_on)

lemma session_comes_to_rest: "\<exists>s. session_reach T Jr s0 s \<and> \<not> (\<exists>s'. session_step T Jr s s')"
proof -
  obtain s where "s \<in> Collect (session_reach T Jr s0)"
    and least: "\<And>s'. (s', s) \<in> session_order \<Longrightarrow> s' \<notin> Collect (session_reach T Jr s0)"
    using wfE_min [OF wf_session_order, of s0 "Collect (session_reach T Jr s0)"] session_begins by blast
  then show ?thesis using session_step_decreases session_goes_on by blast
qed

text \<open>The results of both sides, whenever they have one.\<close>

lemma session_results:
  assumes "session_reach T Jr (session_start Jq req ast sst) s"
    and "session_ready T Jq Jr ast sst req q resp r"
  shows "(\<forall>res. at_pc (sn_agent s) = AEnd res \<longrightarrow> res = Ok resp) \<and>
    (\<forall>res. tk_pc (sn_task s) = Done res \<longrightarrow> res = Ok ())"
proof -
  from session_reach_inv [OF assms] obtain written where
    inv: "conn_reach T (sst\<lparr>s_in := lp_frame put_frame_len q\<rparr>) (server_view s)"
      "s_out (tk_stream (server_view s)) = s_out sst @ written"
      "\<And>res. at_pc (sn_agent s) = AEnd res \<Longrightarrow> res = Ok resp"
    by (auto simp: session_inv_def)
  from view_output(3) [OF assms(2) inv(1,2)] inv(3) show ?thesis by auto
qed

text \<open>The state machine of the agent ends as \<^const>\<open>exchange\<close> does on the whole answer.\<close>

lemma ready_exchanged:
  assumes "session_ready T Jq Jr ast sst req q resp r"
  shows "fst (exchange Jq Jr req (ast\<lparr>s_in := lp_frame put_frame_len r\<rparr>)) = Ok resp"
proof -
  let ?st = "ast\<lparr>s_in := lp_frame put_frame_len r\<rparr>"
  note ready = assms [unfolded session_ready_def]
  have sent: "send_json Jq req ?st = (Ok (), ?st\<lparr>s_out := s_out ast @ lp_frame put_frame_len q\<rparr>)"
    using send_json_healthy [of ?st Jq req q] ready by simp
  have "recv_json Jr (?st\<lparr>s_out := s_out ast @ lp_frame put_frame_len q\<rparr>) =
      (Ok resp, ?st\<lparr>s_out := s_out ast @ lp_frame put_frame_len q, s_in := []\<rparr>)"
    using recv_json_frame [of "?st\<lparr>s_out := s_out ast @ lp_frame put_frame_len q\<rparr>" r "[]" Jr] ready by simp
  with sent show ?thesis by (simp add: exchange_def res_simps)
qed

section \<open>A concrete session for the witnesses\<close>

lemma sample_session_ready:
  "session_ready sample_task_env request_serde response_serde empty_stream empty_stream sample_cert_request
     (as_bytes ''req'') (RespOk ''LEAF'' ''ROOT'') (encode_response (RespOk ''LEAF'' ''ROOT''))"
  using sample_answer sample_serde_laws(1) sample_serde_laws(3) [of "''LEAF''" "''ROOT''"]
  by (simp add: session_ready_def serde_law_def encode_response_def MAX_MSG_BYTES_def)

section \<open>Properties\<close>

text \<open>At every moment of a session, however the bytes of the two sides are cut and delayed: what the server
  has written is a beginning of the frame of its answer; the agent, once it has ended, has the answer,
  which is what \<^const>\<open>exchange\<close> gives on the whole of it, and never an error, and the server, once
  it has ended, has ended well.\<close>

theorem session_delivers:
  assumes "session_reach T Jr (session_start Jq req ast sst) s"
    and "session_ready T Jq Jr ast sst req q resp r"
  shows "(\<exists>sofar later. s_out (tk_stream (sn_task s)) = s_out sst @ sofar \<and> lp_frame put_frame_len r = sofar @ later) \<and>
    (\<forall>res. at_pc (sn_agent s) = AEnd res \<longrightarrow>
       res = Ok resp \<and> res = fst (exchange Jq Jr req (ast\<lparr>s_in := lp_frame put_frame_len r\<rparr>))) \<and>
    (\<forall>res. tk_pc (sn_task s) = Done res \<longrightarrow> res = Ok ())"
proof -
  from session_reach_inv [OF assms] obtain written where
    inv: "conn_reach T (sst\<lparr>s_in := lp_frame put_frame_len q\<rparr>) (server_view s)"
      "s_out (tk_stream (server_view s)) = s_out sst @ written"
      "\<And>res. at_pc (sn_agent s) = AEnd res \<Longrightarrow> res = Ok resp"
    by (auto simp: session_inv_def)
  from view_output [OF assms(2) inv(1,2)] inv ready_exchanged [OF assms(2)] show ?thesis by auto
qed

theorem session_delivers_witness:
  "\<exists>s. session_reach sample_task_env response_serde
      (session_start request_serde sample_cert_request empty_stream empty_stream) s \<and>
    at_pc (sn_agent s) = AEnd (Ok (RespOk ''LEAF'' ''ROOT''))"
proof -
  let ?s0 = "session_start request_serde sample_cert_request empty_stream empty_stream"
  obtain s where s: "session_reach sample_task_env response_serde ?s0 s" "session_over s"
    using session_finishes [OF session_begins empty_stream_simps(1)] session_reach_steps [OF _ session_begins]
    by blast
  then obtain res where "at_pc (sn_agent s) = AEnd res" by (auto simp: session_over_def)
  with session_delivers [OF s(1) sample_session_ready] s(1) show ?thesis by auto
qed

text \<open>A session cannot deadlock and cannot go on for ever: there is no infinite sequence of steps, and when
  no step is possible any more, no byte is under way, the agent has its answer, the server's task has
  ended well and has written the frame of the answer and nothing else.\<close>

theorem session_terminates:
  assumes "session_reach T Jr (session_start Jq req ast sst) s"
    and "session_ready T Jq Jr ast sst req q resp r"
  shows "wf {(s', s). session_step T Jr s s'} \<and>
    ((\<nexists>s'. session_step T Jr s s') \<longrightarrow>
       at_pc (sn_agent s) = AEnd (Ok resp) \<and> tk_pc (sn_task s) = Done (Ok ()) \<and> in_flight s = 0 \<and>
       s_out (tk_stream (sn_task s)) = s_out sst @ lp_frame put_frame_len r)"
proof (intro conjI impI)
  have "{(s', s). session_step T Jr s s'} \<subseteq> session_order" using session_step_decreases by auto
  with wf_session_order show "wf {(s', s). session_step T Jr s s'}" by (rule wf_subset)
next
  assume stuck: "\<nexists>s'. session_step T Jr s s'"
  note inv = session_reach_inv [OF assms]
  from inv obtain written where view: "conn_reach T (sst\<lparr>s_in := lp_frame put_frame_len q\<rparr>) (server_view s)"
      "s_out (tk_stream (server_view s)) = s_out sst @ written"
    by (auto simp: session_inv_def)
  from assms(2) have "healthy ast" by (simp add: session_ready_def)
  from session_can_step [OF assms(1) this] stuck have over: "session_over s" by blast
  with inv show "at_pc (sn_agent s) = AEnd (Ok resp)" by (auto simp: session_over_def session_inv_def)
  from over view_output(3) [OF assms(2) view] show "tk_pc (sn_task s) = Done (Ok ())"
    by (auto simp: session_over_def finished_iff)
  from over view_output(2) [OF assms(2) view] view(2)
  show "s_out (tk_stream (sn_task s)) = s_out sst @ lp_frame put_frame_len r"
    by (simp add: session_over_def finished_iff)
  show "in_flight s = 0"
    using stuck session_step.to_server [of s "sn_to_server s" "[]" T Jr]
      session_step.to_agent [of s "sn_to_agent s" "[]" T Jr] by (auto simp: in_flight_def)
qed

theorem session_terminates_witness:
  "\<exists>s. session_reach sample_task_env response_serde
      (session_start request_serde sample_cert_request empty_stream empty_stream) s \<and>
    at_pc (sn_agent s) = AEnd (Ok (RespOk ''LEAF'' ''ROOT'')) \<and> tk_pc (sn_task s) = Done (Ok ())"
proof -
  let ?s0 = "session_start request_serde sample_cert_request empty_stream empty_stream"
  obtain s where s: "session_reach sample_task_env response_serde ?s0 s"
      "\<not> (\<exists>s'. session_step sample_task_env response_serde s s')"
    using session_comes_to_rest by blast
  with session_terminates [OF s(1) sample_session_ready] show ?thesis by blast
qed

end
