(* ===== verification/System.thy ===== *)
theory System
  imports Session
begin

text \<open>
  The whole system at the grain of the await points: the accept loop of the server, any number of
  agents with the tasks that serve them, and any number of other peers, which may send anything.
  A connection is a party of its own: an agent's is a session, another peer's a task whose peer is
  the environment. The steps of all parties and the accepts interleave freely.
\<close>

section \<open>Parties\<close>

text \<open>Who makes a connection: an agent with its request and its end of the stream, or somebody else.\<close>

datatype contact = ByAgent CertRequest stream | ByOther

datatype party =
    AgentOf CertRequest stream session
  | Other task

definition start_party :: "CertRequest serde \<Rightarrow> conn \<Rightarrow> contact \<Rightarrow> party" where
  "start_party Jq c k = (case k of
     ByAgent req ast \<Rightarrow> AgentOf req ast (session_start Jq req ast (cn_stream c))
   | ByOther \<Rightarrow> Other (start_task (cn_stream c)))"

text \<open>
  An agent's transport takes everything, and its connection carries what the agent writes. An agent
  whose own transport fails is not one of the agents of the system: for the server it is one of the
  other peers, with the bytes that got through, and how it ends itself is the subject of \<open>Agent_Task\<close>.
\<close>

definition contact_ok :: "CertRequest serde \<Rightarrow> conn \<Rightarrow> contact \<Rightarrow> bool" where
  "contact_ok Jq c k \<longleftrightarrow> (case k of
     ByAgent req ast \<Rightarrow> healthy ast \<and> s_in (cn_stream c) = unwritten (agent_start Jq req)
   | ByOther \<Rightarrow> True)"

inductive party_step ::
  "('k, 'kp, 'cert, 'csr) task_env \<Rightarrow> CertResponse serde \<Rightarrow> party \<Rightarrow> party \<Rightarrow> bool" for T Jr where
  agent_party: "session_step T Jr s s' \<Longrightarrow> party_step T Jr (AgentOf req ast s) (AgentOf req ast s')"
| other_party: "conn_step T t t' \<Longrightarrow> party_step T Jr (Other t) (Other t')"

inductive_cases party_stepE: "party_step T Jr p p'"

section \<open>The system\<close>

text \<open>
  A party stays in the list when its task has ended: its stream may hold bytes that the peer has
  not read yet.
\<close>

record system =
  sy_parties :: "(conn \<times> party) list"
  sy_dropped :: "conn list"
  sy_errors :: "string list"

datatype system_action = SContact conn contact | SFail string | SMove nat

definition system_init :: system where
  "system_init = \<lparr>sy_parties = [], sy_dropped = [], sy_errors = []\<rparr>"

definition make_contact :: "CertRequest serde \<Rightarrow> HostConfig \<Rightarrow> conn \<Rightarrow> contact \<Rightarrow> system \<Rightarrow> system" where
  "make_contact Jq config c k s =
     (if cn_port c \<noteq> hc_peer_port config then s\<lparr>sy_dropped := sy_dropped s @ [c]\<rparr>
      else s\<lparr>sy_parties := sy_parties s @ [(c, start_party Jq c k)]\<rparr>)"

definition move_party :: "nat \<Rightarrow> party \<Rightarrow> system \<Rightarrow> system" where
  "move_party i p s = s\<lparr>sy_parties := (sy_parties s)[i := (fst (sy_parties s ! i), p)]\<rparr>"

inductive system_step ::
  "('k, 'kp, 'cert, 'csr) server_env \<Rightarrow> HostConfig \<Rightarrow> CertificateAuthority \<Rightarrow> CertRequest serde
     \<Rightarrow> CertResponse serde \<Rightarrow> system \<Rightarrow> system_action \<Rightarrow> system \<Rightarrow> bool"
  for E config ca Jq Jr where
  sys_contact: "contact_ok Jq c k \<Longrightarrow>
    system_step E config ca Jq Jr s (SContact c k) (make_contact Jq config c k s)"
| sys_fails: "system_step E config ca Jq Jr s (SFail e) (s\<lparr>sy_errors := sy_errors s @ [e]\<rparr>)"
| sys_moves: "i < length (sy_parties s) \<Longrightarrow>
    party_step (conn_env E config ca (fst (sy_parties s ! i))) Jr (snd (sy_parties s ! i)) p \<Longrightarrow>
    system_step E config ca Jq Jr s (SMove i) (move_party i p s)"

inductive system_run ::
  "('k, 'kp, 'cert, 'csr) server_env \<Rightarrow> HostConfig \<Rightarrow> CertificateAuthority \<Rightarrow> CertRequest serde
     \<Rightarrow> CertResponse serde \<Rightarrow> system_action list \<Rightarrow> system \<Rightarrow> bool"
  for E config ca Jq Jr where
  sys_starts: "system_run E config ca Jq Jr [] system_init"
| sys_continues: "system_run E config ca Jq Jr acts s \<Longrightarrow> system_step E config ca Jq Jr s act s' \<Longrightarrow>
    system_run E config ca Jq Jr (acts @ [act]) s'"

section \<open>Every party is on its own\<close>

definition party_alone ::
  "('k, 'kp, 'cert, 'csr) task_env \<Rightarrow> CertRequest serde \<Rightarrow> CertResponse serde \<Rightarrow> conn \<Rightarrow> party \<Rightarrow> bool" where
  "party_alone T Jq Jr c p \<longleftrightarrow> (case p of
     AgentOf req ast s \<Rightarrow> contact_ok Jq c (ByAgent req ast) \<and>
       session_reach T Jr (session_start Jq req ast (cn_stream c)) s
   | Other t \<Rightarrow> conn_reach T (cn_stream c) t)"

lemma party_alone_start: "contact_ok Jq c k \<Longrightarrow> party_alone T Jq Jr c (start_party Jq c k)"
  by (cases k) (auto simp: party_alone_def start_party_def contact_ok_def intro: session_begins begins)

lemma party_alone_step: "party_step T Jr p p' \<Longrightarrow> party_alone T Jq Jr c p \<Longrightarrow> party_alone T Jq Jr c p'"
proof (induction rule: party_step.induct)
  case (agent_party s s' req ast)
  then show ?case using session_goes_on [of T Jr _ s s'] by (simp add: party_alone_def)
next
  case (other_party t t')
  then show ?case using goes_on [of T _ t t'] by (simp add: party_alone_def)
qed

definition parties_alone ::
  "('k, 'kp, 'cert, 'csr) server_env \<Rightarrow> HostConfig \<Rightarrow> CertificateAuthority \<Rightarrow> CertRequest serde
     \<Rightarrow> CertResponse serde \<Rightarrow> system \<Rightarrow> bool" where
  "parties_alone E config ca Jq Jr s \<longleftrightarrow>
     (\<forall>(c, p) \<in> set (sy_parties s). party_alone (conn_env E config ca c) Jq Jr c p)"

lemma parties_aloneD:
  assumes "parties_alone E config ca Jq Jr s" and "i < length (sy_parties s)"
  shows "party_alone (conn_env E config ca (fst (sy_parties s ! i))) Jq Jr (fst (sy_parties s ! i))
    (snd (sy_parties s ! i))"
proof -
  have "(fst (sy_parties s ! i), snd (sy_parties s ! i)) \<in> set (sy_parties s)" using assms(2) by simp
  with assms(1) show ?thesis unfolding parties_alone_def by blast
qed

lemma parties_alone_step:
  assumes "system_step E config ca Jq Jr s act s'" and "parties_alone E config ca Jq Jr s"
  shows "parties_alone E config ca Jq Jr s'"
  using assms(1)
proof (cases rule: system_step.cases)
  case (sys_contact c k)
  with assms(2) show ?thesis by (auto simp: parties_alone_def make_contact_def party_alone_start)
next
  case (sys_fails e)
  with assms(2) show ?thesis by (simp add: parties_alone_def)
next
  case (sys_moves i p)
  from party_alone_step [OF sys_moves(4) parties_aloneD [OF assms(2) sys_moves(3)]] assms(2) sys_moves(2)
  show ?thesis
    by (auto simp: parties_alone_def move_party_def dest!: subsetD [OF set_update_subset_insert])
qed

lemma system_run_alone: "system_run E config ca Jq Jr acts s \<Longrightarrow> parties_alone E config ca Jq Jr s"
proof (induction rule: system_run.induct)
  case sys_starts
  show ?case by (simp add: parties_alone_def system_init_def)
next
  case (sys_continues acts s act s')
  then show ?case by (blast intro: parties_alone_step)
qed

section \<open>The server's part of the system\<close>

primrec party_view :: "party \<Rightarrow> task" where
  "party_view (AgentOf req ast s) = server_view s"
| "party_view (Other t) = t"

definition server_of :: "system \<Rightarrow> fine_state" where
  "server_of s = \<lparr>fs_tasks = map (\<lambda>(c, p). (c, party_view p)) (sy_parties s), fs_ended = [],
     fs_dropped = sy_dropped s, fs_errors = sy_errors s\<rparr>"

fun accepts_of :: "system_action \<Rightarrow> action list" where
  "accepts_of (SContact c k) = [Accept (Accepted c)]"
| "accepts_of (SFail e) = [Accept (AcceptFailed e)]"
| "accepts_of (SMove i) = []"

lemma server_of_tasks [simp]:
  "length (fs_tasks (server_of s)) = length (sy_parties s)"
  "i < length (sy_parties s) \<Longrightarrow>
     fs_tasks (server_of s) ! i = (fst (sy_parties s ! i), party_view (snd (sy_parties s ! i)))"
  by (simp_all add: server_of_def case_prod_beta)

text \<open>The agent's connection begins for the server with the bytes that the agent is going to write.\<close>

lemma party_view_start:
  "contact_ok Jq c k \<Longrightarrow> party_view (start_party Jq c k) = start_task (cn_stream c)"
  by (cases k) (auto simp: start_party_def contact_ok_def server_view_def session_start_def start_task_def)

lemma session_reach_healthy:
  "session_reach T Jr (session_start Jq req ast sst) s \<Longrightarrow> healthy ast \<Longrightarrow> healthy (at_stream (sn_agent s))"
proof (induction rule: session_reach.induct)
  case session_begins
  then show ?case by (simp add: session_start_def)
next
  case (session_goes_on s s')
  then show ?case using session_step_view by blast
qed

lemma party_view_step:
  assumes "party_step T Jr p p'" and "party_alone T Jq Jr c p"
  shows "party_view p' = party_view p \<or> conn_step T (party_view p) (party_view p')"
  using assms(1)
proof (cases rule: party_step.cases)
  case (agent_party s s' req ast)
  with assms(2) have "healthy (at_stream (sn_agent s))"
    by (auto simp: party_alone_def contact_ok_def intro: session_reach_healthy)
  from session_step_view [OF agent_party(3) this] agent_party(1,2) show ?thesis by simp
qed simp

lemma system_step_refines:
  assumes "system_step E config ca Jq Jr s act s'" and "parties_alone E config ca Jq Jr s"
    and "fine_run E config ca facts (server_of s)"
  shows "\<exists>more. fine_run E config ca (facts @ more) (server_of s') \<and>
    concat (map abs_action more) = accepts_of act"
  using assms(1)
proof (cases rule: system_step.cases)
  case (sys_contact c k)
  have "server_of s' = fine_accept config (Accepted c) (server_of s)"
    using sys_contact(2,3) by (simp add: make_contact_def fine_accept_def server_of_def party_view_start)
  with assms(3) sys_contact show ?thesis
    by (intro exI [of _ "[FAccept (Accepted c)]"]) (simp add: fine_continues fine_accepts)
next
  case (sys_fails e)
  then have "server_of s' = fine_accept config (AcceptFailed e) (server_of s)"
    by (simp add: fine_accept_def server_of_def)
  with assms(3) sys_fails show ?thesis
    by (intro exI [of _ "[FAccept (AcceptFailed e)]"]) (simp add: fine_continues fine_accepts)
next
  case (sys_moves i p)
  let ?c = "fst (sy_parties s ! i)"
  have server: "server_of s' = move_task i (party_view p) (server_of s)"
    using sys_moves(2,3)
    by (simp add: move_party_def move_task_def server_of_def map_update case_prod_beta)
  from party_view_step [OF sys_moves(4) parties_aloneD [OF assms(2) sys_moves(3)]] show ?thesis
  proof
    assume "party_view p = party_view (snd (sy_parties s ! i))"
    then have "server_of s' = server_of s"
      using server sys_moves(3) move_task_same [of i "server_of s"] by simp
    with assms(3) sys_moves(1) show ?thesis by (intro exI [of _ "[]"]) simp
  next
    assume "conn_step (conn_env E config ca ?c) (party_view (snd (sy_parties s ! i))) (party_view p)"
    then have "fine_step E config ca (server_of s) (FMove i) (server_of s')"
      unfolding server using sys_moves(3) by (intro fine_moves) simp_all
    with assms(3) sys_moves(1) show ?thesis
      by (intro exI [of _ "[FMove i]"]) (simp add: fine_continues)
  qed
qed

lemma system_run_refines:
  assumes "system_run E config ca Jq Jr acts s"
  shows "\<exists>facts. fine_run E config ca facts (server_of s) \<and>
    concat (map abs_action facts) = concat (map accepts_of acts)"
  using assms
proof (induction rule: system_run.induct)
  case sys_starts
  have "server_of system_init = fine_init" by (simp add: server_of_def system_init_def fine_init_def)
  then show ?case by (intro exI [of _ "[]"]) (simp add: fine_starts)
next
  case (sys_continues acts s act s')
  then obtain facts where facts: "fine_run E config ca facts (server_of s)"
      "concat (map abs_action facts) = concat (map accepts_of acts)" by blast
  from system_step_refines [OF sys_continues(2) system_run_alone [OF sys_continues(1)] facts(1)] facts(2)
  show ?case by (metis append_Nil2 concat.simps concat_append list.simps(8,9) map_append)
qed

section \<open>Termination and progress\<close>

inductive_set party_order :: "(party \<times> party) set" where
  "(s', s) \<in> session_order \<Longrightarrow> (AgentOf req ast s', AgentOf req ast s) \<in> party_order"
| "(t', t) \<in> progress_order \<Longrightarrow> (Other t', Other t) \<in> party_order"

inductive_simps party_order_simps [simp]:
  "(p, AgentOf req ast s) \<in> party_order" "(p, Other t) \<in> party_order"

lemma wf_party_order: "wf party_order"
proof (rule wfUNIVI)
  fix P p
  assume step: "\<forall>p. (\<forall>p'. (p', p) \<in> party_order \<longrightarrow> P p') \<longrightarrow> P p"
  have "P (AgentOf req ast s)" for req ast s
    by (induction s rule: wf_induct_rule [OF wf_session_order]) (rule step [rule_format], auto)
  moreover have "P (Other t)" for t
    by (induction t rule: wf_induct_rule [OF wf_progress_order]) (rule step [rule_format], auto)
  ultimately show "P p" by (cases p) simp_all
qed

lemma party_step_decreases: "party_step T Jr p p' \<Longrightarrow> (p', p) \<in> party_order"
  by (induction rule: party_step.induct) (simp_all add: session_step_decreases conn_step_decreases)

definition parties_left :: "system \<Rightarrow> party multiset" where
  "parties_left s = mset (map snd (sy_parties s))"

lemma parties_left_decreases:
  assumes "system_step E config ca Jq Jr s (SMove i) s'"
  shows "(parties_left s', parties_left s) \<in> mult1 party_order"
  using assms
proof (cases rule: system_step.cases)
  case (sys_moves p)
  then have "parties_left s' = mset ((map snd (sy_parties s))[i := p])"
    by (simp add: parties_left_def move_party_def map_update)
  then show ?thesis
    using mult1_update [of i "map snd (sy_parties s)" p] party_step_decreases [OF sys_moves(3)] sys_moves(2)
    by (simp add: parties_left_def)
qed

lemma wf_system_moves: "wf {(s', s). \<exists>i. system_step E config ca Jq Jr s (SMove i) s'}"
proof (rule wf_subset [OF wf_inv_image [OF wf_mult1 [OF wf_party_order], of parties_left]])
  show "{(s', s). \<exists>i. system_step E config ca Jq Jr s (SMove i) s'} \<subseteq>
      inv_image (mult1 party_order) parties_left"
    by (auto simp: inv_image_def intro: parties_left_decreases)
qed

text \<open>A party that cannot move has come to its end.\<close>

primrec party_over :: "party \<Rightarrow> bool" where
  "party_over (AgentOf req ast s) = session_over s"
| "party_over (Other t) = finished t"

lemma party_can_step:
  assumes "party_alone T Jq Jr c p" and "\<not> party_over p"
  shows "\<exists>p'. party_step T Jr p p'"
proof (cases p)
  case (AgentOf req ast s)
  with assms have "session_reach T Jr (session_start Jq req ast (cn_stream c)) s" "healthy ast" "\<not> session_over s"
    by (simp_all add: party_alone_def contact_ok_def)
  from session_can_step [OF this] AgentOf show ?thesis by (blast intro: agent_party)
next
  case (Other t)
  with assms have reach: "conn_reach T (cn_stream c) t" and busy: "\<not> finished t"
    by (simp_all add: party_alone_def)
  from task_can_step [OF conn_reach_ok [OF reach] busy] peer_can_step [OF conn_reach_ok [OF reach]]
  have "\<exists>t'. conn_step T t t'"
    unfolding conn_step_def by (cases "waiting t") (auto simp: waiting_def split: pc.splits)
  with Other show ?thesis by (blast intro: other_party)
qed

lemma system_at_rest:
  assumes "system_run E config ca Jq Jr acts s" and "\<And>i s'. \<not> system_step E config ca Jq Jr s (SMove i) s'"
    and "(c, p) \<in> set (sy_parties s)"
  shows "party_over p"
proof (rule ccontr)
  assume still: "\<not> party_over p"
  from assms(3) obtain i where i: "i < length (sy_parties s)" "sy_parties s ! i = (c, p)"
    by (auto simp: in_set_conv_nth)
  from parties_aloneD [OF system_run_alone [OF assms(1)] i(1)] i(2)
  have "party_alone (conn_env E config ca c) Jq Jr c p" by simp
  from party_can_step [OF this still] obtain p' where "party_step (conn_env E config ca c) Jr p p'" by blast
  then have "system_step E config ca Jq Jr s (SMove i) (move_party i p' s)"
    using i by (intro sys_moves) simp_all
  with assms(2) show False by blast
qed

text \<open>What an agent's party has come to.\<close>

lemma agent_party_alone:
  assumes "system_run E config ca Jq Jr acts s" and "(c, AgentOf req ast sn) \<in> set (sy_parties s)"
  shows "session_reach (conn_env E config ca c) Jr (session_start Jq req ast (cn_stream c)) sn \<and> healthy ast"
  using system_run_alone [OF assms(1)] assms(2)
  by (force simp: parties_alone_def party_alone_def contact_ok_def)

lemma other_party_alone:
  "system_run E config ca Jq Jr acts s \<Longrightarrow> (c, Other t) \<in> set (sy_parties s) \<Longrightarrow>
     conn_reach (conn_env E config ca c) (cn_stream c) t"
  using system_run_alone [of E config ca Jq Jr acts s] by (force simp: parties_alone_def party_alone_def)

text \<open>From every state the parties can come to rest, and they are still the same parties.\<close>

primrec contact_of :: "party \<Rightarrow> contact" where
  "contact_of (AgentOf req ast s) = ByAgent req ast"
| "contact_of (Other t) = ByOther"

definition who :: "system \<Rightarrow> (conn \<times> contact) list" where
  "who s = map (map_prod id contact_of) (sy_parties s)"

lemma move_keeps_who:
  assumes "system_step E config ca Jq Jr s (SMove i) s'"
  shows "who s' = who s"
  using assms
proof (cases rule: system_step.cases)
  case (sys_moves p)
  from sys_moves(3) have "contact_of p = contact_of (snd (sy_parties s ! i))"
    by (auto elim: party_step.cases)
  with sys_moves(1,2) show ?thesis
    using list_update_id [of "map (map_prod id contact_of) (sy_parties s)" i]
    by (simp add: who_def move_party_def map_update map_prod_def case_prod_beta)
qed

lemma system_comes_to_rest:
  assumes "system_run E config ca Jq Jr acts s"
  shows "\<exists>moves s'. system_run E config ca Jq Jr (acts @ map SMove moves) s' \<and>
    (\<forall>i s''. \<not> system_step E config ca Jq Jr s' (SMove i) s'') \<and> who s' = who s"
  using assms
proof (induction s arbitrary: acts rule: wf_induct_rule [OF wf_system_moves [of E config ca Jq Jr]])
  case (1 s)
  show ?case
  proof (cases "\<exists>i s'. system_step E config ca Jq Jr s (SMove i) s'")
    case True
    then obtain i s' where step: "system_step E config ca Jq Jr s (SMove i) s'" by blast
    from 1(1) [OF _ sys_continues [OF 1(2) step]] step obtain moves s'' where
      "system_run E config ca Jq Jr ((acts @ [SMove i]) @ map SMove moves) s''"
      "\<forall>i s'''. \<not> system_step E config ca Jq Jr s'' (SMove i) s'''" "who s'' = who s'"
      by blast
    with move_keeps_who [OF step] show ?thesis by (intro exI [of _ "i # moves"] exI [of _ s'']) simp
  next
    case False
    with 1(2) show ?thesis by (intro exI [of _ "[]"] exI [of _ s]) simp
  qed
qed

section \<open>A concrete system for the witnesses\<close>

text \<open>An agent, a connection from a wrong port, and a peer of another VM that sends the same bytes.\<close>

definition sample_contacts :: "system_action list" where
  "sample_contacts = [SContact (sample_conn 10 901) (ByAgent sample_cert_request empty_stream),
     SContact (sample_conn 10 5000) ByOther, SContact (sample_conn 11 901) ByOther]"

definition sample_system :: system where
  "sample_system = \<lparr>
     sy_parties = [(sample_conn 10 901, start_party request_serde (sample_conn 10 901)
         (ByAgent sample_cert_request empty_stream)),
       (sample_conn 11 901, Other (start_task request_stream))],
     sy_dropped = [sample_conn 10 5000], sy_errors = []\<rparr>"

lemma run_SContact:
  "system_run E config ca Jq Jr acts s \<Longrightarrow> contact_ok Jq c k \<Longrightarrow> s' = make_contact Jq config c k s \<Longrightarrow>
     acts' = acts @ [SContact c k] \<Longrightarrow> system_run E config ca Jq Jr acts' s'"
  by (simp add: sys_continues sys_contact)

lemma sample_contact_ok: "contact_ok request_serde (sample_conn cid p) (ByAgent sample_cert_request empty_stream)"
  by (simp add: contact_ok_def sample_conn_def agent_start_def request_serde_def request_stream_def
      lp_frame_def put_frame_len_def Let_def)

lemma sample_system_run: "system_run E sample_host_config ca request_serde Jr sample_contacts sample_system"
proof -
  have conn: "cn_port (sample_conn cid p) = p" "cn_stream (sample_conn cid p) = request_stream" for cid p
    by (simp_all add: sample_conn_def)
  have config: "hc_peer_port sample_host_config = 901" by (simp add: sample_host_config_def)
  have other: "contact_ok request_serde c ByOther" for c by (simp add: contact_ok_def)
  show ?thesis
    unfolding sample_contacts_def sample_system_def
    by (rule run_SContact [OF run_SContact [OF run_SContact [OF sys_starts sample_contact_ok refl refl]
            other refl refl] other])
      (simp_all add: make_contact_def system_init_def conn config start_party_def)
qed

lemma sample_agent_ready:
  "session_ready (conn_env sample_server_env sample_host_config sample_ca (sample_conn 10 901)) request_serde
     response_serde empty_stream (cn_stream (sample_conn 10 901)) sample_cert_request (as_bytes ''req'')
     (RespOk ''LEAF'' ''ROOT'') (encode_response (RespOk ''LEAF'' ''ROOT''))"
  using sample_session_ready
  by (simp add: session_ready_def conn_env_def sample_conn_def sample_task_env_def request_stream_def)

text \<open>That system at rest.\<close>

lemma sample_system_rest:
  "\<exists>acts s sn t. system_run sample_server_env sample_host_config sample_ca request_serde response_serde acts s \<and>
    (\<forall>i s'. \<not> system_step sample_server_env sample_host_config sample_ca request_serde response_serde s (SMove i) s') \<and>
    (sample_conn 10 901, AgentOf sample_cert_request empty_stream sn) \<in> set (sy_parties s) \<and>
    (sample_conn 11 901, Other t) \<in> set (sy_parties s)"
proof -
  obtain acts s where
    run: "system_run sample_server_env sample_host_config sample_ca request_serde response_serde acts s"
      "\<forall>i s'. \<not> system_step sample_server_env sample_host_config sample_ca request_serde response_serde s (SMove i) s'"
    and who: "who s = who sample_system"
    using system_comes_to_rest [OF sample_system_run, of sample_server_env sample_ca response_serde] by blast
  from who obtain p p' where p: "sy_parties s = [(sample_conn 10 901, p), (sample_conn 11 901, p')]"
      "contact_of p = ByAgent sample_cert_request empty_stream" "contact_of p' = ByOther"
    by (auto simp: who_def sample_system_def start_party_def map_eq_Cons_conv)
  obtain sn where "p = AgentOf sample_cert_request empty_stream sn" using p(2) by (cases p) simp_all
  moreover obtain t where "p' = Other t" using p(3) by (cases p') simp_all
  ultimately show ?thesis
    using run p(1) by (intro exI [of _ acts] exI [of _ s] exI [of _ sn] exI [of _ t]) simp
qed

section \<open>Properties\<close>

text \<open>C7: the server's part of the whole system, with the agents' bytes still under way counted as input to
  come, is a run of the server alone with the same accepts; what is proved of the server against
  arbitrary peers holds in the presence of real agents. (The agents of the system are those whose own
  transport does not fail; an agent whose transport fails counts as an other peer.)\<close>

theorem system_refines_server:
  assumes "system_run E config ca Jq Jr acts s"
  shows "\<exists>facts. fine_run E config ca facts (server_of s) \<and>
    concat (map abs_action facts) = concat (map accepts_of acts)"
  using assms by (rule system_run_refines)

theorem system_refines_server_witness:
  "\<exists>facts. fine_run sample_server_env sample_host_config sample_ca facts (server_of sample_system) \<and>
    concat (map abs_action facts) =
      [Accept (Accepted (sample_conn 10 901)), Accept (Accepted (sample_conn 10 5000)),
       Accept (Accepted (sample_conn 11 901))]"
  using system_refines_server [OF sample_system_run, of sample_server_env sample_ca]
  by (simp add: sample_contacts_def)

text \<open>C6: no other peer can spoil an agent's exchange: at every moment of a run of the whole system, whatever
  the other parties have sent and in whatever order everything happened, an agent that has ended
  holds the answer that the specification gives to its own request, and its task has ended well if it
  has ended; provided that the transports of this agent and of its task do not fail and that the two
  messages survive their encodings and are within the size limit (\<^const>\<open>session_ready\<close>).\<close>

theorem system_agents_answered:
  assumes "system_run E config ca Jq Jr acts s" and "(c, AgentOf req ast sn) \<in> set (sy_parties s)"
    and "session_ready (conn_env E config ca c) Jq Jr ast (cn_stream c) req q resp r"
  shows "(\<forall>res. at_pc (sn_agent sn) = AEnd res \<longrightarrow> res = Ok resp) \<and>
    (\<forall>res. tk_pc (sn_task sn) = Done res \<longrightarrow> res = Ok ())"
  using session_results [OF conjunct1 [OF agent_party_alone [OF assms(1,2)]] assms(3)] .

theorem system_agents_answered_witness:
  "\<exists>acts s sn. system_run sample_server_env sample_host_config sample_ca request_serde response_serde acts s \<and>
    (sample_conn 10 901, AgentOf sample_cert_request empty_stream sn) \<in> set (sy_parties s) \<and>
    at_pc (sn_agent sn) = AEnd (Ok (RespOk ''LEAF'' ''ROOT''))"
proof -
  obtain acts s sn t where run: "system_run sample_server_env sample_host_config sample_ca request_serde response_serde acts s"
    and rest: "\<And>i s'. \<not> system_step sample_server_env sample_host_config sample_ca request_serde response_serde s (SMove i) s'"
    and sn: "(sample_conn 10 901, AgentOf sample_cert_request empty_stream sn) \<in> set (sy_parties s)"
    using sample_system_rest by metis
  from system_at_rest [OF run rest sn] obtain res where "at_pc (sn_agent sn) = AEnd res"
    by (auto simp: session_over_def)
  with system_agents_answered [OF run sn sample_agent_ready] run sn show ?thesis by blast
qed

text \<open>C5: the whole system settles: between two contacts it has no infinite run, and when nothing can move,
  every agent has ended, with its answer if the two sides understand each other
  (\<^const>\<open>session_ready\<close>), and every other peer has been served to the end, with the outcome of
  \<^const>\<open>handle_connection\<close> on what it sent. (The agents of the system are those whose own transport
  does not fail.)\<close>

theorem system_settles:
  assumes "system_run E config ca Jq Jr acts s"
  shows "wf {(s', s). \<exists>i. system_step E config ca Jq Jr s (SMove i) s'} \<and>
    ((\<forall>i s'. \<not> system_step E config ca Jq Jr s (SMove i) s') \<longrightarrow>
      (\<forall>(c, p) \<in> set (sy_parties s). case p of
         AgentOf req ast sn \<Rightarrow> finished (sn_task sn) \<and>
           (\<exists>res. at_pc (sn_agent sn) = AEnd res \<and>
             (\<forall>q resp r. session_ready (conn_env E config ca c) Jq Jr ast (cn_stream c) req q resp r \<longrightarrow> res = Ok resp))
       | Other t \<Rightarrow> \<exists>r. tk_pc t = Done r \<and>
           handle_connection E (cn_env c) (cn_cid c) config ca (cn_stream c) = (r, whole_stream t)))"
proof (intro conjI impI ballI, rule wf_system_moves, clarify)
  fix c p
  assume rest: "\<forall>i s'. \<not> system_step E config ca Jq Jr s (SMove i) s'" and p: "(c, p) \<in> set (sy_parties s)"
  from system_at_rest [OF assms _ p] rest have over: "party_over p" by blast
  show "case p of
         AgentOf req ast sn \<Rightarrow> finished (sn_task sn) \<and>
           (\<exists>res. at_pc (sn_agent sn) = AEnd res \<and>
             (\<forall>q resp r. session_ready (conn_env E config ca c) Jq Jr ast (cn_stream c) req q resp r \<longrightarrow> res = Ok resp))
       | Other t \<Rightarrow> \<exists>r. tk_pc t = Done r \<and>
           handle_connection E (cn_env c) (cn_cid c) config ca (cn_stream c) = (r, whole_stream t)"
  proof (cases p)
    case (AgentOf req ast sn)
    from session_results [OF conjunct1 [OF agent_party_alone [OF assms p [unfolded AgentOf]]]] over AgentOf
    show ?thesis by (auto simp: session_over_def)
  next
    case (Other t)
    with over obtain r where r: "tk_pc t = Done r" by (auto simp: finished_iff)
    from conn_reach_outcome [OF other_party_alone [OF assms p [unfolded Other]]] r Other show ?thesis
      by (simp add: outcome_def conn_env_def)
  qed
qed

theorem system_settles_witness:
  "\<exists>acts s sn t r. system_run sample_server_env sample_host_config sample_ca request_serde response_serde acts s \<and>
    (sample_conn 10 901, AgentOf sample_cert_request empty_stream sn) \<in> set (sy_parties s) \<and>
    at_pc (sn_agent sn) = AEnd (Ok (RespOk ''LEAF'' ''ROOT'')) \<and>
    (sample_conn 11 901, Other t) \<in> set (sy_parties s) \<and> tk_pc t = Done r"
proof -
  obtain acts s sn t where run: "system_run sample_server_env sample_host_config sample_ca request_serde response_serde acts s"
    and rest: "\<forall>i s'. \<not> system_step sample_server_env sample_host_config sample_ca request_serde response_serde s (SMove i) s'"
    and parties: "(sample_conn 10 901, AgentOf sample_cert_request empty_stream sn) \<in> set (sy_parties s)"
      "(sample_conn 11 901, Other t) \<in> set (sy_parties s)"
    using sample_system_rest by blast
  note settled = conjunct2 [OF system_settles [OF run], rule_format, OF rest [rule_format]]
  from settled [OF parties(1)] sample_agent_ready have "at_pc (sn_agent sn) = AEnd (Ok (RespOk ''LEAF'' ''ROOT''))"
    by auto
  moreover from settled [OF parties(2)] obtain r where "tk_pc t = Done r" by auto
  ultimately show ?thesis using run parties by blast
qed

end
