(* ===== verification/Server_Main.thy ===== *)
theory Server_Main
  imports Listener
begin

text \<open>
  The server's \<open>main\<close> (\<open>main.rs\<close> of \<open>auth-scope-server\<close>), up to the accept loop. \<open>Err n\<close> is
  \<open>process::exit(n)\<close>, and \<open>bind\<close> is what binding the vsock port gives. The \<open>clap\<close> crate is a parameter:
  from the arguments it gives the options that were present, or the code with which it ends the
  process (a usage error, \<open>--help\<close>, \<open>--version\<close>).
\<close>

record server_matches =
  sm_config :: "path option"
  sm_genkey :: bool

record Cli =
  cli_config :: path
  cli_genkey :: bool

text \<open>The structure as declared: \<open>--config\<close> with its default, and the flag.\<close>

definition DEFAULT_HOST_CONFIG :: path where
  "DEFAULT_HOST_CONFIG = [''etc'', ''auth-scope'', ''host.json'']"

definition Cli_of_matches :: "server_matches \<Rightarrow> Cli" where
  "Cli_of_matches m = \<lparr>cli_config = (case sm_config m of None \<Rightarrow> DEFAULT_HOST_CONFIG | Some p \<Rightarrow> p),
     cli_genkey = sm_genkey m\<rparr>"

definition server_ca ::
  "('kp, 'cert, 'csr) rcgen_lib \<Rightarrow> nat \<Rightarrow> bool \<Rightarrow> HostConfig \<Rightarrow> (fs, CertificateAuthority, CaError) io" where
  "server_ca R rng genkey cfg =
     (if genkey then CertificateAuthority_init R rng (hc_ca_cert_path cfg) (hc_ca_key_path cfg) False
      else CertificateAuthority_load R (hc_ca_cert_path cfg) (hc_ca_key_path cfg))"

definition server_main ::
  "HostConfig_json json_text \<Rightarrow> ('kp, 'cert, 'csr) rcgen_lib \<Rightarrow> nat \<Rightarrow> (u32 \<Rightarrow> (unit, string) res)
     \<Rightarrow> (string list \<Rightarrow> (server_matches, nat) res) \<Rightarrow> u32 \<Rightarrow> string list
     \<Rightarrow> (fs, HostConfig \<times> CertificateAuthority \<times> listener_state, nat) io" where
  "server_main J R rng bind clap uid args =
     (if uid \<noteq> 0 then io_lift (Err 1)
      else io_bind (io_lift (clap args)) (\<lambda>matches. let cli = Cli_of_matches matches in
        io_bind (io_map_err (\<lambda>_. 1) (HostConfig_from_file J (cli_config cli))) (\<lambda>cfg.
        io_bind (io_map_err (\<lambda>_. 1) (server_ca R rng (cli_genkey cli) cfg)) (\<lambda>ca.
        io_bind (io_lift (map_err (\<lambda>_. 1) (run_listener (bind (hc_server_port cfg))))) (\<lambda>ls.
        io_ret (cfg, ca, ls))))))"

lemma server_main_Ok_iff:
  "server_main J R rng bind clap uid args s = (Ok (cfg, ca, ls), s') \<longleftrightarrow>
     (\<exists>m s1. uid = 0 \<and> clap args = Ok m
        \<and> HostConfig_from_file J (cli_config (Cli_of_matches m)) s = (Ok cfg, s1)
        \<and> server_ca R rng (sm_genkey m) cfg s1 = (Ok ca, s')
        \<and> run_listener (bind (hc_server_port cfg)) = Ok ls)"
  by (auto simp: server_main_def io_inv Let_def Cli_of_matches_def)

lemma Cli_of_matches_genkey [simp]: "cli_config (Cli_of_matches (m\<lparr>sm_genkey := b\<rparr>)) = cli_config (Cli_of_matches m)"
  by (simp add: Cli_of_matches_def)

section \<open>Concrete files for the witnesses\<close>

definition sample_host_json :: "HostConfig_json json_text" where
  "sample_host_json = \<lparr>parse_text = (\<lambda>_. Ok \<lparr>hj_ca_cert_path = Some [''ca'', ''cert''],
     hj_ca_key_path = Some [''ca'', ''key''], hj_server_port = None, hj_cert_validity_days = None,
     hj_vms = Some [(''peer-vm'', \<lparr>vj_vm_cid = Some 10, vj_entities = Some [(''peer-service'',
       \<lparr>pj_caps = Some [sample_cap], pj_validity_days = Some 10\<rparr>)]\<rparr>)],
     hj_peer_port = None\<rparr>), missing_field_msg = (\<lambda>_ n. n)\<rparr>"

definition sample_server_disk :: fs where
  "sample_server_disk = \<lparr>fs_nodes = [[] \<mapsto> Dir, [''ca''] \<mapsto> Dir, DEFAULT_HOST_CONFIG \<mapsto>
     Reg \<lparr>f_data = [], f_mode = 0x180, f_uid = 0, f_gid = 0\<rparr>], fs_umask = 0x12, fs_faults = []\<rparr>"

text \<open>A command line of \<open>--genkey\<close> or nothing.\<close>

definition sample_clap :: "string list \<Rightarrow> (server_matches, nat) res" where
  "sample_clap args =
     (if args = [''--genkey''] then Ok \<lparr>sm_config = None, sm_genkey = True\<rparr>
      else if args = [] then Ok \<lparr>sm_config = None, sm_genkey = False\<rparr>
      else Err 2)"

lemma sample_host_loads:
  "fs_nodes s p = Some (Reg f) \<Longrightarrow> f_data f = [] \<Longrightarrow> no_faults s \<Longrightarrow>
     HostConfig_from_file sample_host_json p s = (Ok sample_host_config, s)"
  by (simp add: HostConfig_from_file_def res_simps read_to_string_runs from_utf8_ascii [of "[]", simplified]
      sample_host_json_def HostConfig_of_json_def VmEntry_of_json_def EntityPolicy_of_json_def
      read_entries_def required_def defaulted_def hash_map_def sample_host_config_def
      host_default_server_port_def default_validity_days_def default_peer_port_def)

lemma sample_server_init:
  "\<exists>s'. CertificateAuthority_init sample_rcgen 0 [''ca'', ''cert''] [''ca'', ''key''] False sample_server_disk
     = (Ok sample_ca, s') \<and> no_faults s'"
  by (simp add: CertificateAuthority_init_def remove_if_exists_def fs_exists_def sample_server_disk_def
      DEFAULT_HOST_CONFIG_def ca_generate_def sample_ca_params res_simps)
    (simp add: create_parent_def path_parent_def create_dir_all_def guarded_def
      syscall_def io_bind_def io_map_err_def io_lift_def io_ret_def prefixes_of_def upt_rec fs_write_def
      open_for_write_def set_node_def set_mode_600_def set_permissions_def Let_def sample_ca_def
      no_faults_def)

lemma sample_server_main:
  "\<exists>s'. server_main sample_host_json sample_rcgen 0 (\<lambda>_. Ok ()) sample_clap 0 [''--genkey''] sample_server_disk
    = (Ok (sample_host_config, sample_ca, listener_init), s') \<and> no_faults s'"
proof -
  obtain s' where "CertificateAuthority_init sample_rcgen 0 [''ca'', ''cert''] [''ca'', ''key''] False
      sample_server_disk = (Ok sample_ca, s')" "no_faults s'"
    using sample_server_init by blast
  moreover have "HostConfig_from_file sample_host_json DEFAULT_HOST_CONFIG sample_server_disk =
      (Ok sample_host_config, sample_server_disk)"
    by (rule sample_host_loads [where f = "\<lparr>f_data = [], f_mode = 0x180, f_uid = 0, f_gid = 0\<rparr>"])
      (simp_all add: sample_server_disk_def DEFAULT_HOST_CONFIG_def no_faults_def)
  ultimately show ?thesis
    by (intro exI [of _ s']) (simp add: server_main_Ok_iff server_ca_def sample_host_config_def run_listener_def
        sample_clap_def Cli_of_matches_def)
qed

section \<open>Properties\<close>

text \<open>A server that listens runs as root, on a privileged port, with the configuration file named on the
  command line or the default one; without \<open>--genkey\<close> starting it changes no file.\<close>

theorem server_start_safe:
  assumes "server_main J R rng bind clap uid args s = (Ok (cfg, ca, ls), s')"
  shows "uid = 0 \<and> unat (hc_server_port cfg) < 1000 \<and> bind (hc_server_port cfg) = Ok () \<and>
    (\<exists>m. clap args = Ok m \<and> (\<not> sm_genkey m \<longrightarrow> fs_nodes s' = fs_nodes s))"
proof -
  from assms obtain m s1 where
    clap: "clap args = Ok m" and cfg: "HostConfig_from_file J (cli_config (Cli_of_matches m)) s = (Ok cfg, s1)"
    and ca: "server_ca R rng (sm_genkey m) cfg s1 = (Ok ca, s')"
    and rest: "uid = 0" "run_listener (bind (hc_server_port cfg)) = Ok ls"
    unfolding server_main_Ok_iff by blast
  have "fs_nodes s' = fs_nodes s1" if "\<not> sm_genkey m"
    using stays_inD [OF stays_in_load [of "{}" R "hc_ca_cert_path cfg" "hc_ca_key_path cfg"], of _ s1] ca that
    by (auto simp: server_ca_def)
  with host_loader.load_privileged [OF cfg] rest clap show ?thesis
    by (auto simp: run_listener_def rbind_Ok_iff)
qed

theorem server_start_safe_witness:
  "\<exists>cfg ca ls s'. server_main sample_host_json sample_rcgen 0 (\<lambda>_. Ok ()) sample_clap 0 [''--genkey'']
      sample_server_disk = (Ok (cfg, ca, ls), s')
    \<and> unat (hc_server_port cfg) < 1000"
proof -
  obtain s' where s': "server_main sample_host_json sample_rcgen 0 (\<lambda>_. Ok ()) sample_clap 0 [''--genkey'']
      sample_server_disk = (Ok (sample_host_config, sample_ca, listener_init), s')"
    using sample_server_main by blast
  from server_start_safe [OF s'] s' show ?thesis by blast
qed

text \<open>C34: a server restarted without \<open>--genkey\<close> has the CA that its first start generated: the same key, the
  same certificate, the same configuration, and the disk stays as it is.\<close>

theorem server_restart_same_ca:
  assumes "server_main J R rng bind clap uid args s = (Ok (cfg, ca, ls), s')"
    and "clap args = Ok m" "sm_genkey m" "clap args' = Ok (m\<lparr>sm_genkey := False\<rparr>)"
    and "cli_config (Cli_of_matches m) \<notin> set (prefixes_of (hc_ca_cert_path cfg))"
    and "cli_config (Cli_of_matches m) \<notin> set (prefixes_of (hc_ca_key_path cfg))"
    and "hc_ca_cert_path cfg \<noteq> []" "hc_ca_key_path cfg \<noteq> []" "hc_ca_cert_path cfg \<noteq> hc_ca_key_path cfg"
    and "\<And>kp cert params. rg_generate_for_p256 R rng = Ok kp \<Longrightarrow> ca_params R = Ok params \<Longrightarrow>
      rg_self_signed R params kp rng = Ok cert \<Longrightarrow> pem_law R kp cert"
    and "no_faults s'"
  shows "server_main J R rng' bind clap uid args' s' = (Ok (cfg, ca, ls), s')"
proof -
  let ?p = "cli_config (Cli_of_matches m)"
  from assms(1-3) obtain s1 where
    cfg: "HostConfig_from_file J ?p s = (Ok cfg, s1)"
    and ca: "CertificateAuthority_init R rng (hc_ca_cert_path cfg) (hc_ca_key_path cfg) False s1 = (Ok ca, s')"
    and rest: "uid = 0" "run_listener (bind (hc_server_port cfg)) = Ok ls"
    unfolding server_main_Ok_iff server_ca_def by auto
  let ?P = "set (prefixes_of (hc_ca_cert_path cfg)) \<union> set (prefixes_of (hc_ca_key_path cfg))"
  have "?p \<notin> ?P" using assms(5,6) by blast
  from stays_inD [OF stays_in_init [OF order_refl] this, of R rng False s1]
  have "fs_nodes s' ?p = fs_nodes s1 ?p" unfolding ca by simp
  with host_loader.load_privileged [OF cfg] have "fs_nodes s' ?p = fs_nodes s ?p" by simp
  with host_loader.load_again [OF cfg assms(11)] have "HostConfig_from_file J ?p s' = (Ok cfg, s')" by simp
  moreover have "CertificateAuthority_load R (hc_ca_cert_path cfg) (hc_ca_key_path cfg) s' = (Ok ca, s')"
    by (rule init_then_load [OF ca _ assms(7-9) assms(11)]) (rule assms(10))
  ultimately show ?thesis using rest assms(4) by (simp add: server_main_Ok_iff server_ca_def)
qed

theorem server_restart_same_ca_witness:
  "\<exists>s'. server_main sample_host_json sample_rcgen 5 (\<lambda>_. Ok ()) sample_clap 0 [] s'
    = (Ok (sample_host_config, sample_ca, listener_init), s')"
proof -
  obtain s' where s': "server_main sample_host_json sample_rcgen 0 (\<lambda>_. Ok ()) sample_clap 0 [''--genkey'']
      sample_server_disk = (Ok (sample_host_config, sample_ca, listener_init), s')" "no_faults s'"
    using sample_server_main by blast
  let ?m = "\<lparr>sm_config = None, sm_genkey = True\<rparr>"
  have clap: "sample_clap [''--genkey''] = Ok ?m" "sm_genkey ?m"
    "sample_clap [] = Ok (?m\<lparr>sm_genkey := False\<rparr>)"
    by (simp_all add: sample_clap_def)
  have "server_main sample_host_json sample_rcgen 5 (\<lambda>_. Ok ()) sample_clap 0 [] s'
    = (Ok (sample_host_config, sample_ca, listener_init), s')"
    by (rule server_restart_same_ca [OF s'(1) clap _ _ _ _ _ _ s'(2)])
      (auto simp: sample_host_config_def in_prefixes_iff take_Cons Cli_of_matches_def DEFAULT_HOST_CONFIG_def
        split: nat.splits)
  then show ?thesis by blast
qed

end
