(* ===== verification/Agent_Main.thy ===== *)
theory Agent_Main
  imports Client
begin

text \<open>
  The agent's \<open>main\<close> (\<open>main.rs\<close> of \<open>auth-scope-agent\<close>). \<open>Err n\<close> is \<open>process::exit(n)\<close>; \<open>Ok ()\<close> is the
  endless sleep at the end of \<open>run_agent\<close>. The \<open>clap\<close> crate is a parameter, as in \<open>Server_Main\<close>.
\<close>

record agent_matches =
  am_config :: "path option"

record AgentCli =
  acli_config :: path

definition DEFAULT_AGENT_CONFIG :: path where
  "DEFAULT_AGENT_CONFIG = [''etc'', ''auth-scope'', ''agent.json'']"

definition AgentCli_of_matches :: "agent_matches \<Rightarrow> AgentCli" where
  "AgentCli_of_matches m =
     \<lparr>acli_config = (case am_config m of None \<Rightarrow> DEFAULT_AGENT_CONFIG | Some p \<Rightarrow> p)\<rparr>"

definition agent_main ::
  "AgentConfig_json json_text \<Rightarrow> ('kp, 'cert, 'csr) agent_env \<Rightarrow> (string list \<Rightarrow> (agent_matches, nat) res)
     \<Rightarrow> u32 \<Rightarrow> string list \<Rightarrow> (world, unit, nat) io" where
  "agent_main J A clap uid args =
     (if uid \<noteq> 0 then io_lift (Err 1)
      else io_bind (io_lift (clap args)) (\<lambda>matches. let cli = AgentCli_of_matches matches in
        io_bind (io_map_err (\<lambda>_. 1) (on_fs (AgentConfig_from_file J (acli_config cli)))) (\<lambda>cfg.
        io_map_err (\<lambda>_. 1) (run_agent A cfg))))"

lemma on_fs_Ok_iff [io_inv]:
  "on_fs m w = (Ok x, w') \<longleftrightarrow> (\<exists>f. m (aw_fs w) = (Ok x, f) \<and> w' = w\<lparr>aw_fs := f\<rparr>)"
  by (auto simp: on_fs_def split: prod.splits)

text \<open>
  An agent that settles down runs as root with a privileged server port, and has tried all the
  entities of its configuration.
\<close>

lemma agent_main_Ok:
  assumes "agent_main J A clap uid args w = (Ok (), w')"
  obtains m cfg f where "uid = 0" and "clap args = Ok m"
    and "AgentConfig_from_file J (acli_config (AgentCli_of_matches m)) (aw_fs w) = (Ok cfg, f)"
    and "unat (ag_server_port cfg) < 1000" and "fs_nodes f = fs_nodes (aw_fs w)"
    and "run_agent A cfg (w\<lparr>aw_fs := f\<rparr>) = (Ok (), w')"
proof -
  from assms obtain m cfg f where
    *: "uid = 0" "clap args = Ok m"
      "AgentConfig_from_file J (acli_config (AgentCli_of_matches m)) (aw_fs w) = (Ok cfg, f)"
      "run_agent A cfg (w\<lparr>aw_fs := f\<rparr>) = (Ok (), w')"
    by (auto simp: agent_main_def io_inv Let_def split: if_splits)
  with agent_loader.load_privileged [OF *(3)] show thesis by (intro that) simp_all
qed

end
