(* ===== verification/Json.thy ===== *)
theory Json
  imports Codec "HOL-Library.Monad_Syntax"
begin

text \<open>
  The JSON form of the messages: what \<open>#[derive(Serialize, Deserialize)]\<close> and the \<open>#[serde(...)]\<close>
  attributes of \<open>wire.rs\<close> and \<open>caps.rs\<close> declare, between the structs and JSON values. The text of a
  value is \<open>serde_json\<close>'s: printing and parsing are the fields of a \<open>json_lib\<close> record, with the law
  that a printed value is read back. From that law alone follow the laws of \<open>Wire\<close> for every message.
\<close>

section \<open>JSON values\<close>

text \<open>
  An object is the list of its members in the order of the text, repeated keys included. \<open>JInt\<close> is an
  integer literal; any other number literal (a fraction, an exponent, \<open>-0\<close>) keeps its text.
\<close>

datatype json =
    JNull
  | JBool bool
  | JInt int
  | JNumber string
  | JString string
  | JArray "json list"
  | JObject "(string \<times> json) list"

record json_lib =
  json_print :: "json \<Rightarrow> string"
  json_parse :: "bytes \<Rightarrow> (json, string) res"
  json_mismatch :: "bytes \<Rightarrow> string"

definition json_text_law :: "json_lib \<Rightarrow> json \<Rightarrow> bool" where
  "json_text_law P v \<longleftrightarrow> json_parse P (as_bytes (json_print P v)) = Ok v"

section \<open>How serde reads values\<close>

text \<open>
  \<open>None\<close> is a value that is refused. The integers of the structs are range-checked; \<open>null\<close> is neither
  a string nor an integer nor an array.
\<close>

fun string_of_json :: "json \<Rightarrow> string option" where
  "string_of_json (JString s) = Some s"
| "string_of_json _ = None"

fun u32_of_json :: "json \<Rightarrow> u32 option" where
  "u32_of_json (JInt n) = (if 0 \<le> n \<and> n < 2 ^ 32 then Some (of_int n) else None)"
| "u32_of_json _ = None"

fun i64_of_json :: "json \<Rightarrow> 64 word option" where
  "i64_of_json (JInt n) = (if - (2 ^ 63) \<le> n \<and> n < 2 ^ 63 then Some (of_int n) else None)"
| "i64_of_json _ = None"

fun vec_of_json :: "(json \<Rightarrow> 'a option) \<Rightarrow> json \<Rightarrow> 'a list option" where
  "vec_of_json d (JArray vs) = those (map d vs)"
| "vec_of_json d _ = None"

text \<open>
  The fields of a struct. An object must have each field once; a missing and a repeated field are
  errors, a member that is no field is ignored. An array gives the fields in their order.
\<close>

definition json_member :: "(string \<times> json) list \<Rightarrow> string \<Rightarrow> json option" where
  "json_member kvs k = (case filter (\<lambda>(k', _). k' = k) kvs of [(_, v)] \<Rightarrow> Some v | _ \<Rightarrow> None)"

fun struct_fields :: "string list \<Rightarrow> json \<Rightarrow> json list option" where
  "struct_fields names (JObject kvs) = those (map (json_member kvs) names)"
| "struct_fields names (JArray vs) = (if length vs = length names then Some vs else None)"
| "struct_fields names _ = None"

definition json_strings :: "string list \<Rightarrow> json" where
  "json_strings xs = JArray (map JString xs)"

section \<open>Capabilities (caps.rs)\<close>

definition PathAccess_to_json :: "PathAccess \<Rightarrow> json" where
  "PathAccess_to_json p = JObject [(''path'', JString (pa_path p)), (''access'', json_strings (pa_access p))]"

definition PathAccess_from_json :: "json \<Rightarrow> PathAccess option" where
  "PathAccess_from_json v = do {
     fs \<leftarrow> struct_fields [''path'', ''access''] v;
     p \<leftarrow> string_of_json (fs ! 0);
     access \<leftarrow> vec_of_json string_of_json (fs ! 1);
     Some \<lparr>pa_path = p, pa_access = access\<rparr> }"

definition Capability_to_json :: "Capability \<Rightarrow> json" where
  "Capability_to_json c = JObject [
     (''target_vm'', JString (cap_target_vm c)),
     (''rpc_modules'', json_strings (cap_rpc_modules c)),
     (''rpc_methods'', json_strings (cap_rpc_methods c)),
     (''paths'', JArray (map PathAccess_to_json (cap_paths c)))]"

definition Capability_from_json :: "json \<Rightarrow> Capability option" where
  "Capability_from_json v = do {
     fs \<leftarrow> struct_fields [''target_vm'', ''rpc_modules'', ''rpc_methods'', ''paths''] v;
     vm \<leftarrow> string_of_json (fs ! 0);
     modules \<leftarrow> vec_of_json string_of_json (fs ! 1);
     methods \<leftarrow> vec_of_json string_of_json (fs ! 2);
     paths \<leftarrow> vec_of_json PathAccess_from_json (fs ! 3);
     Some \<lparr>cap_target_vm = vm, cap_rpc_modules = modules, cap_rpc_methods = methods, cap_paths = paths\<rparr> }"

definition CapClaim_to_json :: "CapClaim \<Rightarrow> json" where
  "CapClaim_to_json c = JObject [
     (''iss'', JString (cl_iss c)), (''sub'', JString (cl_sub c)), (''vm'', JString (cl_vm c)),
     (''cid'', JInt (uint (cl_cid c))), (''iat'', JInt (sint (cl_iat c))), (''exp'', JInt (sint (cl_exp c))),
     (''caps'', JArray (map Capability_to_json (cl_caps c)))]"

definition CapClaim_from_json :: "json \<Rightarrow> CapClaim option" where
  "CapClaim_from_json v = do {
     fs \<leftarrow> struct_fields [''iss'', ''sub'', ''vm'', ''cid'', ''iat'', ''exp'', ''caps''] v;
     issuer \<leftarrow> string_of_json (fs ! 0);
     subject \<leftarrow> string_of_json (fs ! 1);
     vm \<leftarrow> string_of_json (fs ! 2);
     cid \<leftarrow> u32_of_json (fs ! 3);
     issued \<leftarrow> i64_of_json (fs ! 4);
     expires \<leftarrow> i64_of_json (fs ! 5);
     caps \<leftarrow> vec_of_json Capability_from_json (fs ! 6);
     Some \<lparr>cl_iss = issuer, cl_sub = subject, cl_vm = vm, cl_cid = cid, cl_iat = issued, cl_exp = expires,
       cl_caps = caps\<rparr> }"

section \<open>Messages (wire.rs)\<close>

definition CertRequest_to_json :: "CertRequest \<Rightarrow> json" where
  "CertRequest_to_json r = JObject [
     (''version'', JInt (uint (rq_version r))), (''vm_name'', JString (rq_vm_name r)),
     (''entity'', JString (rq_entity r)), (''csr_pem'', JString (rq_csr_pem r))]"

definition CertRequest_from_json :: "json \<Rightarrow> CertRequest option" where
  "CertRequest_from_json v = do {
     fs \<leftarrow> struct_fields [''version'', ''vm_name'', ''entity'', ''csr_pem''] v;
     version \<leftarrow> u32_of_json (fs ! 0);
     vm_name \<leftarrow> string_of_json (fs ! 1);
     entity \<leftarrow> string_of_json (fs ! 2);
     csr_pem \<leftarrow> string_of_json (fs ! 3);
     Some \<lparr>rq_version = version, rq_vm_name = vm_name, rq_entity = entity, rq_csr_pem = csr_pem\<rparr> }"

text \<open>
  \<open>tag = "status"\<close> with \<open>rename_all = "lowercase"\<close>: the member \<open>status\<close> names the variant, the other
  members are its fields. Of an array the first element is the tag.
\<close>

definition CertResponse_to_json :: "CertResponse \<Rightarrow> json" where
  "CertResponse_to_json r = (case r of
     RespOk cert_pem ca_cert_pem \<Rightarrow> JObject [(''status'', JString ''ok''),
       (''cert_pem'', JString cert_pem), (''ca_cert_pem'', JString ca_cert_pem)]
   | RespError message \<Rightarrow> JObject [(''status'', JString ''error''), (''message'', JString message)])"

fun split_tag :: "string \<Rightarrow> json \<Rightarrow> (json \<times> json) option" where
  "split_tag tag (JObject kvs) =
     map_option (\<lambda>t. (t, JObject (filter (\<lambda>(k, _). k \<noteq> tag) kvs))) (json_member kvs tag)"
| "split_tag tag (JArray (t # vs)) = Some (t, JArray vs)"
| "split_tag tag _ = None"

definition CertResponse_from_json :: "json \<Rightarrow> CertResponse option" where
  "CertResponse_from_json v = do {
     (tag, content) \<leftarrow> split_tag ''status'' v;
     variant \<leftarrow> string_of_json tag;
     if variant = ''ok'' then do {
       fs \<leftarrow> struct_fields [''cert_pem'', ''ca_cert_pem''] content;
       cert_pem \<leftarrow> string_of_json (fs ! 0);
       ca_cert_pem \<leftarrow> string_of_json (fs ! 1);
       Some (RespOk cert_pem ca_cert_pem) }
     else if variant = ''error'' then do {
       fs \<leftarrow> struct_fields [''message''] content;
       message \<leftarrow> string_of_json (fs ! 0);
       Some (RespError message) }
     else None }"

section \<open>Encoders as serde records\<close>

definition json_encode :: "json_lib \<Rightarrow> ('a \<Rightarrow> json) \<Rightarrow> 'a \<Rightarrow> (string, string) res" where
  "json_encode P to_json x = Ok (json_print P (to_json x))"

definition json_decode :: "json_lib \<Rightarrow> (json \<Rightarrow> 'a option) \<Rightarrow> bytes \<Rightarrow> ('a, string) res" where
  "json_decode P from_json bs =
     rbind (json_parse P bs) (\<lambda>v. ok_or (json_mismatch P bs) (from_json v))"

definition json_serde :: "json_lib \<Rightarrow> ('a \<Rightarrow> json) \<Rightarrow> (json \<Rightarrow> 'a option) \<Rightarrow> 'a serde" where
  "json_serde P to_json from_json =
     \<lparr>to_vec = (\<lambda>x. rbind (json_encode P to_json x) (\<lambda>s. Ok (as_bytes s))),
      from_slice = json_decode P from_json\<rparr>"

definition CertRequest_serde :: "json_lib \<Rightarrow> CertRequest serde" where
  "CertRequest_serde P = json_serde P CertRequest_to_json CertRequest_from_json"

definition CertResponse_serde :: "json_lib \<Rightarrow> CertResponse serde" where
  "CertResponse_serde P = json_serde P CertResponse_to_json CertResponse_from_json"

section \<open>The contract of a derived encoder\<close>

text \<open>A derived encoder is a pair of functions of which the second undoes the first.\<close>

locale json_codec =
  fixes to_json :: "'a \<Rightarrow> json" and from_json :: "json \<Rightarrow> 'a option"
  assumes from_to: "from_json (to_json x) = Some x"
begin

lemma vec_from_to: "vec_of_json from_json (JArray (map to_json xs)) = Some xs"
  by (induction xs) (simp_all add: from_to)

lemma to_json_inj: "to_json x = to_json y \<longleftrightarrow> x = y"
  by (metis from_to option.inject)

text \<open>With a text that is read back, the byte encoder satisfies the law the protocol relies on.\<close>

lemma serde_law_json:
  "json_text_law P (to_json x) \<Longrightarrow>
     serde_law (json_serde P to_json from_json) x (as_bytes (json_print P (to_json x)))"
  by (simp add: serde_law_def json_serde_def json_encode_def json_decode_def json_text_law_def from_to)

lemma decode_encode:
  "json_text_law P (to_json x) \<Longrightarrow> json_encode P to_json x = Ok s \<Longrightarrow>
     json_decode P from_json (as_bytes s) = Ok x"
  by (auto simp: json_encode_def json_decode_def json_text_law_def from_to)

end

lemma i64_of_sint [simp]: "i64_of_json (JInt (sint w)) = Some w"
  using sint_range_size [of w] by (simp add: word_size)

lemma u32_of_uint [simp]: "u32_of_json (JInt (uint w)) = Some w"
  using uint_range_size [of w] by (simp add: word_size)

text \<open>The members of an object with distinct keys.\<close>

lemma json_member_simps [simp]:
  "json_member [] k = None"
  "json_member ((k, v) # kvs) k = (if k \<in> fst ` set kvs then None else Some v)"
  "k' \<noteq> k \<Longrightarrow> json_member ((k', v) # kvs) k = json_member kvs k"
proof -
  have "filter (\<lambda>(k', _). k' = k) kvs = [] \<longleftrightarrow> k \<notin> fst ` set kvs"
    by (force simp: filter_empty_conv)
  then show "json_member ((k, v) # kvs) k = (if k \<in> fst ` set kvs then None else Some v)"
    by (auto simp: json_member_def split: list.splits)
qed (simp_all add: json_member_def)

interpretation strings: json_codec JString string_of_json
  by unfold_locales simp

lemma vec_of_json_strings [simp]: "vec_of_json string_of_json (json_strings xs) = Some xs"
  unfolding json_strings_def by (rule strings.vec_from_to)

interpretation path_json: json_codec PathAccess_to_json PathAccess_from_json
  by unfold_locales (simp add: PathAccess_to_json_def PathAccess_from_json_def)

interpretation cap_json: json_codec Capability_to_json Capability_from_json
  by unfold_locales
    (simp add: Capability_to_json_def Capability_from_json_def path_json.vec_from_to del: vec_of_json.simps)

interpretation claim_json: json_codec CapClaim_to_json CapClaim_from_json
  by unfold_locales
    (simp add: CapClaim_to_json_def CapClaim_from_json_def cap_json.vec_from_to
      del: vec_of_json.simps u32_of_json.simps i64_of_json.simps)

interpretation request_json: json_codec CertRequest_to_json CertRequest_from_json
  by unfold_locales (simp add: CertRequest_to_json_def CertRequest_from_json_def del: u32_of_json.simps)

interpretation response_json: json_codec CertResponse_to_json CertResponse_from_json
proof
  show "CertResponse_from_json (CertResponse_to_json r) = Some r" for r
    by (cases r) (simp_all add: CertResponse_to_json_def CertResponse_from_json_def)
qed

section \<open>What is accepted\<close>

lemma json_member_other: "k \<noteq> t \<Longrightarrow> json_member (filter (\<lambda>(k', _). k' \<noteq> t) kvs) k = json_member kvs k"
proof -
  assume "k \<noteq> t"
  then have "filter (\<lambda>(k', _). k' = k) (filter (\<lambda>(k', _). k' \<noteq> t) kvs) = filter (\<lambda>(k', _). k' = k) kvs"
    by (induction kvs) auto
  then show ?thesis by (simp add: json_member_def)
qed

lemma json_member_absent: "k \<notin> fst ` set kvs \<Longrightarrow> json_member kvs k = None"
proof -
  assume "k \<notin> fst ` set kvs"
  then have "filter (\<lambda>(k', _). k' = k) kvs = []" by (force simp: filter_empty_conv)
  then show ?thesis by (simp add: json_member_def)
qed

lemma string_of_json_iff [simp]: "string_of_json v = Some s \<longleftrightarrow> v = JString s"
  by (cases v) simp_all

lemma those_None: "None \<in> set xs \<Longrightarrow> those xs = None"
  by (induction xs) (auto split: option.splits)

text \<open>An object without one of the fields is no struct.\<close>

lemma struct_fields_missing:
  assumes "\<not> set names \<subseteq> fst ` set kvs"
  shows "struct_fields names (JObject kvs) = None"
proof -
  from assms obtain k where "k \<in> set names" "k \<notin> fst ` set kvs" by blast
  then have "None \<in> set (map (json_member kvs) names)"
    using json_member_absent [of k kvs] by force
  then show ?thesis by (simp add: those_None)
qed

text \<open>
  The objects that are accepted for a struct: every field is a member, once, and of its type. A claim's
  reader is specified member by member, which is the form the second evaluator is compared with.
\<close>

definition json_field :: "(json \<Rightarrow> 'a option) \<Rightarrow> (string \<times> json) list \<Rightarrow> string \<Rightarrow> 'a option" where
  "json_field d kvs name = Option.bind (json_member kvs name) d"

lemma those_Cons_iff:
  "those (v # vs) = Some xs \<longleftrightarrow> (\<exists>y ys. v = Some y \<and> those vs = Some ys \<and> xs = y # ys)"
  by (auto split: option.splits)

lemmas object_reading = json_field_def bind_eq_Some_conv those_Cons_iff

lemma PathAccess_from_object:
  "PathAccess_from_json (JObject kvs) = Some p \<longleftrightarrow>
     json_field string_of_json kvs ''path'' = Some (pa_path p) \<and>
     json_field (vec_of_json string_of_json) kvs ''access'' = Some (pa_access p)"
  by (cases p) (auto simp: PathAccess_from_json_def object_reading simp del: those.simps(2) string_of_json_iff)

lemma Capability_from_object:
  "Capability_from_json (JObject kvs) = Some c \<longleftrightarrow>
     json_field string_of_json kvs ''target_vm'' = Some (cap_target_vm c) \<and>
     json_field (vec_of_json string_of_json) kvs ''rpc_modules'' = Some (cap_rpc_modules c) \<and>
     json_field (vec_of_json string_of_json) kvs ''rpc_methods'' = Some (cap_rpc_methods c) \<and>
     json_field (vec_of_json PathAccess_from_json) kvs ''paths'' = Some (cap_paths c)"
  by (cases c) (auto simp: Capability_from_json_def object_reading simp del: those.simps(2) string_of_json_iff)

lemma CapClaim_from_object:
  "CapClaim_from_json (JObject kvs) = Some c \<longleftrightarrow>
     json_field string_of_json kvs ''iss'' = Some (cl_iss c) \<and>
     json_field string_of_json kvs ''sub'' = Some (cl_sub c) \<and>
     json_field string_of_json kvs ''vm'' = Some (cl_vm c) \<and>
     json_field u32_of_json kvs ''cid'' = Some (cl_cid c) \<and>
     json_field i64_of_json kvs ''iat'' = Some (cl_iat c) \<and>
     json_field i64_of_json kvs ''exp'' = Some (cl_exp c) \<and>
     json_field (vec_of_json Capability_from_json) kvs ''caps'' = Some (cl_caps c)"
  by (cases c) (auto simp: CapClaim_from_json_def object_reading simp del: those.simps(2) string_of_json_iff)

lemma CertRequest_from_object:
  "CertRequest_from_json (JObject kvs) = Some r \<longleftrightarrow>
     json_field u32_of_json kvs ''version'' = Some (rq_version r) \<and>
     json_field string_of_json kvs ''vm_name'' = Some (rq_vm_name r) \<and>
     json_field string_of_json kvs ''entity'' = Some (rq_entity r) \<and>
     json_field string_of_json kvs ''csr_pem'' = Some (rq_csr_pem r)"
  by (cases r) (auto simp: CertRequest_from_json_def object_reading simp del: those.simps(2) string_of_json_iff)

lemma those_one [simp]: "those [a] = Some xs \<longleftrightarrow> (\<exists>x. a = Some x \<and> xs = [x])"
  by (auto split: option.split)

lemma response_ok:
  assumes "json_member kvs ''status'' = Some (JString ''ok'')"
  shows "CertResponse_from_json (JObject kvs) = Some r \<longleftrightarrow>
    (\<exists>cert ca. r = RespOk cert ca \<and> json_member kvs ''cert_pem'' = Some (JString cert) \<and>
       json_member kvs ''ca_cert_pem'' = Some (JString ca))"
proof -
  have "json_member (filter (\<lambda>(k', _). k' \<noteq> ''status'') kvs) ''cert_pem'' = json_member kvs ''cert_pem''"
    "json_member (filter (\<lambda>(k', _). k' \<noteq> ''status'') kvs) ''ca_cert_pem'' = json_member kvs ''ca_cert_pem''"
    by (simp_all add: json_member_other)
  then show ?thesis
    by (cases "json_member kvs ''cert_pem''"; cases "json_member kvs ''ca_cert_pem''")
      (auto simp: CertResponse_from_json_def assms bind_eq_Some_conv)
qed

lemma response_error:
  assumes "json_member kvs ''status'' = Some (JString ''error'')"
  shows "CertResponse_from_json (JObject kvs) = Some r \<longleftrightarrow>
    (\<exists>message. r = RespError message \<and> json_member kvs ''message'' = Some (JString message))"
proof -
  have "json_member (filter (\<lambda>(k', _). k' \<noteq> ''status'') kvs) ''message'' = json_member kvs ''message''"
    by (simp add: json_member_other)
  then show ?thesis
    by (cases "json_member kvs ''message''") (auto simp: CertResponse_from_json_def assms bind_eq_Some_conv)
qed

section \<open>Properties\<close>

text \<open>C21: every message survives its JSON form: the value that the derived encoder gives for a request, a
  response or a claim, whatever strings and numbers it holds, is decoded to that message, and no
  value of one of the three kinds is taken for a message of another kind.\<close>

theorem json_messages_roundtrip:
  "CertRequest_from_json (CertRequest_to_json q) = Some q \<and>
   CertResponse_from_json (CertResponse_to_json r) = Some r \<and>
   CapClaim_from_json (CapClaim_to_json c) = Some c \<and>
   CertRequest_from_json (CertResponse_to_json r) = None \<and> CertResponse_from_json (CertRequest_to_json q) = None \<and>
   CapClaim_from_json (CertResponse_to_json r) = None \<and> CertResponse_from_json (CapClaim_to_json c) = None \<and>
   CapClaim_from_json (CertRequest_to_json q) = None \<and> CertRequest_from_json (CapClaim_to_json c) = None"
proof (intro conjI)
  show "CertRequest_from_json (CertResponse_to_json r) = None"
    by (cases r) (simp_all add: CertRequest_from_json_def CertResponse_to_json_def json_member_absent)
  show "CapClaim_from_json (CertResponse_to_json r) = None"
    by (cases r) (simp_all add: CapClaim_from_json_def CertResponse_to_json_def json_member_absent)
  show "CertResponse_from_json (CertRequest_to_json q) = None" "CertResponse_from_json (CapClaim_to_json c) = None"
    by (simp_all add: CertResponse_from_json_def CertRequest_to_json_def CapClaim_to_json_def json_member_absent)
  show "CapClaim_from_json (CertRequest_to_json q) = None" "CertRequest_from_json (CapClaim_to_json c) = None"
    by (simp_all add: CapClaim_from_json_def CertRequest_from_json_def CertRequest_to_json_def
        CapClaim_to_json_def json_member_absent)
qed (rule request_json.from_to response_json.from_to claim_json.from_to)+

text \<open>C22: what an agent takes for an issued certificate and for an error: an object is the one or the other
  by its member \<open>status\<close> alone, which must be there once, and must have each field of its variant once
  and as a string; other members, also those of the other variant, count for nothing.\<close>

theorem response_decided_by_status:
  "CertResponse_from_json (JObject kvs) = Some r \<longleftrightarrow>
     (case r of
        RespOk cert_pem ca_cert_pem \<Rightarrow> json_member kvs ''status'' = Some (JString ''ok'') \<and>
          json_member kvs ''cert_pem'' = Some (JString cert_pem) \<and>
          json_member kvs ''ca_cert_pem'' = Some (JString ca_cert_pem)
      | RespError message \<Rightarrow> json_member kvs ''status'' = Some (JString ''error'') \<and>
          json_member kvs ''message'' = Some (JString message))"
proof (cases "json_member kvs ''status''")
  case None
  then show ?thesis by (simp add: CertResponse_from_json_def split: CertResponse.split)
next
  case (Some t)
  then show ?thesis
  proof (cases "t = JString ''ok'' \<or> t = JString ''error''")
    case True
    with Some show ?thesis by (auto simp: response_ok response_error split: CertResponse.split)
  next
    case False
    with Some have "CertResponse_from_json (JObject kvs) = None"
      by (cases t) (simp_all add: CertResponse_from_json_def)
    with False Some show ?thesis by (auto split: CertResponse.split)
  qed
qed

end
