(* ===== verification/Go_Json.thy ===== *)
theory Go_Json
  imports Go_Evaluator Json
begin

text \<open>
  How the two evaluators read the JSON of a claim. Rust's decoder is the derived one of \<open>Json\<close>; Go's is
  \<open>encoding/json\<close> on the structs of \<open>evaluator.go\<close>, whose field tags are the member names. The parser of
  the text is an argument of both. Shown: what the CA signs, both read as the same claim, and on any
  other payload Go holds no claim that differs from Rust's.
\<close>

section \<open>How encoding/json reads values\<close>

text \<open>
  An absent member and \<open>null\<close> leave the zero value. A number literal is read with \<open>strconv\<close>, for which
  \<open>-0\<close> is a signed zero. \<open>None\<close> is a value of the wrong type, an error of \<open>Unmarshal\<close>.
\<close>

fun go_string :: "json \<Rightarrow> string option" where
  "go_string (JString s) = Some s"
| "go_string JNull = Some []"
| "go_string _ = None"

fun go_uint32 :: "json \<Rightarrow> u32 option" where
  "go_uint32 (JInt n) = (if 0 \<le> n \<and> n < 2 ^ 32 then Some (of_int n) else None)"
| "go_uint32 JNull = Some 0"
| "go_uint32 _ = None"

fun go_int64 :: "json \<Rightarrow> 64 word option" where
  "go_int64 (JInt n) = (if - (2 ^ 63) \<le> n \<and> n < 2 ^ 63 then Some (of_int n) else None)"
| "go_int64 (JNumber lit) = (if lit = ''-0'' then Some 0 else None)"
| "go_int64 JNull = Some 0"
| "go_int64 _ = None"

fun go_slice_of :: "(json \<Rightarrow> 'a option) \<Rightarrow> json \<Rightarrow> 'a list option" where
  "go_slice_of d (JArray vs) = those (map d vs)"
| "go_slice_of d JNull = Some []"
| "go_slice_of d _ = None"

fun go_struct :: "json \<Rightarrow> (string \<times> json) list option" where
  "go_struct (JObject kvs) = Some kvs"
| "go_struct JNull = Some []"
| "go_struct _ = None"

text \<open>
  A member belongs to the field whose name is its key, or equals it when case is ignored. Besides the
  ASCII letters only two characters fold to one: U+017F (to S) and the Kelvin sign U+212A (to K).
\<close>

definition go_upper :: "char \<Rightarrow> char" where
  "go_upper c = (let n = (of_char c :: nat) in if 97 \<le> n \<and> n \<le> 122 then char_of (n - 32) else c)"

fun go_fold_name :: "string \<Rightarrow> string" where
  "go_fold_name [] = []"
| "go_fold_name (c # s) =
     (if c = CHR 0xC5 \<and> take 1 s = [CHR 0xBF] then CHR ''S'' # go_fold_name (drop 1 s)
      else if c = CHR 0xE2 \<and> take 2 s = [CHR 0x84, CHR 0xAA] then CHR ''K'' # go_fold_name (drop 2 s)
      else go_upper c # go_fold_name s)"

definition go_member :: "(json \<Rightarrow> 'a option) \<Rightarrow> string \<Rightarrow> (string \<times> json) list \<Rightarrow> 'a option" where
  "go_member d name kvs =
     (case filter (\<lambda>(k, _). go_fold_name k = go_fold_name name) kvs of
        [] \<Rightarrow> d JNull
      | (_, v) # _ \<Rightarrow> d v)"

text \<open>No object inside the value has two members that could mean the same field.\<close>

primrec unambiguous :: "json \<Rightarrow> bool" where
  "unambiguous JNull = True"
| "unambiguous (JBool b) = True"
| "unambiguous (JInt n) = True"
| "unambiguous (JNumber lit) = True"
| "unambiguous (JString s) = True"
| "unambiguous (JArray vs) = list_all (\<lambda>ok. ok) (map unambiguous vs)"
| "unambiguous (JObject kvs) =
     (distinct (map (\<lambda>(k, _). go_fold_name k) kvs) \<and> list_all snd (map (map_prod id unambiguous) kvs))"

section \<open>The structs of evaluator.go\<close>

definition GoPathAccess_from_json :: "json \<Rightarrow> GoPathAccess option" where
  "GoPathAccess_from_json v = do {
     kvs \<leftarrow> go_struct v;
     p \<leftarrow> go_member go_string ''path'' kvs;
     access \<leftarrow> go_member (go_slice_of go_string) ''access'' kvs;
     Some \<lparr>gp_path = p, gp_access = access\<rparr> }"

definition GoCapability_from_json :: "json \<Rightarrow> GoCapability option" where
  "GoCapability_from_json v = do {
     kvs \<leftarrow> go_struct v;
     vm \<leftarrow> go_member go_string ''target_vm'' kvs;
     modules \<leftarrow> go_member (go_slice_of go_string) ''rpc_modules'' kvs;
     methods \<leftarrow> go_member (go_slice_of go_string) ''rpc_methods'' kvs;
     paths \<leftarrow> go_member (go_slice_of GoPathAccess_from_json) ''paths'' kvs;
     Some \<lparr>gt_target_vm = vm, gt_rpc_modules = modules, gt_rpc_methods = methods, gt_paths = paths\<rparr> }"

definition GoCapClaim_from_json :: "json \<Rightarrow> GoCapClaim option" where
  "GoCapClaim_from_json v = do {
     kvs \<leftarrow> go_struct v;
     issuer \<leftarrow> go_member go_string ''iss'' kvs;
     subject \<leftarrow> go_member go_string ''sub'' kvs;
     vm \<leftarrow> go_member go_string ''vm'' kvs;
     cid \<leftarrow> go_member go_uint32 ''cid'' kvs;
     issued \<leftarrow> go_member go_int64 ''iat'' kvs;
     expires \<leftarrow> go_member go_int64 ''exp'' kvs;
     caps \<leftarrow> go_member (go_slice_of GoCapability_from_json) ''caps'' kvs;
     Some \<lparr>gl_iss = issuer, gl_sub = subject, gl_vm = vm, gl_cid = cid, gl_iat = issued, gl_exp = expires,
       gl_caps = caps\<rparr> }"

text \<open>
  \<open>json.Unmarshal\<close> of a claim. With an ambiguous object it decodes the later member into what the
  earlier one left in memory; what comes out then is an argument, \<open>gj_ambiguous\<close>.
\<close>

record go_json =
  gj_parse :: "bytes \<Rightarrow> string + json"
  gj_type_error :: "bytes \<Rightarrow> string"
  gj_ambiguous :: "json \<Rightarrow> string + GoCapClaim"

definition go_unmarshal :: "go_json \<Rightarrow> bytes \<Rightarrow> string + GoCapClaim" where
  "go_unmarshal Q bs =
     (case gj_parse Q bs of
        Inl e \<Rightarrow> Inl e
      | Inr v \<Rightarrow>
          if \<not> unambiguous v then gj_ambiguous Q v
          else (case GoCapClaim_from_json v of None \<Rightarrow> Inl (gj_type_error Q bs) | Some g \<Rightarrow> Inr g))"

section \<open>The libraries with these decoders\<close>

definition jwt_with_json :: "json_lib \<Rightarrow> 'k jwt_lib \<Rightarrow> 'k jwt_lib" where
  "jwt_with_json P L = L\<lparr>claim_to_string := json_encode P CapClaim_to_json,
     claim_from_slice := json_decode P CapClaim_from_json\<rparr>"

definition go_with_json :: "go_json \<Rightarrow> 'pk go_lib \<Rightarrow> 'pk go_lib" where
  "go_with_json Q G = G\<lparr>go_claim_unmarshal := go_unmarshal Q\<rparr>"

section \<open>Members of an unambiguous object\<close>

lemma filter_key_unique: "distinct (map f xs) \<Longrightarrow> x \<in> set xs \<Longrightarrow> filter (\<lambda>y. f y = f x) xs = [x]"
proof (induction xs)
  case (Cons z zs)
  then show ?case
  proof (cases "x = z")
    case True
    with Cons.prems have "\<forall>y \<in> set zs. f y \<noteq> f x" by (auto simp: image_iff)
    then have "filter (\<lambda>y. f y = f x) zs = []" by (simp add: filter_empty_conv)
    with True show ?thesis by simp
  next
    case False
    with Cons.prems have "f z \<noteq> f x" by auto
    with False Cons show ?thesis by simp
  qed
qed simp

lemma json_member_in: "json_member kvs k = Some v \<Longrightarrow> (k, v) \<in> set kvs"
proof -
  assume "json_member kvs k = Some v"
  then obtain k' where "filter (\<lambda>(k', _). k' = k) kvs = [(k', v)]"
    by (auto simp: json_member_def split: list.splits)
  then have "(k', v) \<in> set (filter (\<lambda>(k', _). k' = k) kvs)" by (metis list.set_intros(1))
  then show ?thesis by auto
qed

lemma unambiguous_in: "unambiguous (JObject kvs) \<Longrightarrow> (k, v) \<in> set kvs \<Longrightarrow> unambiguous v"
  by (force simp: list_all_iff)

lemma go_member_found:
  assumes "unambiguous (JObject kvs)" and "json_member kvs name = Some v"
  shows "go_member g name kvs = g v" and "unambiguous v"
proof -
  have at: "(name, v) \<in> set kvs" using assms(2) by (rule json_member_in)
  have "filter (\<lambda>(k, _). go_fold_name k = go_fold_name name) kvs =
      filter (\<lambda>y. (\<lambda>(k, _). go_fold_name k) y = (\<lambda>(k, _). go_fold_name k) (name, v)) kvs"
    by (rule filter_cong) auto
  also have "\<dots> = [(name, v)]"
    using assms(1) at by (intro filter_key_unique) simp_all
  finally show "go_member g name kvs = g v" by (simp add: go_member_def)
  show "unambiguous v" using assms(1) at by (rule unambiguous_in)
qed

section \<open>Two readers of one value\<close>

text \<open>
  The contract of a Go reader towards the Rust reader of the same field: on an unambiguous value that
  both accept, what Go holds stands for what Rust holds.
\<close>

locale reads_alike =
  fixes rust :: "json \<Rightarrow> 'a option" and go :: "json \<Rightarrow> 'b option" and conv :: "'b \<Rightarrow> 'a"
  assumes alike: "unambiguous v \<Longrightarrow> rust v = Some x \<Longrightarrow> go v = Some y \<Longrightarrow> conv y = x"
begin

lemma slices_alike:
  assumes "unambiguous v" and "vec_of_json rust v = Some xs" and "go_slice_of go v = Some ys"
  shows "map conv ys = xs"
proof -
  from assms(2) obtain vs where v: "v = JArray vs" by (cases v) auto
  from assms(1) have "list_all unambiguous vs" by (simp add: v list_all_iff)
  moreover from assms(2,3) have "those (map rust vs) = Some xs" "those (map go vs) = Some ys"
    by (simp_all add: v)
  ultimately show ?thesis
    by (induction vs arbitrary: xs ys) (auto split: option.splits simp: alike)
qed

lemma members_alike:
  assumes "unambiguous (JObject kvs)" and "json_field rust kvs name = Some x"
    and "go_member go name kvs = Some y"
  shows "conv y = x"
proof -
  from assms(2) obtain v where v: "json_member kvs name = Some v" "rust v = Some x"
    by (auto simp: json_field_def bind_eq_Some_conv)
  then have "go v = Some y" using assms(3) go_member_found(1) [OF assms(1) v(1), of go] by simp
  with go_member_found(2) [OF assms(1) v(1)] v(2) show ?thesis by (rule alike)
qed

end

interpretation alike_string: reads_alike string_of_json go_string "\<lambda>s. s"
  by unfold_locales simp

interpretation alike_u32: reads_alike u32_of_json go_uint32 "\<lambda>n. n"
proof
  show "unambiguous v \<Longrightarrow> u32_of_json v = Some x \<Longrightarrow> go_uint32 v = Some y \<Longrightarrow> y = x" for v x y
    by (cases v) (simp_all split: if_splits)
qed

interpretation alike_i64: reads_alike i64_of_json go_int64 "\<lambda>n. n"
proof
  show "unambiguous v \<Longrightarrow> i64_of_json v = Some x \<Longrightarrow> go_int64 v = Some y \<Longrightarrow> y = x" for v x y
    by (cases v) (simp_all split: if_splits)
qed

interpretation alike_strings: reads_alike "vec_of_json string_of_json" "go_slice_of go_string" "\<lambda>xs. xs"
  by unfold_locales (use alike_string.slices_alike in simp)

text \<open>The structs: both read members, and the members agree.\<close>

lemmas go_objects = GoPathAccess_from_json_def GoCapability_from_json_def GoCapClaim_from_json_def

lemma both_objects:
  assumes "struct_fields names v = Some fs" and "go_struct v = Some kvs"
  shows "v = JObject kvs"
  using assms by (cases v) simp_all

interpretation alike_path: reads_alike PathAccess_from_json GoPathAccess_from_json path_access_of_go
proof
  fix v x y
  assume v: "unambiguous v" "PathAccess_from_json v = Some x" "GoPathAccess_from_json v = Some y"
  then obtain kvs where kvs: "v = JObject kvs"
    by (auto simp: PathAccess_from_json_def go_objects bind_eq_Some_conv dest: both_objects)
  note rust = v(2) [unfolded kvs PathAccess_from_object]
  have go: "go_member go_string ''path'' kvs = Some (gp_path y)"
    "go_member (go_slice_of go_string) ''access'' kvs = Some (gp_access y)"
    using v(3) by (auto simp: kvs go_objects bind_eq_Some_conv)
  show "path_access_of_go y = x"
    using alike_string.members_alike [OF v(1) [unfolded kvs] conjunct1 [OF rust] go(1)]
      alike_strings.members_alike [OF v(1) [unfolded kvs] conjunct2 [OF rust] go(2)]
    by (simp add: path_access_of_go_def)
qed

interpretation alike_paths: reads_alike "vec_of_json PathAccess_from_json"
  "go_slice_of GoPathAccess_from_json" "map path_access_of_go"
  by unfold_locales (rule alike_path.slices_alike)

interpretation alike_cap: reads_alike Capability_from_json GoCapability_from_json capability_of_go
proof
  fix v x y
  assume v: "unambiguous v" "Capability_from_json v = Some x" "GoCapability_from_json v = Some y"
  then obtain kvs where kvs: "v = JObject kvs"
    by (auto simp: Capability_from_json_def go_objects bind_eq_Some_conv dest: both_objects)
  note rust = v(2) [unfolded kvs Capability_from_object] and clear = v(1) [unfolded kvs]
  have go: "go_member go_string ''target_vm'' kvs = Some (gt_target_vm y)"
    "go_member (go_slice_of go_string) ''rpc_modules'' kvs = Some (gt_rpc_modules y)"
    "go_member (go_slice_of go_string) ''rpc_methods'' kvs = Some (gt_rpc_methods y)"
    "go_member (go_slice_of GoPathAccess_from_json) ''paths'' kvs = Some (gt_paths y)"
    using v(3) by (auto simp: kvs go_objects bind_eq_Some_conv)
  have "gt_target_vm y = cap_target_vm x"
    using alike_string.members_alike [OF clear _ go(1)] rust by blast
  moreover have "gt_rpc_modules y = cap_rpc_modules x"
    using alike_strings.members_alike [OF clear _ go(2)] rust by blast
  moreover have "gt_rpc_methods y = cap_rpc_methods x"
    using alike_strings.members_alike [OF clear _ go(3)] rust by blast
  moreover have "map path_access_of_go (gt_paths y) = cap_paths x"
    using alike_paths.members_alike [OF clear _ go(4)] rust by blast
  ultimately show "capability_of_go y = x" by (simp add: capability_of_go_def)
qed

interpretation alike_caps: reads_alike "vec_of_json Capability_from_json"
  "go_slice_of GoCapability_from_json" "map capability_of_go"
  by unfold_locales (rule alike_cap.slices_alike)

interpretation alike_claim: reads_alike CapClaim_from_json GoCapClaim_from_json claim_of_go
proof
  fix v x y
  assume v: "unambiguous v" "CapClaim_from_json v = Some x" "GoCapClaim_from_json v = Some y"
  then obtain kvs where kvs: "v = JObject kvs"
    by (auto simp: CapClaim_from_json_def go_objects bind_eq_Some_conv dest: both_objects)
  note rust = v(2) [unfolded kvs CapClaim_from_object] and clear = v(1) [unfolded kvs]
  have go: "go_member go_string ''iss'' kvs = Some (gl_iss y)"
    "go_member go_string ''sub'' kvs = Some (gl_sub y)" "go_member go_string ''vm'' kvs = Some (gl_vm y)"
    "go_member go_uint32 ''cid'' kvs = Some (gl_cid y)"
    "go_member go_int64 ''iat'' kvs = Some (gl_iat y)" "go_member go_int64 ''exp'' kvs = Some (gl_exp y)"
    "go_member (go_slice_of GoCapability_from_json) ''caps'' kvs = Some (gl_caps y)"
    using v(3) by (auto simp: kvs go_objects bind_eq_Some_conv)
  have "gl_iss y = cl_iss x" "gl_sub y = cl_sub x" "gl_vm y = cl_vm x"
    using alike_string.members_alike [OF clear _ go(1)] alike_string.members_alike [OF clear _ go(2)]
      alike_string.members_alike [OF clear _ go(3)] rust by blast+
  moreover have "gl_cid y = cl_cid x" using alike_u32.members_alike [OF clear _ go(4)] rust by blast
  moreover have "gl_iat y = cl_iat x" "gl_exp y = cl_exp x"
    using alike_i64.members_alike [OF clear _ go(5)] alike_i64.members_alike [OF clear _ go(6)] rust by blast+
  moreover have "map capability_of_go (gl_caps y) = cl_caps x"
    using alike_caps.members_alike [OF clear _ go(7)] rust by blast
  ultimately show "claim_of_go y = x" by (simp add: claim_of_go_def)
qed

section \<open>Go reads what Rust writes\<close>

text \<open>The keys that the derived encoders write are told apart by Go, and hence read one by one.\<close>

lemma fold_keys:
  "distinct (map go_fold_name [''path'', ''access''])"
  "distinct (map go_fold_name [''target_vm'', ''rpc_modules'', ''rpc_methods'', ''paths''])"
  "distinct (map go_fold_name [''iss'', ''sub'', ''vm'', ''cid'', ''iat'', ''exp'', ''caps''])"
  by code_simp+

lemma unambiguous_strings [simp]: "unambiguous (json_strings xs)"
  by (simp add: json_strings_def list_all_iff)

lemma unambiguous_path [simp]: "unambiguous (PathAccess_to_json p)"
  using fold_keys(1) by (simp add: PathAccess_to_json_def del: go_fold_name.simps)

lemma unambiguous_cap [simp]: "unambiguous (Capability_to_json c)"
  using fold_keys(2) by (simp add: Capability_to_json_def list_all_iff del: go_fold_name.simps)

lemma unambiguous_claim [simp]: "unambiguous (CapClaim_to_json c)"
  using fold_keys(3) by (simp add: CapClaim_to_json_def list_all_iff del: go_fold_name.simps)

text \<open>A member of an object that Rust wrote, read by Go.\<close>

lemma go_reads_member:
  assumes "unambiguous (JObject kvs)"
  shows "json_member kvs name = Some (JString s) \<Longrightarrow> go_member go_string name kvs = Some s"
    and "json_member kvs name = Some (json_strings xs) \<Longrightarrow> go_member (go_slice_of go_string) name kvs = Some xs"
    and "json_member kvs name = Some (JInt n) \<Longrightarrow> go_member go_uint32 name kvs = u32_of_json (JInt n)"
    and "json_member kvs name = Some (JInt n) \<Longrightarrow> go_member go_int64 name kvs = i64_of_json (JInt n)"
    and "json_member kvs name = Some (JArray vs) \<Longrightarrow> go_member (go_slice_of d) name kvs = vec_of_json d (JArray vs)"
proof -
  have "go_slice_of go_string (json_strings xs) = Some xs"
    by (induction xs) (simp_all add: json_strings_def)
  then show "json_member kvs name = Some (json_strings xs) \<Longrightarrow> go_member (go_slice_of go_string) name kvs = Some xs"
    by (simp add: go_member_found(1) [OF assms])
qed (simp_all add: go_member_found(1) [OF assms])

lemma claim_of_go_fields:
  "cl_iss (claim_of_go k) = gl_iss k" "cl_sub (claim_of_go k) = gl_sub k" "cl_vm (claim_of_go k) = gl_vm k"
  "cl_cid (claim_of_go k) = gl_cid k" "cl_iat (claim_of_go k) = gl_iat k" "cl_exp (claim_of_go k) = gl_exp k"
  by (simp_all add: claim_of_go_def)

lemmas written = of_go_simps claim_of_go_fields map_map

interpretation go_path_json: json_codec "\<lambda>g. PathAccess_to_json (path_access_of_go g)" GoPathAccess_from_json
proof
  fix g
  have "unambiguous (PathAccess_to_json (path_access_of_go g))" by simp
  note read = go_reads_member [OF this [unfolded PathAccess_to_json_def written]]
  show "GoPathAccess_from_json (PathAccess_to_json (path_access_of_go g)) = Some g"
    unfolding PathAccess_to_json_def written by (simp add: GoPathAccess_from_json_def read)
qed

interpretation go_cap_json: json_codec "\<lambda>g. Capability_to_json (capability_of_go g)" GoCapability_from_json
proof
  fix g
  have "unambiguous (Capability_to_json (capability_of_go g))" by simp
  note read = go_reads_member [OF this [unfolded Capability_to_json_def written]]
  have paths: "vec_of_json GoPathAccess_from_json (JArray (map (PathAccess_to_json \<circ> path_access_of_go) ps)) = Some ps"
    for ps using go_path_json.vec_from_to [of ps] by (simp add: comp_def)
  show "GoCapability_from_json (Capability_to_json (capability_of_go g)) = Some g"
    unfolding Capability_to_json_def written by (simp add: GoCapability_from_json_def read paths del: vec_of_json.simps)
qed

interpretation go_claim_json: json_codec "\<lambda>g. CapClaim_to_json (claim_of_go g)" GoCapClaim_from_json
proof
  fix g
  have "unambiguous (CapClaim_to_json (claim_of_go g))" by simp
  note read = go_reads_member [OF this [unfolded CapClaim_to_json_def written]]
  have caps: "vec_of_json GoCapability_from_json (JArray (map (Capability_to_json \<circ> capability_of_go) cs)) = Some cs"
    for cs using go_cap_json.vec_from_to [of cs] by (simp add: comp_def)
  show "GoCapClaim_from_json (CapClaim_to_json (claim_of_go g)) = Some g"
    unfolding CapClaim_to_json_def written by (simp add: GoCapClaim_from_json_def read caps
        del: vec_of_json.simps u32_of_json.simps i64_of_json.simps)
qed

section \<open>The laws of the claim's decoders, from the text alone\<close>

text \<open>Go's parser reads the text that Rust printed of \<open>v\<close> as \<open>v\<close>.\<close>

definition go_text_law :: "go_json \<Rightarrow> json_lib \<Rightarrow> json \<Rightarrow> bool" where
  "go_text_law Q P v \<longleftrightarrow> gj_parse Q (as_bytes (json_print P v)) = Inr v"

lemma jwt_with_json_simps [simp]:
  "b64_encode (jwt_with_json P L) = b64_encode L" "b64_decode (jwt_with_json P L) = b64_decode L"
  "ring_from_pkcs8 (jwt_with_json P L) = ring_from_pkcs8 L" "ring_sign (jwt_with_json P L) = ring_sign L"
  "ring_verify (jwt_with_json P L) = ring_verify L"
  "claim_to_string (jwt_with_json P L) = json_encode P CapClaim_to_json"
  "claim_from_slice (jwt_with_json P L) = json_decode P CapClaim_from_json"
  by (simp_all add: jwt_with_json_def)

lemma claim_json_law_text:
  assumes "json_text_law P (CapClaim_to_json c)"
  shows "claim_json_law (jwt_with_json P L) c (json_print P (CapClaim_to_json c))"
proof -
  have "json_encode P CapClaim_to_json c = Ok (json_print P (CapClaim_to_json c))"
    by (simp add: json_encode_def)
  with claim_json.decode_encode [OF assms] show ?thesis by (simp add: claim_json_law_def)
qed

lemma claim_of_go_surj: "\<exists>g. claim_of_go g = c"
proof
  define pa where "pa p = \<lparr>gp_path = pa_path p, gp_access = pa_access p\<rparr>" for p :: PathAccess
  define cap where "cap k = \<lparr>gt_target_vm = cap_target_vm k, gt_rpc_modules = cap_rpc_modules k,
    gt_rpc_methods = cap_rpc_methods k, gt_paths = map pa (cap_paths k)\<rparr>" for k :: Capability
  have "path_access_of_go \<circ> pa = id" by (auto simp: pa_def path_access_of_go_def)
  then have "capability_of_go \<circ> cap = id" by (auto simp: cap_def capability_of_go_def)
  then show "claim_of_go \<lparr>gl_iss = cl_iss c, gl_sub = cl_sub c, gl_vm = cl_vm c, gl_cid = cl_cid c,
      gl_iat = cl_iat c, gl_exp = cl_exp c, gl_caps = map cap (cl_caps c)\<rparr> = c"
    by (simp add: claim_of_go_def)
qed

lemma go_claim_law_text:
  assumes "json_text_law P (CapClaim_to_json c)" and "go_text_law Q P (CapClaim_to_json c)"
  shows "go_claim_law (go_with_json Q G) (jwt_with_json P L) (json_print P (CapClaim_to_json c)) c"
proof -
  obtain g where g: "claim_of_go g = c" using claim_of_go_surj [of c] by blast
  have "go_unmarshal Q (as_bytes (json_print P (CapClaim_to_json c))) = Inr g"
    using assms(2) go_claim_json.from_to [of g] by (simp add: go_unmarshal_def go_text_law_def g)
  moreover have "claim_from_slice (jwt_with_json P L) (as_bytes (json_print P (CapClaim_to_json c))) = Ok c"
    using claim_json_law_text [OF assms(1)] by (simp add: claim_json_law_def)
  ultimately show ?thesis using g by (auto simp: go_claim_law_def go_with_json_def)
qed

text \<open>
  The two parsers read a text that both accept as the same value. (RFC 8259 leaves no choice there: what
  they treat differently, such as bytes that are not UTF-8 or lone surrogates, serde_json refuses.)
\<close>

definition json_parsers_alike :: "json_lib \<Rightarrow> go_json \<Rightarrow> bool" where
  "json_parsers_alike P Q \<longleftrightarrow>
     (\<forall>bs v w. json_parse P bs = Ok v \<longrightarrow> gj_parse Q bs = Inr w \<longrightarrow> v = w)"

lemma decoded_alike:
  assumes "json_parsers_alike P Q" and "\<And>v. json_parse P payload = Ok v \<Longrightarrow> unambiguous v"
    and "claim_from_slice (jwt_with_json P L) payload = Ok c"
    and "go_claim_unmarshal (go_with_json Q G) payload = Inr g"
  shows "claim_of_go g = c"
proof -
  from assms(3) obtain v where v: "json_parse P payload = Ok v" "CapClaim_from_json v = Some c"
    by (auto simp: json_decode_def rbind_Ok_iff)
  from assms(4) obtain w where w: "gj_parse Q payload = Inr w"
    by (auto simp: go_with_json_def go_unmarshal_def split: sum.splits)
  with assms(1) v(1) have "w = v" by (auto simp: json_parsers_alike_def)
  with w assms(2,4) v(1) have "GoCapClaim_from_json v = Some g"
    by (simp add: go_with_json_def go_unmarshal_def split: option.splits)
  with alike_claim.alike [OF assms(2) [OF v(1)] v(2)] show ?thesis by simp
qed

text \<open>The other laws do not concern the claim's JSON.\<close>

lemma laws_with_json [simp]:
  "base64_law (jwt_with_json P L) = base64_law L"
  "signature_law (jwt_with_json P L) kp pk = signature_law L kp pk"
  "go_base64_law (go_with_json Q G) (jwt_with_json P L) = go_base64_law G L"
  "base64_alike (go_with_json Q G) (jwt_with_json P L) = base64_alike G L"
  "go_der_law (go_with_json Q G) = go_der_law G"
  "go_signature_law (go_with_json Q G) (jwt_with_json P L) kp gpk = go_signature_law G L kp gpk"
  "go_trusted_key (go_with_json Q G) ca gpk = go_trusted_key G ca gpk"
  "go_parses_issued (go_with_json Q G) R env csr jwt days = go_parses_issued G R env csr jwt days"
  by (simp_all add: base64_law_def signature_law_def go_base64_law_def base64_alike_def go_der_law_def go_signature_law_def
      go_trusted_key_def go_parses_issued_def go_with_json_def)

section \<open>A concrete text for the witnesses\<close>

text \<open>The text \<open>{}\<close> stands for the one claim that the sample key signs.\<close>

definition sample_json_lib :: json_lib where
  "sample_json_lib = \<lparr>json_print = (\<lambda>_. ''{}''), json_parse = (\<lambda>_. Ok (CapClaim_to_json sample_claim)),
     json_mismatch = (\<lambda>_. ''invalid type'')\<rparr>"

definition sample_go_json :: go_json where
  "sample_go_json = \<lparr>gj_parse = (\<lambda>_. Inr (CapClaim_to_json sample_claim)),
     gj_type_error = (\<lambda>_. ''cannot unmarshal''), gj_ambiguous = (\<lambda>_. Inl ''ambiguous'')\<rparr>"

lemma sample_texts:
  "json_text_law sample_json_lib (CapClaim_to_json sample_claim)"
  "go_text_law sample_go_json sample_json_lib (CapClaim_to_json sample_claim)"
  by (simp_all add: json_text_law_def go_text_law_def sample_json_lib_def sample_go_json_def)

lemma sample_with_json: "jwt_with_json sample_json_lib (sample_jwt_lib sample_claim) = sample_jwt_lib sample_claim"
proof -
  have "json_encode sample_json_lib CapClaim_to_json = (\<lambda>_. Ok ''{}'')"
    "json_decode sample_json_lib CapClaim_from_json = (\<lambda>_. Ok sample_claim)"
    by (simp_all add: fun_eq_iff json_encode_def json_decode_def sample_json_lib_def claim_json.from_to)
  then show ?thesis by (simp add: jwt_with_json_def sample_jwt_lib_def)
qed

lemma sample_go_unmarshal: "go_unmarshal sample_go_json bs = Inr sample_go_claim"
  using go_claim_json.from_to [of sample_go_claim]
  by (simp add: go_unmarshal_def sample_go_json_def sample_go_claim_of)

lemma sample_parsers_alike: "json_parsers_alike sample_json_lib sample_go_json"
  by (simp add: json_parsers_alike_def sample_json_lib_def sample_go_json_def)

lemma sample_go_with_json:
  "NewEvaluator (go_with_json sample_go_json sample_go_lib) peer ca = NewEvaluator sample_go_lib peer ca"
proof -
  have "go_unmarshal sample_go_json = (\<lambda>_. Inr sample_go_claim)" by (simp add: fun_eq_iff sample_go_unmarshal)
  then have "go_with_json sample_go_json sample_go_lib = sample_go_lib"
    by (simp add: go_with_json_def sample_go_lib_def)
  then show ?thesis by simp
qed

section \<open>Properties\<close>

text \<open>C14: whatever payload the CA's key might sign, the evaluators cannot be made to hold different claims by
  its JSON: when both decoders accept the same bytes, also with members in another order, with unknown
  members, or with values that only one encoder would write, Go's claim stands for Rust's, field by
  field. The one exception is an object in which two keys equal up to case mean one field for Go.\<close>

theorem decoders_hold_same_claim:
  assumes "json_parse P payload = Ok v" and "gj_parse Q payload = Inr v" and "unambiguous v"
    and "claim_from_slice (jwt_with_json P L) payload = Ok c"
    and "go_claim_unmarshal (go_with_json Q G) payload = Inr g"
  shows "claim_of_go g = c"
proof -
  have "CapClaim_from_json v = Some c" using assms(1,4) by (simp add: json_decode_def)
  moreover have "GoCapClaim_from_json v = Some g"
    using assms(2,3,5) by (simp add: go_with_json_def go_unmarshal_def split: option.splits)
  ultimately show ?thesis using alike_claim.alike [OF assms(3)] by blast
qed

theorem decoders_hold_same_claim_witness:
  "claim_of_go sample_go_claim = sample_claim"
proof (rule decoders_hold_same_claim [where P = sample_json_lib and Q = sample_go_json and payload = "[123, 125]"
      and L = "sample_jwt_lib sample_claim" and G = sample_go_lib and v = "CapClaim_to_json sample_claim"])
  show "claim_from_slice (jwt_with_json sample_json_lib (sample_jwt_lib sample_claim)) [123, 125] = Ok sample_claim"
    by (simp only: sample_with_json sample_jwt_lib_simps)
  show "go_claim_unmarshal (go_with_json sample_go_json sample_go_lib) [123, 125] = Inr sample_go_claim"
    by (simp add: go_with_json_def sample_go_unmarshal)
qed (simp_all add: sample_json_lib_def sample_go_json_def)

text \<open>C13: on a certificate the CA signed, the two evaluators accept, hold the same claim and give the same
  answers, with the decoders that the two languages derive from the structs of the source: of the
  JSON libraries it is assumed only that the text of the signed claim is read back.\<close>

theorem issued_claim_read_alike:
  assumes "sign_csr (jwt_with_json P L) R env ca req = Ok pem" "env_now env = Ok secs"
    and "from_pkcs8_der (jwt_with_json P L) (env_rng env) (ca_key_der ca) = Ok signer"
    and "jwt_sign (jwt_with_json P L) signer (cap_claim secs req) = Ok jwt"
    and "rg_csr_from_pem R (sr_csr_pem req) = Ok csr"
    and "base64_law L" "go_base64_law G L" "go_der_law G"
    and "signature_law L (js_key_pair signer) pk" "go_signature_law G L (js_key_pair signer) gpk"
    and "json_text_law P (CapClaim_to_json (cap_claim secs req))"
      "go_text_law Q P (CapClaim_to_json (cap_claim secs req))"
    and "trusted_key X ca_pem pk" "go_trusted_key G (as_bytes ca_pem) gpk"
    and "parses_issued X R env csr jwt (sr_validity_days req)"
    and "go_parses_issued G R env csr jwt (sr_validity_days req)"
    and "\<forall>e \<in> set (cp_custom_extensions (cs_params csr)). ce_oid e \<noteq> CAP_EXTENSION_OID"
    and "length jwt < 65536"
  shows "\<exists>ev e. from_cert_pem (jwt_with_json P L) X pem ca_pem = Ok ev \<and>
    NewEvaluator (go_with_json Q G) (as_bytes pem) (as_bytes ca_pem) = Ok e \<and>
    ev_claim ev = cap_claim secs req \<and> claim_of_go (ge_claim e) = cap_claim secs req \<and>
    (\<forall>vm module meth. CanCallRpc e vm module meth = can_call_rpc ev vm module meth) \<and>
    (\<forall>vm p access_mode. CanAccessPath e vm p access_mode = can_access_path ev vm p access_mode)"
proof -
  let ?L = "jwt_with_json P L" and ?G = "go_with_json Q G"
  note json = claim_json_law_text [OF assms(11), of L] go_claim_law_text [OF assms(11,12), of G L]
  have lib: "base64_law ?L" "go_base64_law ?G ?L" "go_signature_law ?G ?L (js_key_pair signer) gpk"
    "signature_law ?L (js_key_pair signer) pk" "go_der_law ?G" "go_trusted_key ?G (as_bytes ca_pem) gpk"
    "go_parses_issued ?G R env csr jwt (sr_validity_days req)"
    using assms by simp_all
  have "claim_to_string ?L (cap_claim secs req) = Ok (json_print P (CapClaim_to_json (cap_claim secs req)))"
    using json(1) by (simp add: claim_json_law_def)
  from go_evaluates_issued [OF assms(1-5) lib(1-3) this json(2) lib(5-7) assms(17,18)]
  obtain e where e: "NewEvaluator ?G (as_bytes pem) (as_bytes ca_pem) = Ok e"
    "evaluator_of_go e = \<lparr>ev_claim = cap_claim secs req\<rparr>"
    by blast
  note ev = issued_certificate_evaluates [OF assms(1-5) lib(1) json(1) lib(4) assms(13,15,17,18)]
  from e(2) have "claim_of_go (ge_claim e) = cap_claim secs req" by (simp add: evaluator_of_go_def)
  with e(1) ev answers_same [of e, unfolded e(2)] show ?thesis by auto
qed

theorem issued_claim_read_alike_witness:
  "\<exists>e. NewEvaluator (go_with_json sample_go_json sample_go_lib) (as_bytes ''LEAF'') (as_bytes ''ROOT'') = Ok e \<and>
     CanCallRpc e ''my-vm'' ''auth'' ''login'' \<and> \<not> CanCallRpc e ''my-vm'' ''data'' ''write''"
proof -
  have "json_text_law sample_json_lib (CapClaim_to_json (cap_claim 1700000000 sample_request))"
    "go_text_law sample_go_json sample_json_lib (CapClaim_to_json (cap_claim 1700000000 sample_request))"
    using sample_texts by (simp_all only: sample_cap_claim)
  from issued_claim_read_alike [where P = sample_json_lib and L = "sample_jwt_lib sample_claim"
      and G = sample_go_lib, unfolded sample_with_json, OF sample_sign_csr sample_issued(1,2)
      sample_jwt_sign_token sample_issued(3) sample_base64 sample_go_base64 sample_go_der sample_signature
      sample_go_signature this sample_trusted sample_go_trusted sample_parses_issued sample_go_parses
      sample_issued(5) length_sample_token]
  show ?thesis by (auto simp: sample_cap_claim can_call_rpc_def sample_claim_def sample_cap_def)
qed

text \<open>Go is the more lenient reader: an object without members is a claim with every field zero, for
  Rust it is an error; and a key that differs in case is a field for Go and unknown for Rust.\<close>

theorem go_reads_incomplete_claims:
  "GoCapClaim_from_json (JObject []) = Some \<lparr>gl_iss = [], gl_sub = [], gl_vm = [], gl_cid = 0, gl_iat = 0,
     gl_exp = 0, gl_caps = []\<rparr> \<and> CapClaim_from_json (JObject []) = None \<and>
   GoPathAccess_from_json (JObject [(''PATH'', JString p), (''Access'', JNull)]) = Some \<lparr>gp_path = p, gp_access = []\<rparr> \<and>
   PathAccess_from_json (JObject [(''PATH'', JString p), (''Access'', JNull)]) = None"
proof -
  have fold: "go_fold_name ''PATH'' = ''PATH''" "go_fold_name ''path'' = ''PATH''"
    "go_fold_name ''Access'' = ''ACCESS''" "go_fold_name ''access'' = ''ACCESS''"
    by code_simp+
  have "GoPathAccess_from_json (JObject [(''PATH'', JString p), (''Access'', JNull)]) =
      Some \<lparr>gp_path = p, gp_access = []\<rparr>"
    by (simp add: GoPathAccess_from_json_def go_member_def fold del: go_fold_name.simps)
  then show ?thesis
    by (simp add: GoCapClaim_from_json_def CapClaim_from_json_def PathAccess_from_json_def go_member_def
        struct_fields_missing)
qed

text \<open>C15: the evaluators cannot be played off against each other: when both accept the same capability
  value, whoever made the certificate, the token and its signature, they hold the same claim and give
  the same answers. It is not assumed that signatures cannot be forged, nor that the decoders of the
  claim agree: that follows from the structs of the two sources. Of the libraries it is assumed that
  the base64 decoders and the JSON parsers agree where both accept and that Go's ASN.1 decoder is
  DER; and the payload must not name one field twice under keys that differ in case only.\<close>

theorem evaluators_never_disagree:
  assumes "base64_alike G L" and "go_der_law G" and "json_parsers_alike P Q"
    and "\<And>payload d. token_payload L v payload \<Longrightarrow> json_parse P payload = Ok d \<Longrightarrow> unambiguous d"
    and "length v < 2 ^ 63"
    and "trusted_key X ca_pem pk" and "parse_cert_pem X ''Peer'' peer_pem = Ok peer"
    and "find_cap_ext (xc_extensions peer) = Ok (Some v)"
    and "go_pem_decode G (as_bytes peer_pem) = Some der" and "go_parse_certificate G der = Inr gpeer"
    and "go_find_ext (gc_extensions gpeer) = Some v"
    and "from_cert_pem (jwt_with_json P L) X peer_pem ca_pem = Ok ev"
    and "NewEvaluator (go_with_json Q G) (as_bytes peer_pem) (as_bytes ca_pem) = Ok e"
  shows "claim_of_go (ge_claim e) = ev_claim ev \<and>
    CanCallRpc e vm module meth = can_call_rpc ev vm module meth \<and>
    CanAccessPath e vm p access_mode = can_access_path ev vm p access_mode"
proof -
  let ?L = "jwt_with_json P L" and ?G = "go_with_json Q G"
  have rust: "check_token ?L pk v = Ok ev"
    using from_cert_pem_check_token [OF assms(6-8), of ?L] assms(12) by simp
  from assms(13) obtain gpk where "go_check_value ?G gpk v = Ok e"
    unfolding NewEvaluator_Ok_iff using assms(9-11) by (auto simp: go_with_json_def)
  moreover have laws: "base64_alike ?G ?L" "go_der_law ?G"
    using assms(1,2) by simp_all
  ultimately obtain payload where payload: "token_payload ?L v payload"
    "claim_from_slice ?L payload = Ok (ev_claim ev)" "go_claim_unmarshal ?G payload = Inr (ge_claim e)"
    using both_accept_same_payload [OF laws assms(5) rust] by metis
  from payload(1) have "token_payload L v payload" by (simp add: token_payload_def)
  note claim = decoded_alike [OF assms(3) assms(4) [OF this] payload(2,3)]
  then have same: "evaluator_of_go e = ev" by (cases ev) (simp add: evaluator_of_go_def)
  show ?thesis using claim answers_same [of e, unfolded same] by simp
qed

theorem evaluators_never_disagree_witness:
  "claim_of_go sample_go_claim = sample_claim \<and>
    CanCallRpc \<lparr>ge_claim = sample_go_claim\<rparr> ''my-vm'' ''auth'' ''login'' =
      can_call_rpc \<lparr>ev_claim = sample_claim\<rparr> ''my-vm'' ''auth'' ''login''"
proof -
  let ?v = "encode_der_octet_string (as_bytes sample_token)"
  have clear: "unambiguous d" if "token_payload (sample_jwt_lib sample_claim) ?v payload"
      and "json_parse sample_json_lib payload = Ok d" for payload d
    using that(2) by (auto simp: sample_json_lib_def)
  have small: "length ?v < 2 ^ 63"
    using length_sample_token by (simp add: encode_der_octet_string_def encode_der_length_def)
  have gpeer: "go_pem_decode sample_go_lib (as_bytes ''LEAF'') = Some (as_bytes ''LEAF'')"
    "go_parse_certificate sample_go_lib (as_bytes ''LEAF'') = Inr (go_sample_leaf ?v)"
    "go_find_ext (gc_extensions (go_sample_leaf ?v)) = Some ?v"
    by (simp_all add: sample_go_lib_def go_sample_leaf_def GO_CAP_EXTENSION_OID_def)
  show ?thesis
    using evaluators_never_disagree [where P = sample_json_lib and L = "sample_jwt_lib sample_claim"
        and Q = sample_go_json and G = sample_go_lib, unfolded sample_with_json sample_go_with_json,
        OF sample_base64_alike sample_go_der sample_parsers_alike clear small sample_trusted
        sample_x509_parse(2) sample_find gpeer sample_evaluates [OF sample_x509_parse(2)] sample_go_evaluates]
    by simp
qed

end
