(* ===== verification/Json_Protocol.thy ===== *)
theory Json_Protocol
  imports Handler Json
begin

text \<open>
  The protocol in its JSON form: the derived encoders satisfy what the server and the agent rely on,
  and what the server answers to bytes that are JSON but no request, such as the request and the claim
  that the documentation shows.
\<close>

section \<open>The messages on the wire\<close>

lemma json_wire_laws:
  "json_text_law P (CertRequest_to_json q) \<Longrightarrow>
     serde_law (CertRequest_serde P) q (as_bytes (json_print P (CertRequest_to_json q)))"
  "json_text_law P (CertResponse_to_json r) \<Longrightarrow>
     serde_law (CertResponse_serde P) r (as_bytes (json_print P (CertResponse_to_json r)))"
  by (simp_all add: CertRequest_serde_def CertResponse_serde_def request_json.serde_law_json
      response_json.serde_law_json)

lemma to_vec_response:
  "to_vec (CertResponse_serde P) r = Ok (as_bytes (json_print P (CertResponse_to_json r)))"
  by (simp add: CertResponse_serde_def json_serde_def json_encode_def)

lemma from_slice_request:
  "json_parse P bs = Ok v \<Longrightarrow>
     from_slice (CertRequest_serde P) bs = ok_or (json_mismatch P bs) (CertRequest_from_json v)"
  by (simp add: CertRequest_serde_def json_serde_def json_decode_def)

text \<open>Bytes that are no request are answered with the decoder's message.\<close>

lemma unreadable_answered:
  assumes "healthy st" and "s_in st = lp_frame put_frame_len payload @ rest"
    and "length payload \<le> MAX_MSG_BYTES" and "from_slice (se_request_json E) payload = Err e"
    and "to_vec (se_response_json E) (RespError e) = Ok bytes"
  shows "handle_connection E env cid config ca st =
    (Ok (), st\<lparr>s_in := rest, s_out := s_out st @ lp_frame put_frame_len bytes\<rparr>)"
proof -
  have "recv_json (se_request_json E) st = (Err (Msg e), st\<lparr>s_in := rest\<rparr>)"
    using recv_json_frame [OF assms(2,3), of "se_request_json E"] assms(4) by simp
  then have inner: "handle_inner E env cid config ca st = (Err (Msg e), st\<lparr>s_in := rest\<rparr>)"
    by (simp add: handle_inner_def res_simps)
  have "send_json (se_response_json E) (RespError e) (st\<lparr>s_in := rest\<rparr>) =
      (Ok (), st\<lparr>s_in := rest, s_out := s_out st @ lp_frame put_frame_len bytes\<rparr>)"
    using send_json_healthy [OF _ assms(5), of "st\<lparr>s_in := rest\<rparr>"] assms(1) by simp
  with inner show ?thesis by (simp add: handle_connection_def res_simps)
qed

section \<open>The documented request and claim\<close>

text \<open>The \<open>CertRequest\<close> of \<open>docs/design.md\<close>, which has no \<open>vm_name\<close>; the text of the CSR is cut short.\<close>

definition documented_request :: "(string \<times> json) list" where
  "documented_request = [(''version'', JInt 1), (''entity'', JString ''service-a''),
     (''csr_pem'', JString ''-----BEGIN CERTIFICATE REQUEST-----'')]"

text \<open>The capability of the \<open>README\<close>, which has a \<open>target_cid\<close>.\<close>

definition documented_capability :: json where
  "documented_capability = JObject [
     (''target_vm'', JString ''vm-backend''), (''target_cid'', JInt 10),
     (''rpc_modules'', json_strings [''auth'', ''storage'']),
     (''rpc_methods'', json_strings [''auth.login'', ''storage.read'']),
     (''paths'', JArray [
        JObject [(''path'', JString ''/api/v1/data''), (''access'', json_strings [''read''])],
        JObject [(''path'', JString ''/api/v1/files''), (''access'', json_strings [''read'', ''write''])]])]"

text \<open>It is accepted, but \<open>target_cid\<close> is not a field: it is ignored, and no issued token has it.\<close>

theorem documented_target_cid_is_dropped:
  "\<exists>c. Capability_from_json documented_capability = Some c \<and>
     (\<forall>k. Capability_from_json (JObject [
        (''target_vm'', JString ''vm-backend''), (''target_cid'', k),
        (''rpc_modules'', json_strings [''auth'', ''storage'']),
        (''rpc_methods'', json_strings [''auth.login'', ''storage.read'']),
        (''paths'', JArray (map PathAccess_to_json (cap_paths c)))]) = Some c)"
proof
  let ?paths = "[\<lparr>pa_path = ''/api/v1/data'', pa_access = [''read'']\<rparr>,
     \<lparr>pa_path = ''/api/v1/files'', pa_access = [''read'', ''write'']\<rparr>]"
  let ?c = "\<lparr>cap_target_vm = ''vm-backend'', cap_rpc_modules = [''auth'', ''storage''],
     cap_rpc_methods = [''auth.login'', ''storage.read''], cap_paths = ?paths\<rparr>"
  have paths: "vec_of_json PathAccess_from_json (JArray (map PathAccess_to_json ?paths)) = Some ?paths"
    by (rule path_json.vec_from_to)
  have doc: "documented_capability = JObject [(''target_vm'', JString ''vm-backend''), (''target_cid'', JInt 10),
     (''rpc_modules'', json_strings [''auth'', ''storage'']),
     (''rpc_methods'', json_strings [''auth.login'', ''storage.read'']),
     (''paths'', JArray (map PathAccess_to_json ?paths))]"
    by (simp add: documented_capability_def PathAccess_to_json_def)
  show "Capability_from_json documented_capability = Some ?c \<and>
     (\<forall>k. Capability_from_json (JObject [
        (''target_vm'', JString ''vm-backend''), (''target_cid'', k),
        (''rpc_modules'', json_strings [''auth'', ''storage'']),
        (''rpc_methods'', json_strings [''auth.login'', ''storage.read'']),
        (''paths'', JArray (map PathAccess_to_json (cap_paths ?c)))]) = Some ?c)"
    unfolding doc Capability_from_object json_field_def
    by (simp add: paths del: vec_of_json.simps list.map)
qed

section \<open>A concrete text for the witness\<close>

text \<open>The compact text of a value whose strings need no escapes; the one text that is read is the documented request.\<close>

fun commas :: "string list \<Rightarrow> string" where
  "commas [] = []"
| "commas [s] = s"
| "commas (s # t # ss) = s @ '','' @ commas (t # ss)"

primrec compact :: "json \<Rightarrow> string" where
  "compact JNull = ''null''"
| "compact (JBool b) = (if b then ''true'' else ''false'')"
| "compact (JInt n) = (if n < 0 then ''-'' else []) @ show_nat (nat \<bar>n\<bar>)"
| "compact (JNumber lit) = lit"
| "compact (JString s) = [CHR 0x22] @ s @ [CHR 0x22]"
| "compact (JArray vs) = ''['' @ commas (map compact vs) @ '']''"
| "compact (JObject kvs) =
     ''{'' @ commas (map (\<lambda>(k, s). [CHR 0x22] @ k @ [CHR 0x22] @ '':'' @ s) (map (map_prod id compact) kvs)) @ ''}''"

definition sample_text :: json_lib where
  "sample_text = \<lparr>json_print = compact,
     json_parse = (\<lambda>bs. if bs = as_bytes (compact (JObject documented_request)) then Ok (JObject documented_request)
       else Err ''expected value''),
     json_mismatch = (\<lambda>_. ''missing field `vm_name`'')\<rparr>"

definition json_server_env :: "json_lib \<Rightarrow> (unit, unit, string, unit) server_env" where
  "json_server_env P = sample_server_env\<lparr>se_request_json := CertRequest_serde P, se_response_json := CertResponse_serde P\<rparr>"

definition documented_stream :: stream where
  "documented_stream = empty_stream\<lparr>s_in := lp_frame put_frame_len (as_bytes (compact (JObject documented_request)))\<rparr>"

section \<open>Properties\<close>

text \<open>C23: a frame whose JSON object lacks one of the four fields of a request, as the request of the design
  document does, is answered with one error frame that carries the decoder's message; no policy is
  looked up and nothing is signed, so the answer is the same under every configuration and CA.\<close>

theorem incomplete_request_answered:
  assumes "healthy st" and "s_in st = lp_frame put_frame_len payload @ rest"
    and "length payload \<le> MAX_MSG_BYTES" and "json_parse P payload = Ok (JObject kvs)"
    and "\<not> {''version'', ''vm_name'', ''entity'', ''csr_pem''} \<subseteq> fst ` set kvs"
    and "se_request_json E = CertRequest_serde P" and "se_response_json E = CertResponse_serde P"
  shows "handle_connection E env cid config ca st = (Ok (), st\<lparr>s_in := rest, s_out := s_out st @
    lp_frame put_frame_len (as_bytes (json_print P (CertResponse_to_json (RespError (json_mismatch P payload)))))\<rparr>)"
proof -
  have "struct_fields [''version'', ''vm_name'', ''entity'', ''csr_pem''] (JObject kvs) = None"
    using assms(5) by (intro struct_fields_missing) simp
  then have "CertRequest_from_json (JObject kvs) = None" by (simp add: CertRequest_from_json_def)
  then have "from_slice (se_request_json E) payload = Err (json_mismatch P payload)"
    using from_slice_request [OF assms(4)] assms(6) by simp
  from unreadable_answered [OF assms(1-3) this] assms(7) to_vec_response show ?thesis by simp
qed

theorem incomplete_request_answered_witness:
  "s_out (snd (handle_connection (json_server_env sample_text) sample_env 10 sample_host_config sample_ca documented_stream)) =
     lp_frame put_frame_len (as_bytes ([CHR ''{'', CHR 0x22] @ ''status'' @ [CHR 0x22, CHR '':'', CHR 0x22] @ ''error'' @
       [CHR 0x22, CHR '','', CHR 0x22] @ ''message'' @ [CHR 0x22, CHR '':'', CHR 0x22] @ ''missing field `vm_name`'' @
       [CHR 0x22, CHR ''}'']))"
proof -
  let ?payload = "as_bytes (compact (JObject documented_request))"
  have "handle_connection (json_server_env sample_text) sample_env 10 sample_host_config sample_ca documented_stream =
      (Ok (), documented_stream\<lparr>s_in := [], s_out := s_out documented_stream @
        lp_frame put_frame_len (as_bytes (json_print sample_text
          (CertResponse_to_json (RespError (json_mismatch sample_text ?payload)))))\<rparr>)"
  proof (rule incomplete_request_answered)
    show "json_parse sample_text ?payload = Ok (JObject documented_request)" by (simp add: sample_text_def)
    show "length ?payload \<le> MAX_MSG_BYTES"
      by (simp add: documented_request_def MAX_MSG_BYTES_def show_nat_def show_radix.simps)
  qed (simp_all add: documented_stream_def empty_stream_healthy json_server_env_def documented_request_def)
  then show ?thesis
    by (simp add: documented_stream_def empty_stream_def sample_text_def CertResponse_to_json_def)
qed

end
