(* ===== verification/Config_Json.thy ===== *)
theory Config_Json
  imports Policy Agent_Config Client Handler Json
begin

text \<open>
  The two configuration files in their JSON form: the derived readers of the structs of both
  \<open>config.rs\<close> on JSON values, in front of the loaders, and the example files of the repository
  (\<open>config-examples/\<close>) read by them. Shown: the examples load, and what the agent asks for under the
  one, the server grants under the other.
\<close>

section \<open>Optional members\<close>

text \<open>
  A field with a default or of type \<open>Option\<close> may be absent from an object; a repeated one is an error
  still. An array may end early only where every later field has a default: \<open>m\<close> elements are needed.
\<close>

definition json_member_opt :: "(string \<times> json) list \<Rightarrow> string \<Rightarrow> json option option" where
  "json_member_opt kvs k =
     (case filter (\<lambda>(k', _). k' = k) kvs of [] \<Rightarrow> Some None | [(_, v)] \<Rightarrow> Some (Some v) | _ \<Rightarrow> None)"

fun struct_options :: "nat \<Rightarrow> string list \<Rightarrow> json \<Rightarrow> json option list option" where
  "struct_options m names (JObject kvs) = those (map (json_member_opt kvs) names)"
| "struct_options m names (JArray vs) =
     (if m \<le> length vs \<and> length vs \<le> length names
      then Some (map Some vs @ replicate (length names - length vs) None) else None)"
| "struct_options m names _ = None"

primrec read_opt :: "(json \<Rightarrow> 'a option) \<Rightarrow> json option \<Rightarrow> 'a option option" where
  "read_opt d None = Some None"
| "read_opt d (Some v) = map_option Some (d v)"

fun option_of_json :: "(json \<Rightarrow> 'a option) \<Rightarrow> json \<Rightarrow> 'a option option" where
  "option_of_json d JNull = Some None"
| "option_of_json d v = map_option Some (d v)"

text \<open>A \<open>HashMap\<close> is read from an object, entry by entry.\<close>

fun entries_of_json :: "(json \<Rightarrow> 'a option) \<Rightarrow> json \<Rightarrow> (string \<times> 'a) list option" where
  "entries_of_json d (JObject kvs) = those (map (\<lambda>(k, v). map_option (Pair k) (d v)) kvs)"
| "entries_of_json d _ = None"

text \<open>
  A \<open>PathBuf\<close> is read from a string. The file a text names, as the list of components below the root;
  a relative one counts from the root, the working directory of a service.
\<close>

fun path_split :: "string \<Rightarrow> string \<Rightarrow> string list" where
  "path_split acc [] = [rev acc]"
| "path_split acc (c # s) = (if c = CHR ''/'' then rev acc # path_split [] s else path_split (c # acc) s)"

definition path_from :: "string \<Rightarrow> path" where
  "path_from s = foldl (\<lambda>p c. if c = [] \<or> c = ''.'' then p else if c = ''..'' then butlast p else p @ [c])
     [] (path_split [] s)"

definition path_of_json :: "json \<Rightarrow> path option" where
  "path_of_json v = map_option path_from (string_of_json v)"

section \<open>The server's structs\<close>

definition EntityPolicy_fields :: "json \<Rightarrow> EntityPolicy_json option" where
  "EntityPolicy_fields v = do {
     fs \<leftarrow> struct_options 2 [''caps'', ''validity_days''] v;
     caps \<leftarrow> read_opt (vec_of_json Capability_from_json) (fs ! 0);
     days \<leftarrow> read_opt (option_of_json u32_of_json) (fs ! 1);
     Some \<lparr>pj_caps = caps, pj_validity_days = Option.bind days (\<lambda>d. d)\<rparr> }"

definition VmEntry_fields :: "json \<Rightarrow> VmEntry_json option" where
  "VmEntry_fields v = do {
     fs \<leftarrow> struct_options 2 [''vm_cid'', ''entities''] v;
     cid \<leftarrow> read_opt u32_of_json (fs ! 0);
     entities \<leftarrow> read_opt (entries_of_json EntityPolicy_fields) (fs ! 1);
     Some \<lparr>vj_vm_cid = cid, vj_entities = entities\<rparr> }"

definition HostConfig_fields :: "json \<Rightarrow> HostConfig_json option" where
  "HostConfig_fields v = do {
     fs \<leftarrow> struct_options 5 [''ca_cert_path'', ''ca_key_path'', ''server_port'', ''cert_validity_days'', ''vms'', ''peer_port''] v;
     cert_path \<leftarrow> read_opt path_of_json (fs ! 0);
     key_path \<leftarrow> read_opt path_of_json (fs ! 1);
     server_port \<leftarrow> read_opt u32_of_json (fs ! 2);
     days \<leftarrow> read_opt u32_of_json (fs ! 3);
     vms \<leftarrow> read_opt (entries_of_json VmEntry_fields) (fs ! 4);
     peer_port \<leftarrow> read_opt u32_of_json (fs ! 5);
     Some \<lparr>hj_ca_cert_path = cert_path, hj_ca_key_path = key_path, hj_server_port = server_port,
       hj_cert_validity_days = days, hj_vms = vms, hj_peer_port = peer_port\<rparr> }"

section \<open>The agent's structs\<close>

definition EntityEntry_fields :: "json \<Rightarrow> EntityEntry_json option" where
  "EntityEntry_fields v = do {
     fs \<leftarrow> struct_options 6 [''name'', ''cert_path'', ''key_path'', ''ca_path'', ''owner_uid'', ''owner_gid'',
       ''cert_mode'', ''key_mode''] v;
     name \<leftarrow> read_opt string_of_json (fs ! 0);
     cert_path \<leftarrow> read_opt path_of_json (fs ! 1);
     key_path \<leftarrow> read_opt path_of_json (fs ! 2);
     ca_path \<leftarrow> read_opt path_of_json (fs ! 3);
     uid \<leftarrow> read_opt u32_of_json (fs ! 4);
     gid \<leftarrow> read_opt u32_of_json (fs ! 5);
     cert_mode \<leftarrow> read_opt string_of_json (fs ! 6);
     key_mode \<leftarrow> read_opt string_of_json (fs ! 7);
     Some \<lparr>ej_name = name, ej_cert_path = cert_path, ej_key_path = key_path, ej_ca_path = ca_path,
       ej_owner_uid = uid, ej_owner_gid = gid, ej_cert_mode = cert_mode, ej_key_mode = key_mode\<rparr> }"

definition AgentConfig_fields :: "json \<Rightarrow> AgentConfig_json option" where
  "AgentConfig_fields v = do {
     fs \<leftarrow> struct_options 3 [''vm_name'', ''server_port'', ''entities'', ''client_port''] v;
     vm_name \<leftarrow> read_opt string_of_json (fs ! 0);
     server_port \<leftarrow> read_opt u32_of_json (fs ! 1);
     entities \<leftarrow> read_opt (vec_of_json EntityEntry_fields) (fs ! 2);
     client_port \<leftarrow> read_opt u32_of_json (fs ! 3);
     Some \<lparr>aj_vm_name = vm_name, aj_server_port = server_port, aj_entities = entities,
       aj_client_port = client_port\<rparr> }"

text \<open>The readers in front of the loaders: the text is parsed, and the fields are read from the value.\<close>

definition config_text :: "json_lib \<Rightarrow> (string \<Rightarrow> string \<Rightarrow> string) \<Rightarrow> (json \<Rightarrow> 'j option) \<Rightarrow> 'j json_text" where
  "config_text P missing reader = \<lparr>parse_text = (\<lambda>s. json_decode P reader (as_bytes s)), missing_field_msg = missing\<rparr>"


section \<open>What a file must say\<close>

text \<open>
  The readers and the completeness checks of the loaders together, member by member: a required member
  is there once and of its type, an optional one is absent or of its type. A value of a \<open>HashMap\<close> is
  complete itself.
\<close>

definition complete_from :: "('j \<Rightarrow> bool) \<Rightarrow> ('j \<Rightarrow> 'v) \<Rightarrow> (json \<Rightarrow> 'j option) \<Rightarrow> json \<Rightarrow> 'v option" where
  "complete_from ok val reader v = Option.bind (reader v) (\<lambda>j. if ok j then Some (val j) else None)"

definition json_opt :: "(json \<Rightarrow> 'a option) \<Rightarrow> (string \<times> json) list \<Rightarrow> string \<Rightarrow> 'a option option" where
  "json_opt d kvs k = Option.bind (json_member_opt kvs k) (read_opt d)"

definition json_default :: "'a \<Rightarrow> (json \<Rightarrow> 'a option) \<Rightarrow> (string \<times> json) list \<Rightarrow> string \<Rightarrow> 'a option" where
  "json_default x d kvs k = map_option (\<lambda>y. case y of None \<Rightarrow> x | Some z \<Rightarrow> z) (json_opt d kvs k)"

lemma json_opt_required: "json_opt d kvs k = Some (Some x) \<longleftrightarrow> json_field d kvs k = Some x"
  by (auto simp: json_opt_def json_field_def json_member_opt_def json_member_def bind_eq_Some_conv
      split: list.splits)

lemma those_complete:
  "(\<exists>js. those (map f xs) = Some js \<and> list_all ok js \<and> ys = map val js) \<longleftrightarrow>
     those (map (\<lambda>x. Option.bind (f x) (\<lambda>j. if ok j then Some (val j) else None)) xs) = Some ys"
proof (induction xs arbitrary: ys)
  case Nil
  then show ?case by auto
next
  case (Cons x xs)
  let ?g = "\<lambda>x. Option.bind (f x) (\<lambda>j. if ok j then Some (val j) else None)"
  have "(\<exists>js. those (map f (x # xs)) = Some js \<and> list_all ok js \<and> ys = map val js) \<longleftrightarrow>
      (\<exists>j. f x = Some j \<and> ok j \<and> (\<exists>zs. ys = val j # zs \<and>
         (\<exists>js. those (map f xs) = Some js \<and> list_all ok js \<and> zs = map val js)))"
    unfolding list.map those_Cons_iff by fastforce
  also have "\<dots> \<longleftrightarrow> (\<exists>y zs. ?g x = Some y \<and> those (map ?g xs) = Some zs \<and> ys = y # zs)"
    unfolding Cons.IH by (cases "f x") auto
  finally show ?case unfolding list.map those_Cons_iff .
qed

lemma vec_complete:
  "(\<exists>js. vec_of_json reader v = Some js \<and> list_all ok js \<and> ys = map val js) \<longleftrightarrow>
     vec_of_json (complete_from ok val reader) v = Some ys"
  using those_complete [of reader _ ok ys val] by (cases v) (simp_all add: complete_from_def [abs_def])

lemma entries_complete:
  "(\<exists>es. entries_of_json reader v = Some es \<and> list_all (\<lambda>(_, j). ok j) es \<and> ys = map (apsnd val) es) \<longleftrightarrow>
     entries_of_json (complete_from ok val reader) v = Some ys"
proof (cases v)
  case (JObject kvs)
  have step: "(\<lambda>x. Option.bind ((\<lambda>(k, v). map_option (Pair k) (reader v)) x)
        (\<lambda>j. if (\<lambda>(_, j). ok j) j then Some (apsnd val j) else None)) =
      (\<lambda>(k, v). map_option (Pair k) (complete_from ok val reader v))"
    by (rule ext) (auto simp: complete_from_def split: option.splits prod.splits Option.bind_split)
  show ?thesis
    using those_complete [of "\<lambda>(k, v). map_option (Pair k) (reader v)" kvs "\<lambda>(_, j). ok j" ys "apsnd val"]
    unfolding step by (simp add: JObject)
qed simp_all


lemma field_complete:
  "json_field (entries_of_json (complete_from ok val reader)) kvs k = Some ys \<longleftrightarrow>
     (\<exists>es. json_opt (entries_of_json reader) kvs k = Some (Some es) \<and> list_all (\<lambda>(_, j). ok j) es \<and>
        ys = map (apsnd val) es)"
  "json_field (vec_of_json (complete_from ok val reader)) kvs k = Some xs \<longleftrightarrow>
     (\<exists>js. json_opt (vec_of_json reader) kvs k = Some (Some js) \<and> list_all ok js \<and> xs = map val js)"
  unfolding json_opt_required json_field_def bind_eq_Some_conv entries_complete [symmetric] vec_complete [symmetric]
  by blast+

lemma json_default_iff:
  "json_default d rd kvs k = Some x \<longleftrightarrow> (\<exists>y. json_opt rd kvs k = Some y \<and> x = (case y of None \<Rightarrow> d | Some z \<Rightarrow> z))"
  by (auto simp: json_default_def)

lemma complete_from_iff:
  "complete_from ok val reader v = Some x \<longleftrightarrow> (\<exists>j. reader v = Some j \<and> ok j \<and> x = val j)"
  by (auto simp: complete_from_def bind_eq_Some_conv)

definition EntityPolicy_from_json :: "json \<Rightarrow> EntityPolicy option" where
  "EntityPolicy_from_json = complete_from policy_complete policy_value EntityPolicy_fields"

definition VmEntry_from_json :: "json \<Rightarrow> VmEntry option" where
  "VmEntry_from_json = complete_from vm_complete vm_value VmEntry_fields"

definition EntityEntry_from_json :: "json \<Rightarrow> EntityEntry option" where
  "EntityEntry_from_json = complete_from entity_complete entity_value EntityEntry_fields"

definition AgentConfig_from_json :: "json \<Rightarrow> AgentConfig option" where
  "AgentConfig_from_json = complete_from agent_complete agent_value AgentConfig_fields"

definition HostConfig_from_json :: "json \<Rightarrow> HostConfig option" where
  "HostConfig_from_json = complete_from host_complete host_value HostConfig_fields"

lemmas opt_reading = json_opt_def bind_eq_Some_conv those_Cons_iff

lemma VmEntry_fields_object:
  "VmEntry_fields (JObject kvs) = Some j \<longleftrightarrow> json_opt u32_of_json kvs ''vm_cid'' = Some (vj_vm_cid j) \<and>
     json_opt (entries_of_json EntityPolicy_fields) kvs ''entities'' = Some (vj_entities j)"
  by (cases j) (auto simp: VmEntry_fields_def opt_reading simp del: those.simps(2))

lemma HostConfig_fields_object:
  "HostConfig_fields (JObject kvs) = Some j \<longleftrightarrow>
     json_opt path_of_json kvs ''ca_cert_path'' = Some (hj_ca_cert_path j) \<and>
     json_opt path_of_json kvs ''ca_key_path'' = Some (hj_ca_key_path j) \<and>
     json_opt u32_of_json kvs ''server_port'' = Some (hj_server_port j) \<and>
     json_opt u32_of_json kvs ''cert_validity_days'' = Some (hj_cert_validity_days j) \<and>
     json_opt (entries_of_json VmEntry_fields) kvs ''vms'' = Some (hj_vms j) \<and>
     json_opt u32_of_json kvs ''peer_port'' = Some (hj_peer_port j)"
  by (cases j) (auto simp: HostConfig_fields_def opt_reading simp del: those.simps(2))

lemma VmEntry_from_object:
  "VmEntry_from_json (JObject kvs) = Some e \<longleftrightarrow>
     json_field u32_of_json kvs ''vm_cid'' = Some (vm_cid e) \<and>
     (\<exists>es. json_field (entries_of_json EntityPolicy_from_json) kvs ''entities'' = Some es \<and> vm_entities e = hash_map es)"
  unfolding VmEntry_from_json_def EntityPolicy_from_json_def complete_from_iff field_complete(1)
  unfolding json_opt_required [symmetric] VmEntry_fields_object VmEntry_json.splits(3)
  by (cases e) (auto simp: vm_complete_def vm_value_def)

lemma HostConfig_from_object:
  "HostConfig_from_json (JObject kvs) = Some cfg \<longleftrightarrow>
     json_field path_of_json kvs ''ca_cert_path'' = Some (hc_ca_cert_path cfg) \<and>
     json_field path_of_json kvs ''ca_key_path'' = Some (hc_ca_key_path cfg) \<and>
     json_default 900 u32_of_json kvs ''server_port'' = Some (hc_server_port cfg) \<and>
     json_default 365 u32_of_json kvs ''cert_validity_days'' = Some (hc_cert_validity_days cfg) \<and>
     (\<exists>vms. json_field (entries_of_json VmEntry_from_json) kvs ''vms'' = Some vms \<and> hc_vms cfg = hash_map vms) \<and>
     json_default 901 u32_of_json kvs ''peer_port'' = Some (hc_peer_port cfg)"
  unfolding HostConfig_from_json_def VmEntry_from_json_def complete_from_iff field_complete(1)
  unfolding json_opt_required [symmetric] json_default_iff HostConfig_fields_object HostConfig_json.splits(3)
  by (cases cfg) (auto simp: host_complete_def host_value_def)


lemma EntityEntry_fields_object:
  "EntityEntry_fields (JObject kvs) = Some j \<longleftrightarrow>
     json_opt string_of_json kvs ''name'' = Some (ej_name j) \<and>
     json_opt path_of_json kvs ''cert_path'' = Some (ej_cert_path j) \<and>
     json_opt path_of_json kvs ''key_path'' = Some (ej_key_path j) \<and>
     json_opt path_of_json kvs ''ca_path'' = Some (ej_ca_path j) \<and>
     json_opt u32_of_json kvs ''owner_uid'' = Some (ej_owner_uid j) \<and>
     json_opt u32_of_json kvs ''owner_gid'' = Some (ej_owner_gid j) \<and>
     json_opt string_of_json kvs ''cert_mode'' = Some (ej_cert_mode j) \<and>
     json_opt string_of_json kvs ''key_mode'' = Some (ej_key_mode j)"
  by (cases j) (auto simp: EntityEntry_fields_def opt_reading simp del: those.simps(2))

lemma AgentConfig_fields_object:
  "AgentConfig_fields (JObject kvs) = Some j \<longleftrightarrow>
     json_opt string_of_json kvs ''vm_name'' = Some (aj_vm_name j) \<and>
     json_opt u32_of_json kvs ''server_port'' = Some (aj_server_port j) \<and>
     json_opt (vec_of_json EntityEntry_fields) kvs ''entities'' = Some (aj_entities j) \<and>
     json_opt u32_of_json kvs ''client_port'' = Some (aj_client_port j)"
  by (cases j) (auto simp: AgentConfig_fields_def opt_reading simp del: those.simps(2))

lemma EntityEntry_from_object:
  "EntityEntry_from_json (JObject kvs) = Some e \<longleftrightarrow>
     json_field string_of_json kvs ''name'' = Some (en_name e) \<and>
     json_field path_of_json kvs ''cert_path'' = Some (en_cert_path e) \<and>
     json_field path_of_json kvs ''key_path'' = Some (en_key_path e) \<and>
     json_field path_of_json kvs ''ca_path'' = Some (en_ca_path e) \<and>
     json_field u32_of_json kvs ''owner_uid'' = Some (en_owner_uid e) \<and>
     json_field u32_of_json kvs ''owner_gid'' = Some (en_owner_gid e) \<and>
     json_default ''0640'' string_of_json kvs ''cert_mode'' = Some (en_cert_mode e) \<and>
     json_default ''0600'' string_of_json kvs ''key_mode'' = Some (en_key_mode e)"
  unfolding EntityEntry_from_json_def complete_from_iff json_opt_required [symmetric] json_default_iff
    EntityEntry_fields_object EntityEntry_json.splits(3)
  by (cases e) (auto simp: entity_complete_def entity_value_def)

lemma AgentConfig_from_object:
  "AgentConfig_from_json (JObject kvs) = Some cfg \<longleftrightarrow>
     json_field string_of_json kvs ''vm_name'' = Some (ag_vm_name cfg) \<and>
     json_default 900 u32_of_json kvs ''server_port'' = Some (ag_server_port cfg) \<and>
     json_field (vec_of_json EntityEntry_from_json) kvs ''entities'' = Some (ag_entities cfg) \<and>
     json_default 901 u32_of_json kvs ''client_port'' = Some (ag_client_port cfg)"
  unfolding AgentConfig_from_json_def EntityEntry_from_json_def complete_from_iff field_complete(2)
  unfolding json_opt_required [symmetric] json_default_iff AgentConfig_fields_object AgentConfig_json.splits(3)
  by (cases cfg) (auto simp: agent_complete_def agent_value_def)

text \<open>The loaders accept exactly the values that the readers accept, with a privileged server port.\<close>

lemma host_file_iff:
  assumes "read_to_string p s = (Ok data, s')" and "json_parse P (as_bytes data) = Ok v"
  shows "HostConfig_from_file (config_text P missing HostConfig_fields) p s = (Ok cfg, s'') \<longleftrightarrow>
    s'' = s' \<and> unat (hc_server_port cfg) < 1000 \<and> HostConfig_from_json v = Some cfg"
proof -
  have "rbind (json_decode P HostConfig_fields (as_bytes data)) (HostConfig_of_json (missing data)) = Ok cfg \<longleftrightarrow>
      HostConfig_from_json v = Some cfg"
    using reads_completeD [OF host_reads [of "missing data"]] assms(2)
    by (cases "HostConfig_fields v"; cases "host_complete (the (HostConfig_fields v))")
      (force simp: json_decode_def HostConfig_from_json_def complete_from_def)+
  with assms(1) show ?thesis
    by (auto simp: HostConfig_from_file_def config_text_def io_inv word_le_nat_alt split: if_splits
        intro: exI [of _ cfg])
qed

lemma agent_file_iff:
  assumes "read_to_string p s = (Ok data, s')" and "json_parse P (as_bytes data) = Ok v"
  shows "AgentConfig_from_file (config_text P missing AgentConfig_fields) p s = (Ok cfg, s'') \<longleftrightarrow>
    s'' = s' \<and> unat (ag_server_port cfg) < 1000 \<and> AgentConfig_from_json v = Some cfg"
proof -
  have "rbind (json_decode P AgentConfig_fields (as_bytes data)) (AgentConfig_of_json (missing data)) = Ok cfg \<longleftrightarrow>
      AgentConfig_from_json v = Some cfg"
    using reads_completeD [OF agent_reads [of "missing data"]] assms(2)
    by (cases "AgentConfig_fields v"; cases "agent_complete (the (AgentConfig_fields v))")
      (force simp: json_decode_def AgentConfig_from_json_def complete_from_def)+
  with assms(1) show ?thesis
    by (auto simp: AgentConfig_from_file_def config_text_def io_inv word_le_nat_alt split: if_splits
        intro: exI [of _ cfg])
qed

section \<open>The example files\<close>

definition example_host :: json where
  "example_host = JObject [
    (''ca_cert_path'', JString ''/etc/auth-scope/ca/ca-cert.pem''),
    (''ca_key_path'', JString ''/etc/auth-scope/ca/ca-key.pem''),
    (''server_port'', JInt 900),
    (''cert_validity_days'', JInt 365),
    (''vms'', JObject [
      (''vm-frontend'', JObject [
        (''vm_cid'', JInt 42),
        (''entities'', JObject [
          (''frontend-api'', JObject [
            (''caps'', JArray [JObject [
                (''target_vm'', JString ''vm-backend''),
                (''rpc_modules'', json_strings [''auth'', ''storage'']),
                (''rpc_methods'', json_strings [''auth.login'', ''auth.logout'', ''storage.read'']),
                (''paths'', JArray [JObject [(''path'', JString ''/api/v1/data''), (''access'', json_strings [''read''])], JObject [
                    (''path'', JString ''/api/v1/files''),
                    (''access'', json_strings [''read'', ''write''])]])]]),
            (''validity_days'', JInt 365)]),
          (''metrics-collector'', JObject [
            (''caps'', JArray [JObject [
                (''target_vm'', JString ''vm-backend''),
                (''rpc_modules'', json_strings [''metrics'']),
                (''rpc_methods'', json_strings [''metrics.push'']),
                (''paths'', JArray [JObject [(''path'', JString ''/metrics/push''), (''access'', json_strings [''write''])]])]])])])]),
      (''vm-backend'', JObject [
        (''vm_cid'', JInt 10),
        (''entities'', JObject [
          (''backend-db'', JObject [
            (''caps'', JArray [JObject [
                (''target_vm'', JString ''vm-storage''),
                (''rpc_modules'', json_strings [''db'']),
                (''rpc_methods'', json_strings [''db.query'', ''db.exec'']),
                (''paths'', JArray [JObject [
                    (''path'', JString ''/db/query''),
                    (''access'', json_strings [''read'', ''write''])]])]])])])])])]"

definition example_agent :: json where
  "example_agent = JObject [
    (''vm_name'', JString ''vm-frontend''),
    (''server_port'', JInt 900),
    (''client_port'', JInt 901),
    (''entities'', JArray [JObject [
        (''name'', JString ''frontend-api''),
        (''cert_path'', JString ''/etc/frontend-api/tls/cert.pem''),
        (''key_path'', JString ''/etc/frontend-api/tls/key.pem''),
        (''ca_path'', JString ''/etc/frontend-api/tls/ca.pem''),
        (''owner_uid'', JInt 1001),
        (''owner_gid'', JInt 1001),
        (''cert_mode'', JString ''0640''),
        (''key_mode'', JString ''0600'')], JObject [
        (''name'', JString ''metrics-collector''),
        (''cert_path'', JString ''/etc/metrics-collector/tls/cert.pem''),
        (''key_path'', JString ''/etc/metrics-collector/tls/key.pem''),
        (''ca_path'', JString ''/etc/metrics-collector/tls/ca.pem''),
        (''owner_uid'', JInt 1002),
        (''owner_gid'', JInt 1002),
        (''cert_mode'', JString ''0640''),
        (''key_mode'', JString ''0600'')]])]"

text \<open>The capability that the example grants to the first entity of the agent.\<close>

definition example_cap :: Capability where
  "example_cap = \<lparr>cap_target_vm = ''vm-backend'', cap_rpc_modules = [''auth'', ''storage''],
       cap_rpc_methods = [''auth.login'', ''auth.logout'', ''storage.read''], cap_paths = [\<lparr>pa_path = ''/api/v1/data'', pa_access = [''read'']\<rparr>, \<lparr>pa_path = ''/api/v1/files'', pa_access = [''read'', ''write'']\<rparr>]\<rparr>"

definition example_metrics_cap :: Capability where
  "example_metrics_cap = \<lparr>cap_target_vm = ''vm-backend'', cap_rpc_modules = [''metrics''],
       cap_rpc_methods = [''metrics.push''], cap_paths = [\<lparr>pa_path = ''/metrics/push'', pa_access = [''write'']\<rparr>]\<rparr>"

definition example_db_cap :: Capability where
  "example_db_cap = \<lparr>cap_target_vm = ''vm-storage'', cap_rpc_modules = [''db''],
       cap_rpc_methods = [''db.query'', ''db.exec''], cap_paths = [\<lparr>pa_path = ''/db/query'', pa_access = [''read'', ''write'']\<rparr>]\<rparr>"

definition example_host_fields :: HostConfig_json where
  "example_host_fields = \<lparr>hj_ca_cert_path = Some [''etc'', ''auth-scope'', ''ca'', ''ca-cert.pem''],
     hj_ca_key_path = Some [''etc'', ''auth-scope'', ''ca'', ''ca-key.pem''], hj_server_port = Some 900,
     hj_cert_validity_days = Some 365,
     hj_vms = Some [
       (''vm-frontend'', \<lparr>vj_vm_cid = Some 42, vj_entities = Some [
          (''frontend-api'', \<lparr>pj_caps = Some [example_cap], pj_validity_days = Some 365\<rparr>),
          (''metrics-collector'', \<lparr>pj_caps = Some [example_metrics_cap], pj_validity_days = None\<rparr>)]\<rparr>),
       (''vm-backend'', \<lparr>vj_vm_cid = Some 10, vj_entities = Some [
          (''backend-db'', \<lparr>pj_caps = Some [example_db_cap], pj_validity_days = None\<rparr>)]\<rparr>)],
     hj_peer_port = None\<rparr>"

definition example_entity_fields :: "string \<Rightarrow> u32 \<Rightarrow> EntityEntry_json" where
  "example_entity_fields name uid = \<lparr>ej_name = Some name, ej_cert_path = Some [''etc'', name, ''tls'', ''cert.pem''],
     ej_key_path = Some [''etc'', name, ''tls'', ''key.pem''], ej_ca_path = Some [''etc'', name, ''tls'', ''ca.pem''],
     ej_owner_uid = Some uid, ej_owner_gid = Some uid, ej_cert_mode = Some ''0640'', ej_key_mode = Some ''0600''\<rparr>"

definition example_agent_fields :: AgentConfig_json where
  "example_agent_fields = \<lparr>aj_vm_name = Some ''vm-frontend'', aj_server_port = Some 900,
     aj_entities = Some [example_entity_fields ''frontend-api'' 1001, example_entity_fields ''metrics-collector'' 1002],
     aj_client_port = Some 901\<rparr>"

lemma example_host_reads: "HostConfig_fields example_host = Some example_host_fields"
  by code_simp

lemma example_agent_reads: "AgentConfig_fields example_agent = Some example_agent_fields"
  by code_simp

section \<open>What the examples say\<close>

definition example_host_config :: HostConfig where
  "example_host_config = host_value example_host_fields"

definition example_agent_config :: AgentConfig where
  "example_agent_config = agent_value example_agent_fields"

lemma example_host_loads: "HostConfig_from_json example_host = Some example_host_config"
  unfolding HostConfig_from_json_def complete_from_def example_host_reads
  by (simp add: host_complete_def vm_complete_def policy_complete_def example_host_fields_def
      example_host_config_def)

lemma example_agent_loads: "AgentConfig_from_json example_agent = Some example_agent_config"
  unfolding AgentConfig_from_json_def complete_from_def example_agent_reads
  by (simp add: agent_complete_def entity_complete_def example_agent_fields_def example_entity_fields_def
      example_agent_config_def)

lemma example_ports:
  "hc_server_port example_host_config = 900" "hc_peer_port example_host_config = 901"
  "ag_server_port example_agent_config = 900" "ag_client_port example_agent_config = 901"
  by (simp_all add: example_host_config_def example_agent_config_def host_value_def agent_value_def
      example_host_fields_def example_agent_fields_def)

text \<open>Who the example authorises: the two entities of the one VM, from its CID, each with its capability.\<close>

lemma example_resolve:
  "resolve example_host_config ''vm-frontend'' ''frontend-api'' = Some \<lparr>pd_vm_name = ''vm-frontend'',
     pd_vm_cid = 42, pd_caps = [example_cap], pd_validity_days = 365\<rparr>"
  "resolve example_host_config ''vm-frontend'' ''metrics-collector'' = Some \<lparr>pd_vm_name = ''vm-frontend'',
     pd_vm_cid = 42, pd_caps = [example_metrics_cap], pd_validity_days = 365\<rparr>"
  by (simp_all add: resolve_def example_host_config_def host_value_def example_host_fields_def hash_map_def
      vm_value_def policy_value_def)

lemma example_agent_entities:
  "ag_vm_name example_agent_config = ''vm-frontend''"
  "map en_name (ag_entities example_agent_config) = [''frontend-api'', ''metrics-collector'']"
  by (simp_all add: example_agent_config_def agent_value_def example_agent_fields_def entity_value_def
      example_entity_fields_def)

section \<open>A disk with the two files\<close>

text \<open>The texts \<open>host\<close> and \<open>agent\<close> stand for the contents of the two files.\<close>

definition example_json_lib :: json_lib where
  "example_json_lib = \<lparr>json_print = (\<lambda>_. ''{}''),
     json_parse = (\<lambda>bs. if bs = as_bytes ''host'' then Ok example_host
       else if bs = as_bytes ''agent'' then Ok example_agent else Err ''expected value''),
     json_mismatch = (\<lambda>_. ''invalid type'')\<rparr>"

definition example_file :: "string \<Rightarrow> inode" where
  "example_file s = \<lparr>f_data = as_bytes s, f_mode = 384, f_uid = 0, f_gid = 0\<rparr>"

definition example_disk :: fs where
  "example_disk = \<lparr>fs_nodes = [[''host.json''] \<mapsto> Reg (example_file ''host''),
       [''agent.json''] \<mapsto> Reg (example_file ''agent'')],
     fs_umask = 18, fs_faults = []\<rparr>"

lemma example_disk_reads:
  "read_to_string [''host.json''] example_disk = (Ok ''host'', example_disk)"
  "read_to_string [''agent.json''] example_disk = (Ok ''agent'', example_disk)"
proof -
  have ascii: "from_utf8 (as_bytes ''host'') = Ok ''host''" "from_utf8 (as_bytes ''agent'') = Ok ''agent''"
    by (rule from_utf8_ascii, simp)+
  show "read_to_string [''host.json''] example_disk = (Ok ''host'', example_disk)"
    by (rule read_to_string_runs [where f = "example_file ''host''"])
      (simp_all add: example_disk_def example_file_def no_faults_def ascii del: as_bytes_simps)
  show "read_to_string [''agent.json''] example_disk = (Ok ''agent'', example_disk)"
    by (rule read_to_string_runs [where f = "example_file ''agent''"])
      (simp_all add: example_disk_def example_file_def no_faults_def ascii del: as_bytes_simps)
qed

section \<open>Properties\<close>

text \<open>C35: the configuration files that the repository ships belong together: both load, the ports of the two
  sides agree (the server's peer port by its default), and every certificate request the agent makes
  under its file is authorised by the server under the other, from CID 42 and from no other.\<close>

theorem example_configs_fit:
  assumes "read_to_string p s = (Ok host_text, s')" and "json_parse P (as_bytes host_text) = Ok example_host"
    and "read_to_string q t = (Ok agent_text, t')" and "json_parse P (as_bytes agent_text) = Ok example_agent"
  shows "\<exists>host agent.
    HostConfig_from_file (config_text P missing HostConfig_fields) p s = (Ok host, s') \<and>
    AgentConfig_from_file (config_text P missing AgentConfig_fields) q t = (Ok agent, t') \<and>
    hc_server_port host = ag_server_port agent \<and> hc_peer_port host = ag_client_port agent \<and>
    map en_name (ag_entities agent) = [''frontend-api'', ''metrics-collector''] \<and>
    (\<forall>e \<in> set (ag_entities agent). \<forall>csr cid. (\<exists>d. authorised host cid (cert_request agent e csr) d) = (cid = 42))"
proof (intro exI conjI)
  show "HostConfig_from_file (config_text P missing HostConfig_fields) p s = (Ok example_host_config, s')"
    unfolding host_file_iff [OF assms(1,2)] by (simp add: example_host_loads example_ports)
  show "AgentConfig_from_file (config_text P missing AgentConfig_fields) q t = (Ok example_agent_config, t')"
    unfolding agent_file_iff [OF assms(3,4)] by (simp add: example_agent_loads example_ports)
  show "hc_server_port example_host_config = ag_server_port example_agent_config"
    "hc_peer_port example_host_config = ag_client_port example_agent_config"
    by (simp_all add: example_ports)
  show "map en_name (ag_entities example_agent_config) = [''frontend-api'', ''metrics-collector'']"
    by (rule example_agent_entities)
  show "\<forall>e \<in> set (ag_entities example_agent_config). \<forall>csr cid.
      (\<exists>d. authorised example_host_config cid (cert_request example_agent_config e csr) d) = (cid = 42)"
  proof (intro ballI allI)
    fix e csr and cid :: u32 assume "e \<in> set (ag_entities example_agent_config)"
    then have "en_name e \<in> set (map en_name (ag_entities example_agent_config))" by simp
    then consider "en_name e = ''frontend-api''" | "en_name e = ''metrics-collector''"
      by (auto simp: example_agent_entities(2) simp del: set_map)
    then show "(\<exists>d. authorised example_host_config cid (cert_request example_agent_config e csr) d) = (cid = 42)"
      by cases (auto simp: authorised_def cert_request_def example_agent_entities(1) example_resolve)
  qed
qed

theorem example_configs_fit_witness:
  "\<exists>host agent.
    HostConfig_from_file (config_text example_json_lib (\<lambda>_ n. n) HostConfig_fields) [''host.json''] example_disk =
      (Ok host, example_disk) \<and>
    AgentConfig_from_file (config_text example_json_lib (\<lambda>_ n. n) AgentConfig_fields) [''agent.json''] example_disk =
      (Ok agent, example_disk) \<and>
    hc_peer_port host = ag_client_port agent"
proof -
  have parse: "json_parse example_json_lib (as_bytes ''host'') = Ok example_host"
    "json_parse example_json_lib (as_bytes ''agent'') = Ok example_agent"
    by (simp_all add: example_json_lib_def)
  from example_configs_fit [OF example_disk_reads(1) parse(1) example_disk_reads(2) parse(2), of "\<lambda>_ n. n"]
  show ?thesis by blast
qed


text \<open>C36: what the server's configuration file must say, in terms of its JSON members: it loads exactly when the
  two paths are strings, \<open>vms\<close> is an object of well-formed VM entries, the three numbers are absent or
  integers of 32 bits, and the server port is below 1000; \<open>null\<close>, a repeated member, a number as a
  string and an absent \<open>vms\<close> are refused, unknown members are ignored. This is the format of
  \<open>config.rs\<close> and of \<open>docs/server_configuration.md\<close>, which keys \<open>vms\<close> by VM name and has the default port
  900; the configuration reference of \<open>README.md\<close> describes another one, which is refused (next theorem).\<close>

theorem host_file_loads:
  assumes "read_to_string p s = (Ok data, s')" and "json_parse P (as_bytes data) = Ok (JObject kvs)"
  shows "HostConfig_from_file (config_text P missing HostConfig_fields) p s = (Ok cfg, s'') \<longleftrightarrow>
    s'' = s' \<and> unat (hc_server_port cfg) < 1000 \<and>
    json_field path_of_json kvs ''ca_cert_path'' = Some (hc_ca_cert_path cfg) \<and>
    json_field path_of_json kvs ''ca_key_path'' = Some (hc_ca_key_path cfg) \<and>
    json_default 900 u32_of_json kvs ''server_port'' = Some (hc_server_port cfg) \<and>
    json_default 365 u32_of_json kvs ''cert_validity_days'' = Some (hc_cert_validity_days cfg) \<and>
    (\<exists>vms. json_field (entries_of_json VmEntry_from_json) kvs ''vms'' = Some vms \<and> hc_vms cfg = hash_map vms) \<and>
    json_default 901 u32_of_json kvs ''peer_port'' = Some (hc_peer_port cfg)"
  unfolding host_file_iff [OF assms] HostConfig_from_object ..

theorem host_file_loads_witness:
  "json_default 901 u32_of_json (case example_host of JObject kvs \<Rightarrow> kvs | _ \<Rightarrow> []) ''peer_port'' = Some 901"
proof -
  obtain kvs where kvs: "example_host = JObject kvs" by (simp add: example_host_def)
  have parse: "json_parse example_json_lib (as_bytes ''host'') = Ok example_host"
    by (simp add: example_json_lib_def)
  have "HostConfig_from_file (config_text example_json_lib (\<lambda>_ n. n) HostConfig_fields) [''host.json''] example_disk =
      (Ok example_host_config, example_disk)"
    unfolding host_file_iff [OF example_disk_reads(1) parse] by (simp add: example_host_loads example_ports)
  with host_file_loads [OF example_disk_reads(1) parse [unfolded kvs], of "\<lambda>_ n. n" example_host_config example_disk]
  show ?thesis by (simp add: kvs example_ports)
qed

text \<open>
  What \<open>README.md\<close> describes is not what the programs read. Its \<open>VmEntry\<close> has a \<open>vm_name\<close> and no \<open>vm_cid\<close>: a
  host file with such an entry does not load, under whatever key it stands. Its port 9000 does not
  load either. Its agent file has no \<open>vm_name\<close>: it does not load.
\<close>

lemma entries_lack:
  assumes "(k, JObject vm) \<in> set vms" and "json_member vm ''vm_cid'' = None"
  shows "entries_of_json VmEntry_from_json (JObject vms) = None"
proof -
  have "VmEntry_from_json (JObject vm) = None"
  proof (cases "VmEntry_from_json (JObject vm)")
    case (Some e)
    with VmEntry_from_object [of vm e] assms(2) show ?thesis by (simp add: json_field_def)
  qed
  then have "map_option (Pair k) (VmEntry_from_json (JObject vm)) = None" by simp
  then have "None \<in> set (map (\<lambda>(k, v). map_option (Pair k) (VmEntry_from_json v)) vms)"
    using assms(1) by force
  then show ?thesis by (simp add: those_None)
qed

lemma json_default_present:
  "json_member kvs k = Some v \<Longrightarrow> json_default x d kvs k = d v"
  by (cases "d v") (auto simp: json_default_def json_opt_def json_member_opt_def json_member_def split: list.splits)

theorem readme_configs_refused:
  assumes "read_to_string p s = (Ok data, s')" and "json_parse P (as_bytes data) = Ok (JObject kvs)"
  shows "json_member kvs ''vms'' = Some (JObject vms) \<Longrightarrow> (k, JObject vm) \<in> set vms \<Longrightarrow>
      json_member vm ''vm_cid'' = None \<Longrightarrow>
      HostConfig_from_file (config_text P missing HostConfig_fields) p s \<noteq> (Ok host, t)"
    and "json_member kvs ''server_port'' = Some (JInt 9000) \<Longrightarrow>
      HostConfig_from_file (config_text P missing HostConfig_fields) p s \<noteq> (Ok host, t)"
    and "json_member kvs ''vm_name'' = None \<Longrightarrow>
      AgentConfig_from_file (config_text P missing AgentConfig_fields) p s \<noteq> (Ok agent, t)"
proof -
  show "HostConfig_from_file (config_text P missing HostConfig_fields) p s \<noteq> (Ok host, t)"
    if "json_member kvs ''vms'' = Some (JObject vms)" "(k, JObject vm) \<in> set vms" "json_member vm ''vm_cid'' = None"
    unfolding host_file_iff [OF assms] HostConfig_from_object
    using entries_lack [OF that(2,3)] that(1) by (simp add: json_field_def)
  show "HostConfig_from_file (config_text P missing HostConfig_fields) p s \<noteq> (Ok host, t)"
    if "json_member kvs ''server_port'' = Some (JInt 9000)"
    unfolding host_file_iff [OF assms] HostConfig_from_object
    using that json_default_present [of kvs "''server_port''" _ 900 u32_of_json] by auto
  show "AgentConfig_from_file (config_text P missing AgentConfig_fields) p s \<noteq> (Ok agent, t)"
    if "json_member kvs ''vm_name'' = None"
    unfolding agent_file_iff [OF assms] AgentConfig_from_object
    using that by (simp add: json_field_def)
qed

text \<open>The agent's file, likewise: in every entity the owner is required, the two modes are optional.\<close>

lemma agent_file_loads:
  assumes "read_to_string p s = (Ok data, s')" and "json_parse P (as_bytes data) = Ok (JObject kvs)"
  shows "AgentConfig_from_file (config_text P missing AgentConfig_fields) p s = (Ok cfg, s'') \<longleftrightarrow>
    s'' = s' \<and> unat (ag_server_port cfg) < 1000 \<and>
    json_field string_of_json kvs ''vm_name'' = Some (ag_vm_name cfg) \<and>
    json_default 900 u32_of_json kvs ''server_port'' = Some (ag_server_port cfg) \<and>
    json_field (vec_of_json EntityEntry_from_json) kvs ''entities'' = Some (ag_entities cfg) \<and>
    json_default 901 u32_of_json kvs ''client_port'' = Some (ag_client_port cfg)"
  unfolding agent_file_iff [OF assms] AgentConfig_from_object ..

end
