(* ===== verification/Provenance.thy ===== *)
theory Provenance
  imports Handler Evaluator
begin

text \<open>
  Where the claim of an evaluator comes from. The CA key signs two kinds of messages: the signing
  inputs of the tokens (\<open>jwt.rs\<close>, called by \<open>sign_csr\<close> of \<open>signing.rs\<close>) and, inside \<open>rcgen\<close>, the
  \<open>TBSCertificate\<close>s of the CA's own certificate (\<open>ca.rs\<close>) and of the leaf certificates. This theory keeps
  both in one history and traces what an evaluator accepts back to it. Nothing is assumed of the
  strength of signatures: the result names the message and the signature that would have to be forged.
\<close>

section \<open>What the CA key has signed\<close>

text \<open>A connection that the server has handled, with the clock and randomness, the peer's CID and the policy of that time.\<close>

record handled =
  sv_env :: call_env
  sv_cid :: u32
  sv_config :: HostConfig
  sv_stream :: stream

text \<open>The claim that is signed for a connection, if any: that of a readable request that is not refused.\<close>

definition signed_claim :: "('k, 'kp, 'cert, 'csr) server_env \<Rightarrow> handled \<Rightarrow> CapClaim option" where
  "signed_claim E s =
     (case fst (recv_json (se_request_json E) (sv_stream s)) of
        Ok req \<Rightarrow>
          if refusal (sv_config s) (sv_cid s) req \<noteq> None then None
          else (case (resolve (sv_config s) (rq_vm_name req) (rq_entity req), env_now (sv_env s)) of
              (Some d, Ok secs) \<Rightarrow> Some (cap_claim secs (signing_request req d (sv_cid s)))
            | _ \<Rightarrow> None)
      | _ \<Rightarrow> None)"

definition token_message :: "'k jwt_lib \<Rightarrow> CapClaim \<Rightarrow> bytes option" where
  "token_message L c =
     (case claim_to_string L c of Ok t \<Rightarrow> Some (as_bytes (jwt_signing_input L t)) | _ \<Rightarrow> None)"

text \<open>
  A \<open>TBSCertificate\<close> is a DER \<open>SEQUENCE\<close>. It is longer than 127 bytes (the key information of a P-256 key
  alone is 91 bytes, the validity at least 30), so the length is in the long form.
\<close>

definition tbs_certificate :: "bytes \<Rightarrow> bool" where
  "tbs_certificate tbs \<longleftrightarrow>
     (case tbs of tag # len # _ \<Rightarrow> tag = 0x30 \<and> 0x81 \<le> len \<and> len \<le> 0x88 | _ \<Rightarrow> False)"

definition signed_messages ::
  "('k, 'kp, 'cert, 'csr) server_env \<Rightarrow> handled list \<Rightarrow> bytes list \<Rightarrow> bytes set" where
  "signed_messages E history tbss =
     {m. \<exists>s \<in> set history. \<exists>c. signed_claim E s = Some c \<and> token_message (se_jwt E) c = Some m} \<union> set tbss"

lemma signed_claim_Some_iff:
  "signed_claim E s = Some c \<longleftrightarrow>
     (\<exists>req st' d secs. recv_json (se_request_json E) (sv_stream s) = (Ok req, st') \<and>
        authorised (sv_config s) (sv_cid s) req d \<and> env_now (sv_env s) = Ok secs \<and>
        c = cap_claim secs (signing_request req d (sv_cid s)))"
  by (cases "recv_json (se_request_json E) (sv_stream s)")
    (auto simp: signed_claim_def refusal_def authorised_def split: res.splits option.splits if_splits)

text \<open>The claims that were signed are read back from their JSON texts.\<close>

definition claims_read_back :: "('k, 'kp, 'cert, 'csr) server_env \<Rightarrow> handled list \<Rightarrow> bool" where
  "claims_read_back E history \<longleftrightarrow> (\<forall>s \<in> set history. \<forall>c t. signed_claim E s = Some c \<longrightarrow>
     claim_to_string (se_jwt E) c = Ok t \<longrightarrow> claim_from_slice (se_jwt E) (as_bytes t) = Ok c)"

text \<open>
  The history is complete for the tokens: a connection uses the signing function at the message of its
  claim and nowhere else. Change what it returns for every other message: the connection goes the same.
\<close>

lemma jwt_sign_uses:
  assumes "\<And>m. token_message L c = Some m \<Longrightarrow> f (js_key_pair k) (js_rng k) m = ring_sign L (js_key_pair k) (js_rng k) m"
  shows "jwt_sign (L\<lparr>ring_sign := f\<rparr>) k c = jwt_sign L k c"
  using assms
  by (cases "claim_to_string L c") (simp_all add: jwt_sign_def token_message_def jwt_signing_input_def Let_def)

lemma sign_csr_uses:
  assumes "\<And>secs m kp r. env_now env = Ok secs \<Longrightarrow> token_message L (cap_claim secs req) = Some m \<Longrightarrow>
    f kp r m = ring_sign L kp r m"
  shows "sign_csr (L\<lparr>ring_sign := f\<rparr>) R env ca req = sign_csr L R env ca req"
proof (cases "env_now env")
  case (Ok secs)
  have "jwt_sign (L\<lparr>ring_sign := f\<rparr>) k (cap_claim secs req) = jwt_sign L k (cap_claim secs req)" for k
    by (rule jwt_sign_uses) (use assms [OF Ok] in simp)
  then show ?thesis by (simp add: sign_csr_def Ok Let_def from_pkcs8_der_def)
qed (simp_all add: sign_csr_def)

lemma connection_signs_only:
  assumes "\<And>c m kp r. signed_claim E s = Some c \<Longrightarrow> token_message (se_jwt E) c = Some m \<Longrightarrow>
    f kp r m = ring_sign (se_jwt E) kp r m"
  shows "handle_connection (E\<lparr>se_jwt := (se_jwt E)\<lparr>ring_sign := f\<rparr>\<rparr>) (sv_env s) (sv_cid s) (sv_config s) ca (sv_stream s)
    = handle_connection E (sv_env s) (sv_cid s) (sv_config s) ca (sv_stream s)"
proof -
  let ?E = "E\<lparr>se_jwt := (se_jwt E)\<lparr>ring_sign := f\<rparr>\<rparr>"
  obtain r st' where recv: "recv_json (se_request_json E) (sv_stream s) = (r, st')" by fastforce
  have "handle_inner ?E (sv_env s) (sv_cid s) (sv_config s) ca (sv_stream s) =
      handle_inner E (sv_env s) (sv_cid s) (sv_config s) ca (sv_stream s)"
  proof (cases r)
    case (Ok req)
    have "sign_csr (se_jwt ?E) (se_rcgen E) (sv_env s) ca (signing_request req d (sv_cid s)) =
        sign_csr (se_jwt E) (se_rcgen E) (sv_env s) ca (signing_request req d (sv_cid s))"
      if "authorised (sv_config s) (sv_cid s) req d" for d
    proof -
      have "f kp r m = ring_sign (se_jwt E) kp r m" if "env_now (sv_env s) = Ok secs"
          "token_message (se_jwt E) (cap_claim secs (signing_request req d (sv_cid s))) = Some m" for secs m kp r
        using assms [OF _ that(2)] recv Ok \<open>authorised _ _ req d\<close> that(1) by (auto simp: signed_claim_Some_iff)
      from sign_csr_uses [OF this] show ?thesis by simp
    qed
    then show ?thesis
      using recv Ok by (simp add: handle_inner_def io_bind_def authorised_def split: option.split)
  qed (use recv in \<open>simp_all add: handle_inner_def res_simps\<close>)
  then show ?thesis by (simp add: handle_connection_def split: prod.split res.split)
qed

section \<open>What would have to be forged\<close>

text \<open>
  The peer's certificate carries a token whose signature verifies under the key of the trusted
  certificate although its message is not among those that were signed.
\<close>

definition forged_token ::
  "'k jwt_lib \<Rightarrow> x509_lib \<Rightarrow> string \<Rightarrow> string \<Rightarrow> bytes set \<Rightarrow> bool" where
  "forged_token L X peer_pem ca_pem messages \<longleftrightarrow>
     (\<exists>pk peer v inner h p s sig. trusted_key X ca_pem pk \<and> parse_cert_pem X ''Peer'' peer_pem = Ok peer \<and>
        find_cap_ext (xc_extensions peer) = Ok (Some v) \<and> unwrap_octet_string v = Ok inner \<and>
        from_utf8 inner = Ok (h @ ''.'' @ p @ ''.'' @ s) \<and> b64_decode L s = Ok sig \<and>
        ring_verify L pk (as_bytes (h @ ''.'' @ p)) sig \<and> as_bytes (h @ ''.'' @ p) \<notin> messages)"

text \<open>
  A signature made on a certificate is of no use as a signature on a token: the token has to be UTF-8,
  and a \<open>TBSCertificate\<close> does not start like a UTF-8 text.
\<close>

lemma tbs_not_utf8: "tbs_certificate tbs \<Longrightarrow> \<not> utf8_valid (tbs @ bs)"
proof -
  assume "tbs_certificate tbs"
  then obtain len rest where tbs: "tbs = 0x30 # len # rest" and "0x81 \<le> len" "len \<le> 0x88"
    by (auto simp: tbs_certificate_def split: list.splits)
  then have len: "129 \<le> unat len" "unat len \<le> 136" by (simp_all add: word_le_nat_alt)
  then have "\<not> utf8_valid (len # rest @ bs)"
    by (simp add: utf8_valid.simps(2) word_le_nat_alt word_less_nat_alt)
  moreover have "utf8_valid (0x30 # len # rest @ bs) = utf8_valid (len # rest @ bs)"
    by (simp add: utf8_valid.simps(2) [of "0x30"] word_less_nat_alt)
  ultimately show ?thesis by (simp add: tbs)
qed

lemma from_utf8_Ok_iff: "from_utf8 bs = Ok s \<longleftrightarrow> utf8_valid bs \<and> bs = as_bytes s"
  by (auto simp: from_utf8_def split: if_splits)

lemma token_not_tbs:
  assumes "from_utf8 inner = Ok (a @ b)" and "tbs_certificate tbs"
  shows "as_bytes a \<noteq> tbs"
  using assms tbs_not_utf8 [of tbs "as_bytes b"] by (auto simp: from_utf8_Ok_iff)

text \<open>The message of a token that verifies is the message of its claim, when it was signed for a claim at all.\<close>

lemma token_message_claim:
  assumes "base64_law L" and "CHR ''.'' \<notin> set h" and "b64_decode L p = Ok payload"
    and "claim_to_string L c = Ok t" and "as_bytes (h @ ''.'' @ p) = as_bytes (jwt_signing_input L t)"
  shows "payload = as_bytes t"
proof -
  have "h @ ''.'' @ p = jwt_signing_input L t" using assms(5) as_bytes_inj by blast
  from signing_input_payload [OF assms(1,2) this] assms(1,3) show ?thesis
    by (simp add: base64_lawD)
qed

lemma accepted_claim_signed:
  assumes "base64_law (se_jwt E)" and "\<forall>tbs \<in> set tbss. tbs_certificate tbs"
    and "claims_read_back E history"
    and "from_cert_pem (se_jwt E) X peer_pem ca_pem = Ok ev"
    and "\<not> forged_token (se_jwt E) X peer_pem ca_pem (signed_messages E history tbss)"
  shows "\<exists>s \<in> set history. signed_claim E s = Some (ev_claim ev)"
proof -
  let ?L = "se_jwt E"
  from assms(4) obtain pk peer v inner jwt where
    cert: "trusted_key X ca_pem pk" "parse_cert_pem X ''Peer'' peer_pem = Ok peer"
      "find_cap_ext (xc_extensions peer) = Ok (Some v)" "unwrap_octet_string v = Ok inner"
    and utf8: "from_utf8 inner = Ok jwt" and verified: "verify_cap_jwt ?L jwt pk = Ok (ev_claim ev)"
    unfolding from_cert_pem_Ok_iff by blast
  from verified obtain h p s sig payload where
    jwt: "jwt = h @ ''.'' @ p @ ''.'' @ s" "CHR ''.'' \<notin> set h"
    and sig: "b64_decode ?L s = Ok sig" "ring_verify ?L pk (as_bytes (h @ ''.'' @ p)) sig"
    and payload: "b64_decode ?L p = Ok payload" "claim_from_slice ?L payload = Ok (ev_claim ev)"
    unfolding verify_cap_jwt_Ok_splitn splitn3_dot by blast
  have "as_bytes (h @ ''.'' @ p) \<in> signed_messages E history tbss"
    using assms(5) cert utf8 sig unfolding forged_token_def jwt(1) by blast
  moreover have "from_utf8 inner = Ok ((h @ ''.'' @ p) @ (''.'' @ s))" using utf8 jwt(1) by simp
  with assms(2) have "as_bytes (h @ ''.'' @ p) \<notin> set tbss" using token_not_tbs by blast
  ultimately obtain sv c where sv: "sv \<in> set history" "signed_claim E sv = Some c"
    and message: "token_message ?L c = Some (as_bytes (h @ ''.'' @ p))"
    by (auto simp: signed_messages_def)
  from message obtain t where t: "claim_to_string ?L c = Ok t"
    "as_bytes (h @ ''.'' @ p) = as_bytes (jwt_signing_input ?L t)"
    by (auto simp: token_message_def split: res.splits)
  from assms(3) sv t(1) have "claim_from_slice ?L (as_bytes t) = Ok c"
    unfolding claims_read_back_def by blast
  with token_message_claim [OF assms(1) jwt(2) payload(1) t] payload(2)
  have "c = ev_claim ev" by simp
  with sv show ?thesis by blast
qed

section \<open>Properties\<close>

definition sample_handled :: handled where
  "sample_handled = \<lparr>sv_env = sample_env, sv_cid = 10, sv_config = sample_host_config, sv_stream = request_stream\<rparr>"

lemma sample_signed_claim: "signed_claim sample_server_env sample_handled = Some sample_claim"
  unfolding signed_claim_Some_iff using sample_authorised
  by (intro exI [of _ sample_cert_request] exI [of _ empty_stream] exI [of _ sample_decision] exI [of _ 1700000000])
    (simp add: sample_handled_def request_stream_recv sample_env_def sample_signing_request sample_cap_claim)

lemma sample_not_forged:
  "\<not> forged_token (sample_jwt_lib sample_claim) X peer_pem ca_pem (signed_messages sample_server_env [sample_handled] tbss)"
proof -
  have "sample_message \<in> signed_messages sample_server_env [sample_handled] tbss"
    by (simp add: signed_messages_def sample_signed_claim token_message_def sample_signing_input)
  then show ?thesis by (auto simp: forged_token_def)
qed

text \<open>C12: a claim cannot be invented or changed on its way to an evaluator: when an evaluator was built, its
  claim is the one that the server signed for some connection it has served, for a VM and an entity
  that the policy of that time knows, from the CID of that VM, with exactly the entity's configured
  capabilities; or else the peer's certificate carries a forgery, a signature that verifies under the
  trusted key on a message that is not in the history of what the CA key has signed. The history has
  the token of every connection (lemma \<open>connection_signs_only\<close>: a connection signs nothing else) and the
  certificates that the same key signs; it is proved that a signature on a certificate does not help.\<close>

theorem evaluator_holds_signed_claim:
  assumes "base64_law (se_jwt E)" and "\<forall>tbs \<in> set tbss. tbs_certificate tbs"
    and "claims_read_back E history"
    and "from_cert_pem (se_jwt E) X peer_pem ca_pem = Ok ev"
  shows "(\<exists>s \<in> set history. \<exists>req st' secs e p. recv_json (se_request_json E) (sv_stream s) = (Ok req, st') \<and>
      hc_vms (sv_config s) (rq_vm_name req) = Some e \<and> vm_entities e (rq_entity req) = Some p \<and>
      vm_cid e = sv_cid s \<and> env_now (sv_env s) = Ok secs \<and>
      cl_vm (ev_claim ev) = rq_vm_name req \<and> cl_sub (ev_claim ev) = rq_entity req \<and>
      cl_cid (ev_claim ev) = sv_cid s \<and> cl_iat (ev_claim ev) = of_nat secs \<and> cl_caps (ev_claim ev) = po_caps p) \<or>
    forged_token (se_jwt E) X peer_pem ca_pem (signed_messages E history tbss)"
proof (rule disjCI)
  assume "\<not> forged_token (se_jwt E) X peer_pem ca_pem (signed_messages E history tbss)"
  from accepted_claim_signed [OF assms this] obtain s req st' d secs where s: "s \<in> set history"
    and req: "recv_json (se_request_json E) (sv_stream s) = (Ok req, st')" "env_now (sv_env s) = Ok secs"
    and auth: "authorised (sv_config s) (sv_cid s) req d"
    and claim: "ev_claim ev = cap_claim secs (signing_request req d (sv_cid s))"
    by (auto simp: signed_claim_Some_iff)
  from auth obtain e p where policy: "hc_vms (sv_config s) (rq_vm_name req) = Some e"
    "vm_entities e (rq_entity req) = Some p" "vm_cid e = sv_cid s"
    and d: "pd_vm_name d = rq_vm_name req" "pd_caps d = po_caps p"
    by (auto simp: authorised_def resolve_Some_iff)
  show "\<exists>s \<in> set history. \<exists>req st' secs e p. recv_json (se_request_json E) (sv_stream s) = (Ok req, st') \<and>
      hc_vms (sv_config s) (rq_vm_name req) = Some e \<and> vm_entities e (rq_entity req) = Some p \<and>
      vm_cid e = sv_cid s \<and> env_now (sv_env s) = Ok secs \<and>
      cl_vm (ev_claim ev) = rq_vm_name req \<and> cl_sub (ev_claim ev) = rq_entity req \<and>
      cl_cid (ev_claim ev) = sv_cid s \<and> cl_iat (ev_claim ev) = of_nat secs \<and> cl_caps (ev_claim ev) = po_caps p"
    by (rule bexI [OF _ s], rule exI [of _ req], rule exI [of _ st'], rule exI [of _ secs],
        rule exI [of _ e], rule exI [of _ p])
      (simp add: req policy claim cap_claim_def signing_request_def d Let_def)
qed

theorem evaluator_holds_signed_claim_witness:
  "\<exists>req st' e p. recv_json request_serde request_stream = (Ok req, st') \<and>
     hc_vms sample_host_config (rq_vm_name req) = Some e \<and> vm_entities e (rq_entity req) = Some p \<and>
     cl_sub sample_claim = rq_entity req \<and> cl_caps sample_claim = po_caps p"
proof -
  have tbs: "\<forall>tbs \<in> set [[0x30, 0x82, 1, 10, 0xA0, 3]]. tbs_certificate tbs"
    by (simp add: tbs_certificate_def word_le_nat_alt)
  have json: "claims_read_back sample_server_env [sample_handled]"
    by (simp add: claims_read_back_def sample_signed_claim)
  have base: "base64_law (se_jwt sample_server_env)" by simp
  have built: "from_cert_pem (se_jwt sample_server_env) sample_x509 ''LEAF'' ''ROOT'' = Ok \<lparr>ev_claim = sample_claim\<rparr>"
    using sample_evaluates [OF sample_x509_parse(2)] by simp
  from evaluator_holds_signed_claim [OF base tbs json built] show ?thesis
    using sample_not_forged by (auto simp: sample_handled_def)
qed

end
