(* ===== verification/Spec2Isabelle.thy ===== *)
theory Spec2Isabelle
  imports Expiry Isolation Backpressure System Server_Main Agent_Main Go_Json Json_Protocol Config_Json Provenance
begin

text \<open>
  \<^bold>\<open>What this is.\<close> A model of \<open>auth-scope\<close>, a certificate authority for the virtual machines of a
  host. A server on the host reads a policy (which entity of which VM has which capabilities). An
  agent in each guest makes a key pair and a certificate request per entity, connects to the server
  over vsock, and stores what it gets. The server checks the request against the policy and the
  peer's CID, and issues a certificate with a signed capability token in an extension. An evaluator,
  linked into the services, takes the token out of a peer's certificate, verifies it with the CA's
  key and answers what the peer may call or access. There is one evaluator in Rust and one in Go. All
  Rust and Go code under \<open>src/\<close> is modelled.

  \<^bold>\<open>Theories and code.\<close> \<open>lib\<close>, \<open>agent\<close> and \<open>server\<close> stand for \<open>src/libs/rust-libs\<close> and
  \<open>src/apps/rust-apps/auth-scope-agent/src\<close>, \<open>.../auth-scope-server/src\<close>.
  \<^item> \<open>Prelude\<close>, \<open>Rust_Str\<close>: results with a panic outcome, state-passing operations, \<open>anyhow\<close> errors,
    and the string routines of the standard library that the code calls.
  \<^item> \<open>Wire\<close> (\<open>caps.rs\<close>, \<open>wire.rs\<close>), \<open>Length_Prefix\<close> (a contract, below), \<open>Codec\<close> (\<open>codec.rs\<close>): the
    messages and their frames. \<open>Json\<close>: the encoders that the derives and attributes of these structs
    declare, on JSON values; \<open>Json_Protocol\<close>: the server on JSON that is no request.
  \<^item> \<open>Ca_Error\<close> (\<open>error.rs\<close>), \<open>Jwt\<close> (\<open>jwt.rs\<close>), \<open>Rcgen\<close> (the interface of that crate), \<open>Ca\<close> (\<open>ca.rs\<close>),
    \<open>Signing\<close> (\<open>signing.rs\<close>): the CA engine.
  \<^item> \<open>Evaluator\<close> (\<open>lib.rs\<close> of the evaluator), \<open>Eval_Test\<close> (its test command and its unit test),
    \<open>Go_Evaluator\<close> (\<open>evaluator.go\<close> and \<open>main.go\<close> under \<open>src/libs/go-libs\<close>), \<open>Expiry\<close> (the dates in a
    token, for both), \<open>Go_Json\<close> (how each of the two reads the JSON of a claim), \<open>Provenance\<close> (where a claim
    that an evaluator holds comes from).
  \<^item> \<open>Fs\<close>: files with modes, owners and a schedule of system-call faults, and the functions of
    \<open>std::fs\<close> in terms of them.
  \<^item> \<open>Config_Load\<close> (a contract), \<open>Host_Config\<close>, \<open>Agent_Config\<close>: the two \<open>config.rs\<close>. \<open>Config_Json\<close>: their
    structs on JSON values, and the files of \<open>src/config-examples\<close>.
  \<^item> \<open>Policy\<close> (\<open>policy.rs\<close>), \<open>Handler\<close> (\<open>handler.rs\<close>), \<open>Listener\<close> (\<open>listener.rs\<close>), \<open>Server_Main\<close>
    (\<open>main.rs\<close>): the server. \<open>Task\<close>, \<open>Interleaving\<close>, \<open>Secrecy\<close> and \<open>Isolation\<close> model handler, codec and
    accept loop again, at the grain of their await points; \<open>Backpressure\<close> adds flow control to \<open>Task\<close>.
  \<^item> \<open>Csr\<close> (\<open>csr.rs\<close>), \<open>Store\<close> (\<open>store.rs\<close>), \<open>Retry\<close> (a contract), \<open>Client\<close> (\<open>client.rs\<close>),
    \<open>Agent_Main\<close> (\<open>main.rs\<close>): the agent. \<open>Agent_Task\<close>: its exchange at the grain of the await points.
  \<^item> \<open>Session\<close>: one agent and the task that serves it, joined by two channels. \<open>System\<close>: the accept loop
    with any number of such sessions and of other peers.
  \<^item> This theory joins the agent, the server and the evaluator.

  \<^bold>\<open>Conventions.\<close> A definition has the name of its Rust function, prefixed by the type where several
  share it; record fields have a prefix per type. A \<open>String\<close> is its bytes. \<open>u32\<close>, \<open>u64\<close>, \<open>i64\<close> and
  \<open>usize\<close> (64 bits) are words wherever they are computed with, and wrap as in a release build; lengths
  that only index a list are natural numbers. An effect is a function from the state to a result and
  the new state, and an error leaves the state where the code stopped. A panic is an outcome.

  \<^bold>\<open>Two grains of concurrency.\<close> In \<open>Codec\<close>, \<open>Handler\<close> and \<open>Listener\<close> a stream holds all its input and
  the run of a task is one step. In \<open>Task\<close> a connection is a state machine: where the task is
  suspended, what has arrived, what is still to come; its steps are the reads and writes of any size,
  the code between them, the arrival of bytes and the end of the input. In \<open>Task\<close> the transport takes a part
  of every write; in \<open>Backpressure\<close> it holds a bounded number of bytes that the peer has not read, and a write
  waits when it is full; its runs are runs of \<open>Task\<close>, and it comes to the same end. \<open>Interleaving\<close> runs any number
  of them beside the accept loop. The refinements show that the fine machine implements the coarse
  one, so that what is proved of \<open>handle_connection\<close> and \<open>listener_run\<close> holds of every interleaving.
  The agent's exchange has the same two grains (\<open>exchange\<close> in \<open>Client\<close>, the state machine in
  \<open>Agent_Task\<close>). \<open>Session\<close> and \<open>System\<close> put it in the place of the peer, for agents
  whose own transport does not fail; one whose transport fails is an other peer there.

  \<^bold>\<open>What is a parameter.\<close> \<open>base64\<close>, \<open>ring\<close>,
  \<open>rcgen\<close>, \<open>rustls-pemfile\<close>, \<open>x509-parser\<close>, \<open>clap\<close>,
  \<open>serde_json\<close> and Go's standard library are functions, arguments of the definitions that
  use them; so are the clock, the randomness and the kernel's answers. What a theorem relies on is a
  named hypothesis about one of them: \<open>serde_law\<close>, \<open>base64_law\<close>,
  \<open>signature_law\<close>, \<open>claim_json_law\<close>,
  \<open>pem_law\<close>, \<open>calendar_law\<close>, \<open>x509_law\<close>, and for Go
  \<open>go_base64_law\<close>, \<open>go_der_law\<close>, \<open>go_signature_law\<close>,
  \<open>base64_alike\<close>, \<open>json_parsers_alike\<close>, \<open>go_claim_law\<close>, \<open>go_parses_issued\<close>. Nothing is assumed of how
  hard signatures are to forge: \<open>Provenance\<close> keeps a history of what the CA key has signed, tokens and
  certificates, and shows what would have to be forged. Every one of them holds of a small
  concrete library (\<open>sample_...\<close>), and the theorems are applied to it in their witnesses. The
  laws about JSON are theorems where the encoders of \<open>Json\<close> and \<open>Go_Json\<close> are put in: what
  is left of them is \<open>json_text_law\<close> and \<open>go_text_law\<close>, that a printed text is read back as the value it was.
  Not given is what \<open>encoding/json\<close> does with two keys that mean one field (\<open>gj_ambiguous\<close>).

  \<^bold>\<open>Contracts.\<close> \<open>length_prefix\<close> is provided by the frame header and by
  the DER length; \<open>port_checked_loader\<close> by both configuration loaders and used by both
  \<open>main\<close> functions; \<open>grant_scan\<close> by the evaluator's two questions;
  \<open>secret_service\<close> by the handler, for the accept loop; \<open>retry_loop\<close> by the
  agent's connect and listen loops; \<open>peer_evaluator\<close> by the Rust and by the Go evaluator,
  and \<open>evaluator_pair\<close> by the two together; \<open>json_codec\<close> by every derived encoder, and by
  Go's readers of what Rust writes; \<open>reads_alike\<close> by each pair of readers of one type.

  \<^bold>\<open>What is shown.\<close> Here: from the policy to the peer's rights, through all parts and in
  JSON on the way, for both evaluators.
  Json: round trips, messages told apart, what is accepted; Go_Json: the two evaluators' decoders agree.
  Codec: round trip, refinement of the abstract frame reader, limits, truncation. Token: round trip,
  exact acceptance. Provenance: the claim of an evaluator is that of a connection the server has answered
  under its policy, or the certificate carries a forged signature. CA: what is on disk after \<open>init\<close>, under faults too, and
  reloading. Signing: the claim's and the certificate's fields and validity. Evaluator: DER unwrapping
  against its specification, which inputs panic, what the two questions mean. Go evaluator: agreement
  with the Rust one, also on tokens that the CA has not made, and that it does not panic; Expiry: a token is accepted for ever. Handler: the
  answer on every branch, who can get a certificate, independence from the CA of everything else. Task:
  its outcome on every schedule, termination, the sizes of its buffers, when it can go on; Backpressure: the same with flow control, and
  that a peer that does not read holds its task. Agent_Task: the same for the agent. Session: an agent and its task cannot deadlock, and the answer arrives.
  System: it comes to rest with every agent answered, and its server part is a run of the server against
  arbitrary peers. Listener and Interleaving: all interleavings, that no peer holds up another,
  termination between accepts, noninterference. Isolation: the same noninterference while others are
  served. Server and agent start: which configurations are accepted, a restart. Client: where a
  connection comes from, that of the sockets only the listener stays open, retries, what reaches the disk. Config_Json: what a file must
  say, that the example files fit together, and that the files of the README are refused. Store: data, modes, owners, and
  what a failure leaves behind.

  \<^bold>\<open>Bounds.\<close> No fuel: both retry loops end after eleven attempts by a measure, the
  other loops are structural, and the step relations have well-founded measures. A DER length is exact
  below 65536 bytes (the encoder writes two bytes) and slices are assumed below 2^63 bytes, as Rust
  guarantees. Timestamps are 64-bit words.

  \<^bold>\<open>What is not modelled.\<close> Logging and printed texts, the scheduler of the asynchronous runtime (any
  schedule is a run), what a signal does to the process, the DER and PEM formats and the text of JSON, module
  declarations, packaging.
\<close>

section \<open>The agent and the server\<close>

text \<open>
  The two ends of one connection: what the server reads is what the agent writes, and what the agent
  reads is what the server writes.
\<close>

definition served_by ::
  "('k, 'kp, 'cert, 'csr) server_env \<Rightarrow> call_env \<Rightarrow> u32 \<Rightarrow> HostConfig \<Rightarrow> CertificateAuthority
     \<Rightarrow> CertRequest serde \<Rightarrow> CertRequest \<Rightarrow> stream \<Rightarrow> bool" where
  "served_by E env cid config ca Jq req st \<longleftrightarrow> healthy st \<and> s_out st = [] \<and>
     (\<exists>sv. healthy sv \<and> s_out sv = [] \<and> s_in sv = s_out (snd (send_json Jq req st)) \<and>
        s_in st = s_out (snd (handle_connection E env cid config ca sv)))"

lemma exchange_gets_answer:
  assumes "served_by E env cid config ca Jq req st"
    and "se_request_json E = Jq" and "se_response_json E = Jr"
    and "serde_law Jq req q" "length q \<le> MAX_MSG_BYTES"
    and "answer E env cid config ca req = Some resp"
    and "serde_law Jr resp r" "length r \<le> MAX_MSG_BYTES"
  shows "fst (exchange Jq Jr req st) = Ok resp"
proof -
  from assms(1) obtain sv where st: "healthy st" "s_out st = []"
    and sv: "healthy sv" "s_out sv = []" "s_in sv = s_out (snd (send_json Jq req st))"
    and reply: "s_in st = s_out (snd (handle_connection E env cid config ca sv))"
    unfolding served_by_def by blast
  have sent: "send_json Jq req st = (Ok (), st\<lparr>s_out := lp_frame put_frame_len q\<rparr>)"
    using send_json_healthy [OF st(1) serde_lawD(1) [OF assms(4)]] st(2) by simp
  then have "s_in sv = lp_frame put_frame_len q @ []" using sv(3) by simp
  from recv_json_frame [OF this assms(5), of Jq]
  have recv: "recv_json (se_request_json E) sv = (Ok req, sv\<lparr>s_in := []\<rparr>)"
    using serde_lawD(2) [OF assms(4)] assms(2) by simp
  have "healthy (sv\<lparr>s_in := []\<rparr>)" using sv(1) by simp
  from handle_connection_answers [OF recv this assms(6), of r]
  have "s_in st = lp_frame put_frame_len r @ []"
    using reply sv(2) serde_lawD(1) [OF assms(7)] assms(3) by simp
  then have "s_in (st\<lparr>s_out := lp_frame put_frame_len q\<rparr>) = lp_frame put_frame_len r @ []" by simp
  from recv_json_frame [OF this assms(8), of Jr] sent show ?thesis
    using serde_lawD(2) [OF assms(7)] by (simp add: exchange_def res_simps)
qed

text \<open>A stream on which the frame of the answer waits has ended at the server.\<close>

lemma served_by_answer:
  assumes "healthy st" "s_out st = []" and "serde_law Jq req q" "length q \<le> MAX_MSG_BYTES"
    and "se_request_json E = Jq" and "answer E env cid config ca req = Some resp"
    and "to_vec (se_response_json E) resp = Ok r" and "s_in st = lp_frame put_frame_len r"
  shows "served_by E env cid config ca Jq req st"
proof -
  let ?sv = "empty_stream\<lparr>s_in := lp_frame put_frame_len q\<rparr>"
  have sent: "s_out (snd (send_json Jq req st)) = lp_frame put_frame_len q"
    using send_json_healthy [OF assms(1) serde_lawD(1) [OF assms(3)]] assms(2) by simp
  have "recv_json (se_request_json E) ?sv = (Ok req, ?sv\<lparr>s_in := []\<rparr>)"
    using recv_json_frame [of ?sv q "[]" Jq] assms(4,5) serde_lawD(2) [OF assms(3)] by simp
  from handle_connection_answers [OF this _ assms(6,7)]
  have "s_out (snd (handle_connection E env cid config ca ?sv)) = s_in st" using assms(8) by simp
  with assms(1,2) sent show ?thesis
    unfolding served_by_def by (intro conjI exI [of _ ?sv]) simp_all
qed

section \<open>From the policy to the rights of a peer\<close>

text \<open>What the policy grants to a request from a CID.\<close>

definition policy_grants :: "HostConfig \<Rightarrow> u32 \<Rightarrow> CertRequest \<Rightarrow> Capability list option" where
  "policy_grants config cid req =
     (case hc_vms config (rq_vm_name req) of
        None \<Rightarrow> None
      | Some e \<Rightarrow>
          if vm_cid e \<noteq> cid then None else map_option po_caps (vm_entities e (rq_entity req)))"

lemma authorised_policy_grants: "authorised config cid req d \<Longrightarrow> policy_grants config cid req = Some (pd_caps d)"
  by (auto simp: authorised_def policy_grants_def resolve_Some_iff)

lemma answered_signed:
  assumes "answer E env cid config ca req = Some (RespOk pem ca_pem)" and "authorised config cid req d"
  shows "ca_pem = ca_cert_pem ca"
    and "sign_csr (se_jwt E) (se_rcgen E) env ca (signing_request req d cid) = Ok pem"
proof -
  from assms(1) obtain d' where d': "authorised config cid req d'" "ca_pem = ca_cert_pem ca"
    "sign_csr (se_jwt E) (se_rcgen E) env ca (signing_request req d' cid) = Ok pem"
    unfolding answer_Ok_iff by blast
  from assms(2) d'(1) have "d' = d" by (simp add: authorised_def)
  with d'(2,3) show "ca_pem = ca_cert_pem ca"
    and "sign_csr (se_jwt E) (se_rcgen E) env ca (signing_request req d cid) = Ok pem" by simp_all
qed

text \<open>What an evaluator holds when it was built from a certificate that the server issued.\<close>

lemma answered_certificate_evaluates:
  assumes "answer E env cid config ca req = Some (RespOk pem ca_pem)"
    and d: "authorised config cid req d"
    and issued: "env_now env = Ok secs" "from_pkcs8_der (se_jwt E) (env_rng env) (ca_key_der ca) = Ok signer"
      "jwt_sign (se_jwt E) signer (cap_claim secs (signing_request req d cid)) = Ok jwt"
      "rg_csr_from_pem (se_rcgen E) (rq_csr_pem req) = Ok csr"
    and laws: "base64_law (se_jwt E)" "claim_json_law (se_jwt E) (cap_claim secs (signing_request req d cid)) payload"
      "signature_law (se_jwt E) (js_key_pair signer) pk" "trusted_key X (ca_cert_pem ca) pk"
    and parsed: "parses_issued X (se_rcgen E) env csr jwt (pd_validity_days d)"
    and csr: "\<forall>e \<in> set (cp_custom_extensions (cs_params csr)). ce_oid e \<noteq> CAP_EXTENSION_OID"
    and small: "length jwt < 65536"
  shows "ca_pem = ca_cert_pem ca \<and> from_cert_pem (se_jwt E) X pem ca_pem =
    Ok \<lparr>ev_claim = cap_claim secs (signing_request req d cid)\<rparr>"
proof -
  note sign = answered_signed(2) [OF assms(1) d]
  have "from_cert_pem (se_jwt E) X pem (ca_cert_pem ca) =
      Ok \<lparr>ev_claim = cap_claim secs (signing_request req d cid)\<rparr>"
    by (rule issued_certificate_evaluates [OF sign issued(1-3) _ laws _ csr small])
      (use issued(4) parsed in \<open>simp_all add: signing_request_def\<close>)
  with answered_signed(1) [OF assms(1) d] show ?thesis by simp
qed

text \<open>The rights of an evaluator that holds the claim of an authorised request.\<close>

lemma rights_of_claim:
  assumes "authorised config cid req d"
    and "ev_claim ev = cap_claim secs (signing_request req d cid)"
  shows "cl_sub (ev_claim ev) = rq_entity req \<and> cl_vm (ev_claim ev) = rq_vm_name req \<and>
    cl_cid (ev_claim ev) = cid \<and> policy_grants config cid req = Some (cl_caps (ev_claim ev)) \<and>
    (\<forall>vm module meth. can_call_rpc ev vm module meth =
       rpc_allowed (the (policy_grants config cid req)) (vm, module, meth)) \<and>
    (\<forall>vm p m. can_access_path ev vm p m = path_allowed (the (policy_grants config cid req)) (vm, p, m))"
proof -
  have "pd_vm_name d = rq_vm_name req"
    using assms(1) resolve_vm_name by (auto simp: authorised_def)
  moreover note authorised_policy_grants [OF assms(1)]
  ultimately show ?thesis
    using assms(2)
    by (simp add: cap_claim_def signing_request_def Let_def can_call_rpc_allowed can_access_path_allowed)
qed


text \<open>What a request that succeeded has put on the disk, when the stream ended at the server.\<close>

lemma stored_answer:
  assumes "request_cert A acfg entity w = (Ok (), w')"
    and "distinct [en_cert_path entity, en_key_path entity, en_ca_path entity]"
      "en_cert_path entity \<noteq> []" "en_key_path entity \<noteq> []" "en_ca_path entity \<noteq> []"
    and "generate_csr (ae_rcgen A) (aw_rng w) (en_name entity) = Ok g"
    and "fst (connect_with_local_port (ae_kernel A) (host_cid_of (ae_host_cid_var A))
      (ag_server_port acfg) (ag_client_port acfg) (aw_net w)) = Ok (fd, st)"
    and "req = cert_request acfg entity (gc_csr_pem g)"
    and "fst (exchange (ae_request_json A) (ae_response_json A) req st) = Ok (RespOk pem ca_pem)"
  shows "data_at (aw_fs w') (en_cert_path entity) = Some (as_bytes pem) \<and>
    data_at (aw_fs w') (en_ca_path entity) = Some (as_bytes ca_pem)"
proof -
  have served: "served A acfg entity w = Some (g, pem, ca_pem)"
    using assms(6-9) by (simp add: served_def)
  show ?thesis
    by (rule store_entity_credentials_Ok [OF request_cert_served [OF served assms(1)] assms(2-5)])
      (simp add: data_at_def stored_inode_def)
qed

section \<open>A complete run for the witnesses\<close>

definition granted_stream :: stream where
  "granted_stream = reply_stream (encode_response (RespOk ''LEAF'' ''ROOT''))"

definition peer_entity :: EntityEntry where
  "peer_entity = sample_entity\<lparr>en_name := ''peer-service''\<rparr>"

definition peer_agent :: "(unit, string, unit) agent_env" where
  "peer_agent = \<lparr>ae_request_json = request_serde, ae_response_json = response_serde, ae_rcgen = sample_rcgen,
     ae_kernel = sample_kernel granted_stream, ae_host_cid_var = None\<rparr>"

lemma granted_serde:
  "serde_law request_serde sample_cert_request (as_bytes ''req'')"
  "serde_law response_serde (RespOk ''LEAF'' ''ROOT'') (encode_response (RespOk ''LEAF'' ''ROOT''))"
  using sample_serde_laws(1) sample_serde_laws(3) [of "''LEAF''" "''ROOT''"]
  by (simp_all add: encode_response_def)

lemma small_messages:
  "length (as_bytes ''req'') \<le> MAX_MSG_BYTES"
  "length (encode_response (RespOk ''LEAF'' ''ROOT'')) \<le> MAX_MSG_BYTES"
  by (simp_all add: MAX_MSG_BYTES_def encode_response_def)

lemma granted_stream_served:
  "served_by sample_server_env sample_env 10 sample_host_config sample_ca request_serde sample_cert_request
     granted_stream"
proof (rule served_by_answer [OF _ _ granted_serde(1) small_messages(1) _ sample_answer])
  show "to_vec (se_response_json sample_server_env) (RespOk ''LEAF'' ''ROOT'') =
      Ok (encode_response (RespOk ''LEAF'' ''ROOT''))"
    by (simp add: response_serde_def)
qed (simp_all add: granted_stream_def reply_stream_def healthy_def empty_stream_def)

lemma sample_issuance:
  "env_now sample_env = Ok 1700000000"
  "from_pkcs8_der (se_jwt sample_server_env) (env_rng sample_env) (ca_key_der sample_ca) = Ok sample_signer"
  "jwt_sign (se_jwt sample_server_env) sample_signer
     (cap_claim 1700000000 (signing_request sample_cert_request sample_decision 10)) = Ok sample_token"
  "rg_csr_from_pem (se_rcgen sample_server_env) (rq_csr_pem sample_cert_request) =
     Ok \<lparr>cs_params = sample_params, cs_public_key = [5]\<rparr>"
  "claim_json_law (se_jwt sample_server_env)
     (cap_claim 1700000000 (signing_request sample_cert_request sample_decision 10)) ''{}''"
  using sample_from_pkcs8 by (simp_all add: sample_env_def sample_signing_request sample_cap_claim
      sample_jwt_sign_token) (simp add: sample_cert_request_def)

lemma sample_laws:
  "base64_law (se_jwt sample_server_env)"
  "signature_law (se_jwt sample_server_env) (js_key_pair sample_signer) [4, 7]"
  "trusted_key sample_x509 (ca_cert_pem sample_ca) [4, 7]"
  using sample_trusted by (simp_all add: sample_ca_def)

lemma sample_parsed:
  "parses_issued sample_x509 (se_rcgen sample_server_env) sample_env
     \<lparr>cs_params = sample_params, cs_public_key = [5]\<rparr> sample_token (pd_validity_days sample_decision)"
  by (simp add: sample_parses_issued)

lemma sample_plain:
  "\<forall>e \<in> set (cp_custom_extensions (cs_params \<lparr>cs_params = sample_params, cs_public_key = [5]\<rparr>)).
     ce_oid e \<noteq> CAP_EXTENSION_OID"
  by (simp add: sample_params_def)

lemma sample_names:
  "rq_entity sample_cert_request = ''peer-service''" "en_name peer_entity = ''peer-service''"
  by (simp_all add: sample_cert_request_def peer_entity_def)

lemma peer_served:
  "cert_request sample_agent_config peer_entity ''CSR'' = sample_cert_request"
  "generate_csr (ae_rcgen peer_agent) (aw_rng sample_world) (en_name peer_entity) =
     Ok \<lparr>gc_key_pem = ''KEY'', gc_csr_pem = ''CSR''\<rparr>"
  "fst (connect_with_local_port (ae_kernel peer_agent) (host_cid_of (ae_host_cid_var peer_agent))
     (ag_server_port sample_agent_config) (ag_client_port sample_agent_config) (aw_net sample_world)) =
     Ok (5, granted_stream)"
  by (simp_all add: cert_request_def sample_agent_config_def peer_entity_def sample_cert_request_def
      PROTOCOL_VERSION_def peer_agent_def generate_csr_def sample_world_def sample_connect)

text \<open>With this answer the three files are stored.\<close>

lemma served_request_succeeds:
  assumes "served A sample_agent_config peer_entity sample_world =
    Some (\<lparr>gc_key_pem = ''KEY'', gc_csr_pem = ''CSR''\<rparr>, ''LEAF'', ''ROOT'')"
  shows "\<exists>w'. request_cert A sample_agent_config peer_entity sample_world = (Ok (), w')"
proof -
  obtain r w' where w': "request_cert A sample_agent_config peer_entity sample_world = (r, w')"
    by fastforce
  have "store_entity_credentials peer_entity ''LEAF'' ''KEY'' ''ROOT'' =
      store_entity_credentials sample_entity ''LEAF'' ''KEY'' ''ROOT''"
    by (simp add: store_entity_credentials_def peer_entity_def)
  with request_cert_served [OF assms w'] have "r = Ok ()"
    using sample_store [of "''LEAF''" "''KEY''" "''ROOT''"] by (simp add: sample_world_def)
  with w' show ?thesis by blast
qed

lemma peer_request_cert:
  "\<exists>w'. request_cert peer_agent sample_agent_config peer_entity sample_world = (Ok (), w')"
proof (rule served_request_succeeds)
  have "fst (exchange request_serde response_serde sample_cert_request granted_stream) =
      Ok (RespOk ''LEAF'' ''ROOT'')"
    by (rule exchange_gets_answer [OF granted_stream_served _ _ granted_serde(1) small_messages(1) sample_answer
          granted_serde(2) small_messages(2)]) simp_all
  then show "served peer_agent sample_agent_config peer_entity sample_world =
      Some (\<lparr>gc_key_pem = ''KEY'', gc_csr_pem = ''CSR''\<rparr>, ''LEAF'', ''ROOT'')"
    using peer_served by (simp add: served_def) (simp add: peer_agent_def)
qed

section \<open>The same run in JSON\<close>

text \<open>The texts of the request and of the answer are their compact JSON; \<open>{}\<close> stands for the claim, as before.\<close>

abbreviation granted_request_json :: json where
  "granted_request_json \<equiv> CertRequest_to_json sample_cert_request"

abbreviation granted_response_json :: json where
  "granted_response_json \<equiv> CertResponse_to_json (RespOk ''LEAF'' ''ROOT'')"

definition granted_texts :: json_lib where
  "granted_texts = \<lparr>json_print = (\<lambda>v. if v = CapClaim_to_json sample_claim then ''{}'' else compact v),
     json_parse = (\<lambda>bs. if bs = as_bytes ''{}'' then Ok (CapClaim_to_json sample_claim)
       else if bs = as_bytes (compact granted_request_json) then Ok granted_request_json
       else if bs = as_bytes (compact granted_response_json) then Ok granted_response_json
       else Err ''expected value''),
     json_mismatch = (\<lambda>_. ''invalid type'')\<rparr>"

definition granted_server :: "(unit, unit, string, unit) server_env" where
  "granted_server = (json_server_env granted_texts)\<lparr>se_jwt := jwt_with_json granted_texts (sample_jwt_lib sample_claim)\<rparr>"

definition granted_json_stream :: stream where
  "granted_json_stream = reply_stream (as_bytes (compact granted_response_json))"

definition granted_agent :: "(unit, string, unit) agent_env" where
  "granted_agent = peer_agent\<lparr>ae_request_json := CertRequest_serde granted_texts,
     ae_response_json := CertResponse_serde granted_texts, ae_kernel := sample_kernel granted_json_stream\<rparr>"

lemma granted_jsons:
  "granted_request_json \<noteq> CapClaim_to_json sample_claim" "granted_response_json \<noteq> CapClaim_to_json sample_claim"
  "compact granted_request_json \<noteq> ''{}''" "compact granted_response_json \<noteq> ''{}''"
  "compact granted_request_json \<noteq> compact granted_response_json"
  "length (compact granted_request_json) \<le> 1000" "length (compact granted_response_json) \<le> 1000"
  by (simp_all add: CertRequest_to_json_def CertResponse_to_json_def CapClaim_to_json_def sample_cert_request_def
      PROTOCOL_VERSION_def show_nat_def show_radix.simps)

lemma granted_text_laws:
  "json_text_law granted_texts granted_request_json" "json_text_law granted_texts granted_response_json"
  "json_text_law granted_texts (CapClaim_to_json sample_claim)"
  "go_text_law sample_go_json granted_texts (CapClaim_to_json sample_claim)"
  "json_print granted_texts granted_request_json = compact granted_request_json"
  "json_print granted_texts granted_response_json = compact granted_response_json"
  using granted_jsons by (auto simp: json_text_law_def go_text_law_def granted_texts_def sample_go_json_def simp del: as_bytes_simps)


text \<open>Signing uses of the token library what writes the claim, not what reads it.\<close>

lemma signs_with_json:
  assumes "json_encode P CapClaim_to_json c = claim_to_string L c"
  shows "from_pkcs8_der (jwt_with_json P L) = from_pkcs8_der L"
    and "jwt_sign (jwt_with_json P L) signer c = jwt_sign L signer c"
    and "env_now env = Ok secs \<Longrightarrow> cap_claim secs req = c \<Longrightarrow>
      sign_csr (jwt_with_json P L) R env ca req = sign_csr L R env ca req"
  using assms by (simp_all add: fun_eq_iff from_pkcs8_der_def jwt_sign_def jwt_signing_input_def sign_csr_def)

lemma granted_server_simps [simp]:
  "se_request_json granted_server = CertRequest_serde granted_texts"
  "se_response_json granted_server = CertResponse_serde granted_texts"
  "se_jwt granted_server = jwt_with_json granted_texts (sample_jwt_lib sample_claim)"
  "se_rcgen granted_server = se_rcgen sample_server_env"
  by (simp_all add: granted_server_def json_server_env_def)

lemma granted_encode:
  "json_encode granted_texts CapClaim_to_json sample_claim = claim_to_string (sample_jwt_lib sample_claim) sample_claim"
  by (simp add: json_encode_def granted_texts_def)

lemmas granted_signing = signs_with_json [OF granted_encode]

lemma granted_answer:
  "answer granted_server sample_env 10 sample_host_config sample_ca sample_cert_request = Some (RespOk ''LEAF'' ''ROOT'')"
proof -
  have "sign_csr (se_jwt granted_server) (se_rcgen sample_server_env) sample_env sample_ca sample_request =
      sign_csr (sample_jwt_lib sample_claim) (se_rcgen sample_server_env) sample_env sample_ca sample_request"
    using granted_signing(3) [OF sample_issuance(1) sample_cap_claim] by simp
  moreover have "se_jwt sample_server_env = sample_jwt_lib sample_claim" by simp
  ultimately show ?thesis
    using answered_signed [OF sample_answer sample_authorised] sample_authorised
    by (auto simp: answer_Ok_iff sample_signing_request)
qed

lemma granted_issuance:
  "from_pkcs8_der (se_jwt granted_server) (env_rng sample_env) (ca_key_der sample_ca) = Ok sample_signer"
  "jwt_sign (se_jwt granted_server) sample_signer
     (cap_claim 1700000000 (signing_request sample_cert_request sample_decision 10)) = Ok sample_token"
  using sample_issuance(2,3) by (simp_all add: sample_signing_request sample_cap_claim granted_signing)

lemma granted_sizes:
  "length (json_print granted_texts granted_request_json) \<le> MAX_MSG_BYTES"
  "length (json_print granted_texts granted_response_json) \<le> MAX_MSG_BYTES"
  using granted_jsons(6,7) by (simp_all add: granted_text_laws(5,6) MAX_MSG_BYTES_def)

lemma granted_json_served:
  "served_by granted_server sample_env 10 sample_host_config sample_ca (CertRequest_serde granted_texts)
     sample_cert_request granted_json_stream"
proof (rule served_by_answer [OF _ _ json_wire_laws(1) [OF granted_text_laws(1)] _ _ granted_answer])
  show "to_vec (se_response_json granted_server) (RespOk ''LEAF'' ''ROOT'') = Ok (as_bytes (compact granted_response_json))"
    by (simp add: to_vec_response granted_text_laws(6))
qed (use granted_sizes(1) in \<open>simp_all add: granted_json_stream_def reply_stream_def healthy_def empty_stream_def\<close>)

lemma granted_agent_served:
  "generate_csr (ae_rcgen granted_agent) (aw_rng sample_world) (en_name peer_entity) =
     Ok \<lparr>gc_key_pem = ''KEY'', gc_csr_pem = ''CSR''\<rparr>"
  "fst (connect_with_local_port (ae_kernel granted_agent) (host_cid_of (ae_host_cid_var granted_agent))
     (ag_server_port sample_agent_config) (ag_client_port sample_agent_config) (aw_net sample_world)) =
     Ok (5, granted_json_stream)"
  using peer_served(2) by (simp_all add: granted_agent_def peer_agent_def sample_agent_config_def sample_world_def sample_connect)

lemma granted_agent_encoders:
  "ae_request_json granted_agent = CertRequest_serde granted_texts"
  "ae_response_json granted_agent = CertResponse_serde granted_texts"
  by (simp_all add: granted_agent_def)

lemma granted_request_cert:
  "\<exists>w'. request_cert granted_agent sample_agent_config peer_entity sample_world = (Ok (), w')"
proof (rule served_request_succeeds)
  have "fst (exchange (CertRequest_serde granted_texts) (CertResponse_serde granted_texts) sample_cert_request
      granted_json_stream) = Ok (RespOk ''LEAF'' ''ROOT'')"
    by (rule exchange_gets_answer [OF granted_json_served _ _ json_wire_laws(1) [OF granted_text_laws(1)] _
          granted_answer json_wire_laws(2) [OF granted_text_laws(2)]]) (use granted_sizes in simp_all)
  then show "served granted_agent sample_agent_config peer_entity sample_world =
      Some (\<lparr>gc_key_pem = ''KEY'', gc_csr_pem = ''CSR''\<rparr>, ''LEAF'', ''ROOT'')"
    using granted_agent_served peer_served(1) by (simp add: served_def granted_agent_encoders)
qed

section \<open>Properties\<close>

text \<open>The two ends fit together: an agent whose stream ends at the server gets exactly the answer the
  server's specification gives to its request.\<close>

theorem agent_gets_servers_answer:
  assumes "served_by E env cid config ca Jq req st"
    and "se_request_json E = Jq" and "se_response_json E = Jr"
    and "serde_law Jq req q" "length q \<le> MAX_MSG_BYTES"
    and "answer E env cid config ca req = Some resp"
    and "serde_law Jr resp r" "length r \<le> MAX_MSG_BYTES"
  shows "fst (exchange Jq Jr req st) = Ok resp"
  using assms by (rule exchange_gets_answer)

theorem agent_gets_servers_answer_witness:
  "fst (exchange request_serde response_serde sample_cert_request granted_stream) = Ok (RespOk ''LEAF'' ''ROOT'')"
  by (rule agent_gets_servers_answer [OF granted_stream_served _ _ granted_serde(1) small_messages(1) sample_answer
        granted_serde(2) small_messages(2)]) simp_all

text \<open>Many agents at once: in every interleaving of the server's accepts, of the bytes of all its
  connections and of the steps of all its tasks, an agent whose connection the server has ended, and
  which reads what the server wrote to it, gets exactly the answer that the specification gives to
  its own request.\<close>

theorem interleaved_agents_get_their_answers:
  assumes "fine_run E config ca acts s" and "(c, out) \<in> set (fs_ended s)"
    and "healthy st" "s_out st = []" and "healthy (cn_stream c)" "s_out (cn_stream c) = []"
    and "s_in (cn_stream c) = s_out (snd (send_json Jq req st))" and "s_in st = s_out (snd out)"
    and "se_request_json E = Jq" and "se_response_json E = Jr"
    and "serde_law Jq req q" "length q \<le> MAX_MSG_BYTES"
    and "answer E (cn_env c) (cn_cid c) config ca req = Some resp"
    and "serde_law Jr resp r" "length r \<le> MAX_MSG_BYTES"
  shows "fst (exchange Jq Jr req st) = Ok resp"
proof -
  from fine_run_ended [OF assms(1,2)] assms(3-8)
  have "served_by E (cn_env c) (cn_cid c) config ca Jq req st"
    unfolding served_by_def by (intro conjI exI [of _ "cn_stream c"]) simp_all
  from exchange_gets_answer [OF this assms(9-15)] show ?thesis .
qed

theorem interleaved_agents_get_their_answers_witness:
  "fst (exchange request_serde response_serde sample_cert_request granted_stream) = Ok (RespOk ''LEAF'' ''ROOT'') \<and>
    (\<exists>acts s out. fine_run sample_server_env sample_host_config sample_ca acts s \<and>
      fs_ended s = [(sample_conn 10 901, out)] \<and> s_in granted_stream = s_out (snd out))"
proof -
  have "0 < length (fs_tasks sample_fine_state)" by (simp add: sample_fine_state_def)
  from task_ends_alone [OF sample_fine_run this, of sample_server_env sample_ca] obtain acts s where
    run: "fine_run sample_server_env sample_host_config sample_ca acts s"
    and ended: "fs_ended s = [(sample_conn 10 901, serve_conn sample_server_env sample_host_config sample_ca
      (sample_conn 10 901))]"
    by (auto simp: sample_fine_state_def)
  have healthy: "healthy granted_stream" "s_out granted_stream = []"
    by (simp_all add: granted_stream_def reply_stream_def healthy_def empty_stream_def)
  have conn: "healthy (cn_stream (sample_conn 10 901))" "s_out (cn_stream (sample_conn 10 901)) = []"
    by (simp_all add: sample_conn_def request_stream_def healthy_def empty_stream_def)
  have sent: "s_in (cn_stream (sample_conn 10 901)) =
      s_out (snd (send_json request_serde sample_cert_request granted_stream))"
    using send_json_healthy [OF healthy(1) serde_lawD(1) [OF granted_serde(1)]] healthy(2)
    by (simp add: sample_conn_def request_stream_def)
  have reply: "s_in granted_stream = s_out (snd (serve_conn sample_server_env sample_host_config sample_ca
      (sample_conn 10 901)))"
    by (simp add: serve_conn_def sample_conn_def sample_handled granted_stream_def reply_stream_def)
  have ans: "answer sample_server_env (cn_env (sample_conn 10 901)) (cn_cid (sample_conn 10 901))
      sample_host_config sample_ca sample_cert_request = Some (RespOk ''LEAF'' ''ROOT'')"
    using sample_answer by (simp add: sample_conn_def)
  have member: "(sample_conn 10 901, serve_conn sample_server_env sample_host_config sample_ca (sample_conn 10 901))
      \<in> set (fs_ended s)"
    using ended by simp
  have "fst (exchange request_serde response_serde sample_cert_request granted_stream) = Ok (RespOk ''LEAF'' ''ROOT'')"
    by (rule interleaved_agents_get_their_answers [OF run member healthy conn sent reply _ _ granted_serde(1)
          small_messages(1) ans granted_serde(2) small_messages(2)]) simp_all
  with run ended reply show ?thesis by blast
qed

text \<open>A peer with a certificate that the server issued has exactly the rights that the policy grants to
  its VM and entity: the evaluator accepts the certificate, names the entity, the VM and the CID, and
  answers every question from the capabilities of the policy entry.\<close>

theorem certificate_grants_policy:
  assumes "answer E env cid config ca req = Some (RespOk pem ca_pem)"
    and "authorised config cid req d"
    and "env_now env = Ok secs" "from_pkcs8_der (se_jwt E) (env_rng env) (ca_key_der ca) = Ok signer"
      "jwt_sign (se_jwt E) signer (cap_claim secs (signing_request req d cid)) = Ok jwt"
      "rg_csr_from_pem (se_rcgen E) (rq_csr_pem req) = Ok csr"
    and "base64_law (se_jwt E)" "claim_json_law (se_jwt E) (cap_claim secs (signing_request req d cid)) payload"
      "signature_law (se_jwt E) (js_key_pair signer) pk" "trusted_key X (ca_cert_pem ca) pk"
    and "parses_issued X (se_rcgen E) env csr jwt (pd_validity_days d)"
    and "\<forall>e \<in> set (cp_custom_extensions (cs_params csr)). ce_oid e \<noteq> CAP_EXTENSION_OID"
    and "length jwt < 65536"
  shows "\<exists>ev caps. from_cert_pem (se_jwt E) X pem ca_pem = Ok ev \<and>
    cl_sub (ev_claim ev) = rq_entity req \<and> cl_vm (ev_claim ev) = rq_vm_name req \<and> cl_cid (ev_claim ev) = cid \<and>
    policy_grants config cid req = Some caps \<and>
    (\<forall>vm module meth. can_call_rpc ev vm module meth = rpc_allowed caps (vm, module, meth)) \<and>
    (\<forall>vm p m. can_access_path ev vm p m = path_allowed caps (vm, p, m))"
proof -
  let ?ev = "\<lparr>ev_claim = cap_claim secs (signing_request req d cid)\<rparr>"
  have "from_cert_pem (se_jwt E) X pem ca_pem = Ok ?ev"
    by (rule conjunct2 [OF answered_certificate_evaluates [OF assms]])
  with rights_of_claim [OF assms(2), of ?ev secs] show ?thesis by fastforce
qed

theorem certificate_grants_policy_witness:
  "\<exists>ev caps. from_cert_pem (se_jwt sample_server_env) sample_x509 ''LEAF'' ''ROOT'' = Ok ev \<and>
     cl_sub (ev_claim ev) = ''peer-service'' \<and> policy_grants sample_host_config 10 sample_cert_request = Some caps \<and>
     (\<forall>vm module meth. can_call_rpc ev vm module meth = rpc_allowed caps (vm, module, meth))"
  using certificate_grants_policy [OF sample_answer sample_authorised sample_issuance(1-4) sample_laws(1)
      sample_issuance(5) sample_laws(2,3) sample_parsed sample_plain length_sample_token]
  by (metis sample_names(1))

text \<open>The whole path, from the policy file to a peer's decision: when the agent's request for an entity
  has succeeded, the certificate file and the CA file on the guest's disk hold what an evaluator needs,
  and with them it grants this entity exactly what the host's policy says.\<close>

theorem stored_certificate_grants_policy:
  assumes "request_cert A acfg entity w = (Ok (), w')"
    and "distinct [en_cert_path entity, en_key_path entity, en_ca_path entity]"
      "en_cert_path entity \<noteq> []" "en_key_path entity \<noteq> []" "en_ca_path entity \<noteq> []"
    and "generate_csr (ae_rcgen A) (aw_rng w) (en_name entity) = Ok g"
    and "fst (connect_with_local_port (ae_kernel A) (host_cid_of (ae_host_cid_var A))
      (ag_server_port acfg) (ag_client_port acfg) (aw_net w)) = Ok (fd, st)"
    and "req = cert_request acfg entity (gc_csr_pem g)"
    and "served_by E env cid config ca (ae_request_json A) req st"
      "se_request_json E = ae_request_json A" "se_response_json E = ae_response_json A"
    and "serde_law (ae_request_json A) req q" "length q \<le> MAX_MSG_BYTES"
      "serde_law (ae_response_json A) (RespOk pem ca_pem) r" "length r \<le> MAX_MSG_BYTES"
    and "answer E env cid config ca req = Some (RespOk pem ca_pem)"
    and "authorised config cid req d"
    and "env_now env = Ok secs" "from_pkcs8_der (se_jwt E) (env_rng env) (ca_key_der ca) = Ok signer"
      "jwt_sign (se_jwt E) signer (cap_claim secs (signing_request req d cid)) = Ok jwt"
      "rg_csr_from_pem (se_rcgen E) (rq_csr_pem req) = Ok csr"
    and "base64_law (se_jwt E)" "claim_json_law (se_jwt E) (cap_claim secs (signing_request req d cid)) payload"
      "signature_law (se_jwt E) (js_key_pair signer) pk" "trusted_key X (ca_cert_pem ca) pk"
    and "parses_issued X (se_rcgen E) env csr jwt (pd_validity_days d)"
    and "\<forall>e \<in> set (cp_custom_extensions (cs_params csr)). ce_oid e \<noteq> CAP_EXTENSION_OID"
    and "length jwt < 65536"
  shows "\<exists>cert_pem root_pem ev. data_at (aw_fs w') (en_cert_path entity) = Some (as_bytes cert_pem) \<and>
    data_at (aw_fs w') (en_ca_path entity) = Some (as_bytes root_pem) \<and>
    from_cert_pem (se_jwt E) X cert_pem root_pem = Ok ev \<and>
    cl_sub (ev_claim ev) = en_name entity \<and> cl_vm (ev_claim ev) = ag_vm_name acfg \<and> cl_cid (ev_claim ev) = cid \<and>
    (\<forall>vm module meth. can_call_rpc ev vm module meth =
       rpc_allowed (the (policy_grants config cid req)) (vm, module, meth)) \<and>
    (\<forall>vm p m. can_access_path ev vm p m = path_allowed (the (policy_grants config cid req)) (vm, p, m))"
proof -
  let ?ev = "\<lparr>ev_claim = cap_claim secs (signing_request req d cid)\<rparr>"
  have "fst (exchange (ae_request_json A) (ae_response_json A) req st) = Ok (RespOk pem ca_pem)"
    by (rule exchange_gets_answer [OF assms(9-13,16,14,15)])
  note disk = stored_answer [OF assms(1-8) this]
  have "from_cert_pem (se_jwt E) X pem ca_pem = Ok ?ev"
    by (rule conjunct2 [OF answered_certificate_evaluates [OF assms(16-)]])
  moreover have "rq_entity req = en_name entity" "rq_vm_name req = ag_vm_name acfg"
    using assms(8) by (simp_all add: cert_request_def)
  ultimately show ?thesis
    using disk rights_of_claim [OF assms(17), of ?ev secs]
    by (intro exI [of _ pem] exI [of _ ca_pem] exI [of _ ?ev]) simp
qed

theorem stored_certificate_grants_policy_witness:
  "\<exists>w' cert_pem root_pem ev. request_cert peer_agent sample_agent_config peer_entity sample_world = (Ok (), w') \<and>
     data_at (aw_fs w') (en_cert_path peer_entity) = Some (as_bytes cert_pem) \<and>
     from_cert_pem (se_jwt sample_server_env) sample_x509 cert_pem root_pem = Ok ev \<and>
     cl_sub (ev_claim ev) = ''peer-service''"
proof -
  obtain w' where w': "request_cert peer_agent sample_agent_config peer_entity sample_world = (Ok (), w')"
    using peer_request_cert by blast
  have paths: "distinct [en_cert_path peer_entity, en_key_path peer_entity, en_ca_path peer_entity]"
    "en_cert_path peer_entity \<noteq> []" "en_key_path peer_entity \<noteq> []" "en_ca_path peer_entity \<noteq> []"
    by (simp_all add: peer_entity_def sample_entity_def)
  have req: "sample_cert_request = cert_request sample_agent_config peer_entity
      (gc_csr_pem \<lparr>gc_key_pem = ''KEY'', gc_csr_pem = ''CSR''\<rparr>)"
    by (simp add: peer_served(1))
  have json: "ae_request_json peer_agent = request_serde" "ae_response_json peer_agent = response_serde"
    by (simp_all add: peer_agent_def)
  from stored_certificate_grants_policy [OF w' paths peer_served(2,3) req, unfolded json,
      OF granted_stream_served _ _ granted_serde(1) small_messages(1) granted_serde(2) small_messages(2)
      sample_answer sample_authorised sample_issuance(1-4) sample_laws(1) sample_issuance(5) sample_laws(2,3)
      sample_parsed sample_plain length_sample_token]
  obtain cert_pem root_pem ev where
    "data_at (aw_fs w') (en_cert_path peer_entity) = Some (as_bytes cert_pem)"
    "from_cert_pem (se_jwt sample_server_env) sample_x509 cert_pem root_pem = Ok ev"
    "cl_sub (ev_claim ev) = ''peer-service''"
    by (auto simp: sample_names)
  with w' show ?thesis by blast
qed

text \<open>C2: the whole system, from the policy to the peer's rights, at the grain of the await points: in any run
  with any number of agents and other peers, an agent that has ended holds the certificate that its
  request is due, and with it and the CA certificate it got, an evaluator grants this entity exactly
  what the host's policy says. The agent's request is authorised and answered with a certificate, and
  no transport between the agent and its task fails.\<close>

theorem system_grants_policy:
  assumes "system_run E config ca Jq Jr acts s" and "(c, AgentOf req ast sn) \<in> set (sy_parties s)"
    and "session_ready (conn_env E config ca c) Jq Jr ast (cn_stream c) req q (RespOk pem ca_pem) r"
    and "at_pc (sn_agent sn) = AEnd res"
    and "authorised config (cn_cid c) req d"
    and "env_now (cn_env c) = Ok secs"
      "from_pkcs8_der (se_jwt E) (env_rng (cn_env c)) (ca_key_der ca) = Ok signer"
      "jwt_sign (se_jwt E) signer (cap_claim secs (signing_request req d (cn_cid c))) = Ok jwt"
      "rg_csr_from_pem (se_rcgen E) (rq_csr_pem req) = Ok csr"
    and "base64_law (se_jwt E)" "claim_json_law (se_jwt E) (cap_claim secs (signing_request req d (cn_cid c))) payload"
      "signature_law (se_jwt E) (js_key_pair signer) pk" "trusted_key X (ca_cert_pem ca) pk"
    and "parses_issued X (se_rcgen E) (cn_env c) csr jwt (pd_validity_days d)"
    and "\<forall>e \<in> set (cp_custom_extensions (cs_params csr)). ce_oid e \<noteq> CAP_EXTENSION_OID"
    and "length jwt < 65536"
  shows "\<exists>ev. res = Ok (RespOk pem ca_pem) \<and> from_cert_pem (se_jwt E) X pem ca_pem = Ok ev \<and>
    cl_sub (ev_claim ev) = rq_entity req \<and> cl_vm (ev_claim ev) = rq_vm_name req \<and> cl_cid (ev_claim ev) = cn_cid c \<and>
    (\<forall>vm module meth. can_call_rpc ev vm module meth =
       rpc_allowed (the (policy_grants config (cn_cid c) req)) (vm, module, meth)) \<and>
    (\<forall>vm p m. can_access_path ev vm p m = path_allowed (the (policy_grants config (cn_cid c) req)) (vm, p, m))"
proof -
  let ?ev = "\<lparr>ev_claim = cap_claim secs (signing_request req d (cn_cid c))\<rparr>"
  have "answer E (cn_env c) (cn_cid c) config ca req = Some (RespOk pem ca_pem)"
    using assms(3) by (simp add: session_ready_def conn_env_def)
  from answered_certificate_evaluates [OF this assms(5-)] have "from_cert_pem (se_jwt E) X pem ca_pem = Ok ?ev" ..
  moreover have "res = Ok (RespOk pem ca_pem)"
    using session_results [OF conjunct1 [OF agent_party_alone [OF assms(1,2)]] assms(3)] assms(4) by blast
  ultimately show ?thesis
    using rights_of_claim [OF assms(5), of ?ev secs] by (intro exI [of _ ?ev]) simp
qed

theorem system_grants_policy_witness:
  "\<exists>acts s sn ev. system_run sample_server_env sample_host_config sample_ca request_serde response_serde acts s \<and>
    (sample_conn 10 901, AgentOf sample_cert_request empty_stream sn) \<in> set (sy_parties s) \<and>
    at_pc (sn_agent sn) = AEnd (Ok (RespOk ''LEAF'' ''ROOT'')) \<and>
    from_cert_pem (se_jwt sample_server_env) sample_x509 ''LEAF'' ''ROOT'' = Ok ev \<and>
    cl_sub (ev_claim ev) = ''peer-service''"
proof -
  obtain acts s sn t where
    run: "system_run sample_server_env sample_host_config sample_ca request_serde response_serde acts s"
    and rest: "\<And>i s'. \<not> system_step sample_server_env sample_host_config sample_ca request_serde response_serde s (SMove i) s'"
    and sn: "(sample_conn 10 901, AgentOf sample_cert_request empty_stream sn) \<in> set (sy_parties s)"
    using sample_system_rest by metis
  from system_at_rest [OF run rest sn] obtain res where res: "at_pc (sn_agent sn) = AEnd res"
    by (auto simp: session_over_def)
  have conn: "cn_env (sample_conn 10 901) = sample_env" "cn_cid (sample_conn 10 901) = 10"
    by (simp_all add: sample_conn_def)
  from system_grants_policy [OF run sn sample_agent_ready res, unfolded conn, OF sample_authorised sample_issuance(1-4)
      sample_laws(1) sample_issuance(5) sample_laws(2,3) sample_parsed sample_plain length_sample_token] run sn res
  show ?thesis unfolding sample_names by blast
qed

text \<open>C1: the whole path with the encoders that the source declares, to both evaluators: when the agent's
  request for an entity has succeeded, the two files on the guest's disk make the Rust and the Go
  evaluator grant this entity exactly what the host's policy says. Of the JSON libraries nothing is
  assumed but that the texts of the request, of the answer and of the claim are read back.\<close>

theorem stored_files_grant_policy:
  assumes "request_cert A acfg entity w = (Ok (), w')"
    and "distinct [en_cert_path entity, en_key_path entity, en_ca_path entity]"
      "en_cert_path entity \<noteq> []" "en_key_path entity \<noteq> []" "en_ca_path entity \<noteq> []"
    and "generate_csr (ae_rcgen A) (aw_rng w) (en_name entity) = Ok g"
    and "fst (connect_with_local_port (ae_kernel A) (host_cid_of (ae_host_cid_var A))
      (ag_server_port acfg) (ag_client_port acfg) (aw_net w)) = Ok (fd, st)"
    and "req = cert_request acfg entity (gc_csr_pem g)"
    and encoders: "ae_request_json A = CertRequest_serde P" "ae_response_json A = CertResponse_serde P"
      "se_request_json E = CertRequest_serde P" "se_response_json E = CertResponse_serde P"
      "se_jwt E = jwt_with_json P L"
    and "served_by E env cid config ca (CertRequest_serde P) req st"
    and texts: "json_text_law P (CertRequest_to_json req)" "json_text_law P (CertResponse_to_json (RespOk pem ca_pem))"
      "json_text_law P (CapClaim_to_json (cap_claim secs (signing_request req d cid)))"
      "go_text_law Q P (CapClaim_to_json (cap_claim secs (signing_request req d cid)))"
    and sizes: "length (json_print P (CertRequest_to_json req)) \<le> MAX_MSG_BYTES"
      "length (json_print P (CertResponse_to_json (RespOk pem ca_pem))) \<le> MAX_MSG_BYTES"
    and ans: "answer E env cid config ca req = Some (RespOk pem ca_pem)" and auth: "authorised config cid req d"
    and issued: "env_now env = Ok secs" "from_pkcs8_der (se_jwt E) (env_rng env) (ca_key_der ca) = Ok signer"
      "jwt_sign (se_jwt E) signer (cap_claim secs (signing_request req d cid)) = Ok jwt"
      "rg_csr_from_pem (se_rcgen E) (rq_csr_pem req) = Ok csr"
    and laws: "base64_law L" "signature_law L (js_key_pair signer) pk" "go_base64_law G L" "go_der_law G"
      "go_signature_law G L (js_key_pair signer) gpk"
      "trusted_key X (ca_cert_pem ca) pk" "go_trusted_key G (as_bytes (ca_cert_pem ca)) gpk"
    and parsed: "parses_issued X (se_rcgen E) env csr jwt (pd_validity_days d)"
      "go_parses_issued G (se_rcgen E) env csr jwt (pd_validity_days d)"
    and plain: "\<forall>e \<in> set (cp_custom_extensions (cs_params csr)). ce_oid e \<noteq> CAP_EXTENSION_OID"
    and small: "length jwt < 65536"
  shows "\<exists>cert_pem root_pem ev e. data_at (aw_fs w') (en_cert_path entity) = Some (as_bytes cert_pem) \<and>
    data_at (aw_fs w') (en_ca_path entity) = Some (as_bytes root_pem) \<and>
    from_cert_pem (se_jwt E) X cert_pem root_pem = Ok ev \<and>
    NewEvaluator (go_with_json Q G) (as_bytes cert_pem) (as_bytes root_pem) = Ok e \<and>
    cl_sub (ev_claim ev) = en_name entity \<and> claim_of_go (ge_claim e) = ev_claim ev \<and>
    (\<forall>vm module meth. can_call_rpc ev vm module meth = rpc_allowed (the (policy_grants config cid req)) (vm, module, meth)
       \<and> CanCallRpc e vm module meth = rpc_allowed (the (policy_grants config cid req)) (vm, module, meth)) \<and>
    (\<forall>vm p m. can_access_path ev vm p m = path_allowed (the (policy_grants config cid req)) (vm, p, m)
       \<and> CanAccessPath e vm p m = path_allowed (the (policy_grants config cid req)) (vm, p, m))"
proof -
  let ?claim = "cap_claim secs (signing_request req d cid)" and ?L = "jwt_with_json P L" and ?G = "go_with_json Q G"
  let ?ev = "\<lparr>ev_claim = ?claim\<rparr>"
  have "fst (exchange (CertRequest_serde P) (CertResponse_serde P) req st) = Ok (RespOk pem ca_pem)"
    by (rule exchange_gets_answer [OF assms(14) encoders(3,4) json_wire_laws(1) [OF texts(1)] _ ans
          json_wire_laws(2) [OF texts(2)]]) (simp_all add: sizes)
  note disk = stored_answer [OF assms(1-8), unfolded encoders, OF this]
  have lib: "base64_law ?L" "signature_law ?L (js_key_pair signer) pk" "go_base64_law ?G ?L" "go_der_law ?G"
    "go_signature_law ?G ?L (js_key_pair signer) gpk" "go_trusted_key ?G (as_bytes (ca_cert_pem ca)) gpk"
    "go_parses_issued ?G (se_rcgen E) env csr jwt (pd_validity_days d)"
    using laws parsed by simp_all
  note json = claim_json_law_text [OF texts(3), of L] go_claim_law_text [OF texts(3,4), of G L]
  have rust: "ca_pem = ca_cert_pem ca \<and> from_cert_pem ?L X pem ca_pem = Ok ?ev"
    by (rule answered_certificate_evaluates [OF ans auth, unfolded encoders, OF issued(1) issued(2,3) [unfolded encoders]
          issued(4) lib(1) json(1) lib(2) laws(6) parsed(1) plain small])
  have "claim_to_string ?L ?claim = Ok (json_print P (CapClaim_to_json ?claim))"
    using json(1) by (simp add: claim_json_law_def)
  from go_evaluates_issued [OF answered_signed(2) [OF ans auth, unfolded encoders] issued(1)
      issued(2,3) [unfolded encoders] _ lib(1,3,5) this json(2) lib(4,6) _ plain small]
  obtain e where e: "NewEvaluator ?G (as_bytes pem) (as_bytes ca_pem) = Ok e" "evaluator_of_go e = ?ev"
    using issued(4) lib(7) rust by (auto simp: signing_request_def)
  from e(2) have go: "claim_of_go (ge_claim e) = ?claim" by (simp add: evaluator_of_go_def)
  have same: "CanCallRpc e vm module meth = can_call_rpc ?ev vm module meth"
    "CanAccessPath e vm path access_mode = can_access_path ?ev vm path access_mode" for vm module meth path access_mode
    by (simp_all add: answers_same e(2))
  have "rq_entity req = en_name entity" using assms(8) by (simp add: cert_request_def)
  with rights_of_claim [OF auth, of ?ev secs] have names: "cl_sub ?claim = en_name entity"
    and rpc: "can_call_rpc ?ev vm module meth = rpc_allowed (the (policy_grants config cid req)) (vm, module, meth)"
    and access: "can_access_path ?ev vm path access_mode = path_allowed (the (policy_grants config cid req)) (vm, path, access_mode)"
    for vm module meth path access_mode by simp_all
  from disk conjunct2 [OF rust] e(1) go names show ?thesis
    unfolding encoders
    by - (rule exI [of _ pem], rule exI [of _ ca_pem], rule exI [of _ ?ev], rule exI [of _ e],
      simp add: same rpc access)
qed


theorem stored_files_grant_policy_witness:
  "\<exists>w' cert_pem root_pem ev e. request_cert granted_agent sample_agent_config peer_entity sample_world = (Ok (), w') \<and>
     data_at (aw_fs w') (en_cert_path peer_entity) = Some (as_bytes cert_pem) \<and>
     from_cert_pem (se_jwt granted_server) sample_x509 cert_pem root_pem = Ok ev \<and>
     NewEvaluator (go_with_json sample_go_json sample_go_lib) (as_bytes cert_pem) (as_bytes root_pem) = Ok e \<and>
     cl_sub (ev_claim ev) = ''peer-service''"
proof -
  obtain w' where w': "request_cert granted_agent sample_agent_config peer_entity sample_world = (Ok (), w')"
    using granted_request_cert by blast
  have paths: "distinct [en_cert_path peer_entity, en_key_path peer_entity, en_ca_path peer_entity]"
    "en_cert_path peer_entity \<noteq> []" "en_key_path peer_entity \<noteq> []" "en_ca_path peer_entity \<noteq> []"
    by (simp_all add: peer_entity_def sample_entity_def)
  have req: "sample_cert_request = cert_request sample_agent_config peer_entity
      (gc_csr_pem \<lparr>gc_key_pem = ''KEY'', gc_csr_pem = ''CSR''\<rparr>)"
    by (simp add: peer_served(1))
  have claim: "cap_claim 1700000000 (signing_request sample_cert_request sample_decision 10) = sample_claim"
    by (simp add: sample_signing_request sample_cap_claim)
  have go: "go_trusted_key sample_go_lib (as_bytes (ca_cert_pem sample_ca)) ()"
    using sample_go_trusted by (simp add: sample_ca_def)
  have parsed: "go_parses_issued sample_go_lib (se_rcgen granted_server) sample_env
      \<lparr>cs_params = sample_params, cs_public_key = [5]\<rparr> sample_token (pd_validity_days sample_decision)"
    by (simp add: sample_go_parses)
  from stored_files_grant_policy [OF w' paths granted_agent_served req granted_agent_encoders granted_server_simps(1-3)
      granted_json_served granted_text_laws(1,2), where d = sample_decision and secs = 1700000000, unfolded claim,
      OF granted_text_laws(3,4) granted_sizes granted_answer sample_authorised sample_issuance(1) granted_issuance(1)
      granted_issuance(2) [unfolded claim] _ sample_base64 sample_signature sample_go_base64 sample_go_der
      sample_go_signature sample_laws(3) go _ parsed sample_plain length_sample_token]
  show ?thesis using w' sample_issuance(4) sample_parsed by (auto simp: sample_names)
qed

end
